(* ===== verification/Prelude.thy ===== *)
theory Prelude
  imports Main
begin

text \<open>
  Shared vocabulary of the development: object ids and timestamps, the HTTP error
  values every handler can return, JavaScript truthiness and \<open>String.prototype.trim\<close>
  for request fields, and a generic model of a Mongoose collection (a list of documents
  in natural order, each with an \<open>_id\<close>) with the lemmas on lookup, save and delete
  that every component proof uses.
\<close>

section \<open>Ids, time, errors\<close>

text \<open>
  Mongo ObjectIds are modelled as natural numbers drawn from one global counter, so ids
  of different collections never coincide (as distinct ObjectIds do not). Timestamps are
  milliseconds as returned by \<open>Date.now()\<close>.
\<close>

type_synonym oid = nat
type_synonym time = int

text \<open>An HTTP error response: status code and the \<open>msg\<close> of its JSON body.\<close>

datatype herr = HttpErr nat string

type_synonym 'a result = "herr + 'a"

definition server_error :: herr where
  "server_error = HttpErr 500 ''Server Error''"

named_theorems doc_store "lemmas on the document-store model"

section \<open>JavaScript values in request bodies\<close>

text \<open>
  A field of \<open>req.body\<close> that the code tests with \<open>!x\<close> is a \<open>string option\<close>
  (\<open>None\<close> is \<open>undefined\<close>); it is falsy when absent or empty. A field that may
  arrive as a JSON boolean or as a multipart string is a \<open>jsval\<close>.
\<close>

datatype jsval = JUndef | JNull | JBool bool | JStr string | JNum int

fun truthy :: "jsval \<Rightarrow> bool" where
  "truthy JUndef = False"
| "truthy JNull = False"
| "truthy (JBool b) = b"
| "truthy (JStr s) = (s \<noteq> [])"
| "truthy (JNum n) = (n \<noteq> 0)"

fun str_falsy :: "string option \<Rightarrow> bool" where
  "str_falsy None = True"
| "str_falsy (Some s) = (s = [])"

text \<open>The ASCII whitespace that \<open>String.prototype.trim\<close> removes.\<close>

definition js_ws :: "char \<Rightarrow> bool" where
  "js_ws c \<longleftrightarrow> c \<in> {CHR '' '', CHR 0x09, CHR 0x0A, CHR 0x0B, CHR 0x0C, CHR 0x0D}"

definition js_trim :: "string \<Rightarrow> string" where
  "js_trim s = rev (dropWhile js_ws (rev (dropWhile js_ws s)))"

section \<open>A Mongoose collection\<close>

text \<open>
  A collection is the list of its documents in natural (insertion) order; \<open>key\<close>
  reads a document's \<open>_id\<close>. \<open>findById\<close> and \<open>findOne\<close> return the first match,
  \<open>save\<close> replaces the stored document with the same \<open>_id\<close> or appends a new one,
  \<open>deleteOne\<close> removes it.
\<close>

definition find_doc :: "('a \<Rightarrow> oid) \<Rightarrow> oid \<Rightarrow> 'a list \<Rightarrow> 'a option" where
  "find_doc key i xs = List.find (\<lambda>d. key d = i) xs"

fun save_doc :: "('a \<Rightarrow> oid) \<Rightarrow> 'a \<Rightarrow> 'a list \<Rightarrow> 'a list" where
  "save_doc key d [] = [d]"
| "save_doc key d (x # xs) = (if key x = key d then d # xs else x # save_doc key d xs)"

definition delete_doc :: "('a \<Rightarrow> oid) \<Rightarrow> oid \<Rightarrow> 'a list \<Rightarrow> 'a list" where
  "delete_doc key i xs = filter (\<lambda>d. key d \<noteq> i) xs"

text \<open>\<open>arr.filter(id => id.toString() !== x)\<close> on an array of ids.\<close>

definition remove_id :: "oid \<Rightarrow> oid list \<Rightarrow> oid list" where
  "remove_id x xs = filter (\<lambda>y. y \<noteq> x) xs"

section \<open>Lemmas on the collection model\<close>

lemma find_append [doc_store]:
  "List.find P (xs @ ys) = (case List.find P xs of None \<Rightarrow> List.find P ys | Some x \<Rightarrow> Some x)"
  by (induction xs) auto

lemma find_SomeD' [doc_store]: "List.find P xs = Some x \<Longrightarrow> P x \<and> x \<in> set xs"
  by (induction xs) (auto split: if_splits)

lemma find_doc_Nil [simp, doc_store]: "find_doc key i [] = None"
  by (simp add: find_doc_def)

lemma find_doc_Cons [simp, doc_store]:
  "find_doc key i (x # xs) = (if key x = i then Some x else find_doc key i xs)"
  by (simp add: find_doc_def)

lemma find_doc_SomeD [doc_store]:
  "find_doc key i xs = Some d \<Longrightarrow> d \<in> set xs \<and> key d = i"
  by (induction xs) (auto split: if_splits)

lemma find_doc_None_iff [doc_store]:
  "find_doc key i xs = None \<longleftrightarrow> i \<notin> key ` set xs"
  by (induction xs) auto

lemma find_doc_in_set [doc_store]:
  "distinct (map key xs) \<Longrightarrow> d \<in> set xs \<Longrightarrow> find_doc key (key d) xs = Some d"
  by (induction xs) auto

lemma save_doc_same [simp, doc_store]: "find_doc key (key d) (save_doc key d xs) = Some d"
  by (induction xs) auto

lemma save_doc_same_key [simp, doc_store]:
  "key d = i \<Longrightarrow> find_doc key i (save_doc key d xs) = Some d"
  by (induction xs) auto

lemma save_doc_other [simp, doc_store]:
  "i \<noteq> key d \<Longrightarrow> find_doc key i (save_doc key d xs) = find_doc key i xs"
  by (induction xs) auto

lemma keys_save_doc [simp, doc_store]:
  "key ` set (save_doc key d xs) = insert (key d) (key ` set xs)"
  by (induction xs) auto

lemma distinct_save_doc [doc_store]:
  "distinct (map key xs) \<Longrightarrow> distinct (map key (save_doc key d xs))"
proof (induction xs)
  case Nil
  then show ?case by simp
next
  case (Cons x xs)
  then have "key x \<notin> key ` set (save_doc key d xs) \<or> key x = key d"
    by simp
  with Cons show ?case by auto
qed

lemma set_save_doc [doc_store]: "set (save_doc key d xs) \<subseteq> insert d (set xs)"
  by (induction xs) auto

lemma save_doc_mem_self [simp, doc_store]: "d \<in> set (save_doc key d xs)"
  by (induction xs) auto

lemma save_doc_keeps [doc_store]:
  "x \<in> set xs \<Longrightarrow> key x \<noteq> key d \<Longrightarrow> x \<in> set (save_doc key d xs)"
  by (induction xs) auto

lemma save_doc_mem_distinct [doc_store]:
  "distinct (map key xs) \<Longrightarrow> x \<in> set (save_doc key d xs) \<Longrightarrow>
   x = d \<or> (x \<in> set xs \<and> key x \<noteq> key d)"
proof (induction xs)
  case Nil
  then show ?case by simp
next
  case (Cons a xs)
  show ?case
  proof (cases "key a = key d")
    case True
    with Cons.prems have "x = d \<or> x \<in> set xs" by simp
    moreover have "key x \<noteq> key a" if "x \<in> set xs"
      using Cons.prems(1) that by (auto simp: image_iff)
    ultimately show ?thesis using True by auto
  next
    case False
    with Cons.prems have "x = a \<or> x \<in> set (save_doc key d xs)" by simp
    with False Cons show ?thesis by auto
  qed
qed

lemma find_save_replace [doc_store]:
  "distinct (map key xs) \<Longrightarrow> List.find P xs = Some x \<Longrightarrow> P x' \<Longrightarrow> key x' = key x \<Longrightarrow>
   List.find P (save_doc key x' xs) = Some x'"
proof (induction xs)
  case Nil
  then show ?case by simp
next
  case (Cons y ys)
  show ?case
  proof (cases "P y")
    case True
    with Cons.prems have "y = x" by simp
    with Cons.prems show ?thesis by simp
  next
    case False
    with Cons.prems have "List.find P ys = Some x" by simp
    then have "x \<in> set ys" by (auto dest: find_SomeD')
    with Cons.prems have "key y \<noteq> key x'" by auto
    with False Cons show ?thesis by simp
  qed
qed

lemma length_filter_unique [doc_store]:
  assumes "distinct (map key xs)" "\<forall>u \<in> set xs. \<forall>v \<in> set xs. P u \<longrightarrow> P v \<longrightarrow> key u = key v"
    "x \<in> set xs" "P x"
  shows "length (filter P xs) = 1"
proof -
  have inj: "inj_on key (set xs)" using assms(1) by (simp add: distinct_map)
  have "set (filter P xs) = {x}"
    using assms(2-4) inj by (auto dest: inj_onD)
  moreover have "distinct (filter P xs)" using assms(1) by (simp add: distinct_map)
  then have "card (set (filter P xs)) = length (filter P xs)" by (rule distinct_card)
  ultimately show ?thesis by simp
qed

lemma save_doc_new [doc_store]:
  "key d \<notin> key ` set xs \<Longrightarrow> save_doc key d xs = xs @ [d]"
  by (induction xs) auto

lemma map_save_found [doc_store]:
  "find_doc key (key d) xs = Some d0 \<Longrightarrow> f d = f d0 \<Longrightarrow> map f (save_doc key d xs) = map f xs"
  by (induction xs) (auto split: if_splits)

lemma find_doc_delete [simp, doc_store]:
  "find_doc key j (delete_doc key i xs) = (if j = i then None else find_doc key j xs)"
  by (induction xs) (auto simp: delete_doc_def)

lemma distinct_delete_doc [doc_store]:
  "distinct (map key xs) \<Longrightarrow> distinct (map key (delete_doc key i xs))"
  by (simp add: delete_doc_def distinct_map_filter)

lemma remove_id_Nil [simp, doc_store]: "remove_id x [] = []"
  by (simp add: remove_id_def)

lemma remove_id_Cons [simp, doc_store]:
  "remove_id x (y # ys) = (if y = x then remove_id x ys else y # remove_id x ys)"
  by (simp add: remove_id_def)

lemma remove_id_set [simp, doc_store]: "set (remove_id x xs) = set xs - {x}"
  by (auto simp: remove_id_def)

lemma remove_id_distinct [doc_store]: "distinct xs \<Longrightarrow> distinct (remove_id x xs)"
  by (simp add: remove_id_def)

lemma remove_id_not_mem [simp, doc_store]: "x \<notin> set xs \<Longrightarrow> remove_id x xs = xs"
  by (induction xs) (auto simp: remove_id_def)

lemma remove_id_length [doc_store]:
  "distinct xs \<Longrightarrow> x \<in> set xs \<Longrightarrow> length (remove_id x xs) = length xs - 1"
proof (induction xs)
  case Nil
  then show ?case by simp
next
  case (Cons y ys)
  show ?case
  proof (cases "y = x")
    case True
    with Cons.prems have "x \<notin> set ys" by simp
    with True show ?thesis by simp
  next
    case False
    with Cons.prems have "x \<in> set ys" and "distinct ys" by auto
    with Cons.IH have "length (remove_id x ys) = length ys - 1" by simp
    moreover from \<open>x \<in> set ys\<close> have "ys \<noteq> []" by auto
    ultimately show ?thesis using False by simp
  qed
qed

lemma save_doc_found_self [doc_store]:
  "find_doc key (key x) xs = Some x \<Longrightarrow> save_doc key x xs = xs"
  by (induction xs) (auto split: if_splits)

lemma save_doc_twice [simp, doc_store]:
  "key a = key b \<Longrightarrow> save_doc key a (save_doc key b xs) = save_doc key a xs"
  by (induction xs) auto

lemma remove_id_snoc_fresh [doc_store]: "u \<notin> set xs \<Longrightarrow> remove_id u (xs @ [u]) = xs"
  by (induction xs) auto

lemma find_save_fun [doc_store]:
  "(\<lambda>i. find_doc key i (save_doc key x xs)) = (\<lambda>i. find_doc key i xs)(key x \<mapsto> x)"
  by (rule ext) simp

lemma js_trim_Nil [simp]: "js_trim [] = []"
  by (simp add: js_trim_def)

end
