(* ===== verification/Models.thy ===== *)
theory Models
  imports Prelude "HOL-Library.Multiset"
begin

text \<open>
  The persisted documents of \<open>src/models\<close> and \<open>src/event_backend-main/models\<close> as
  records, one per Mongoose schema, with the schema's field names; the database as one
  record of collections; the fresh-id allocator; and the well-formedness of the database
  (distinct \<open>_id\<close>s per collection, every id below the allocator) that every handler
  keeps. Schema validators that can make a \<open>save\<close> throw are written out where the
  handlers can trigger them.
\<close>

section \<open>Library primitives the handlers call\<close>

text \<open>
  \<open>bcrypt.hash\<close> and \<open>bcrypt.compare\<close> are taken as a perfect hash: a stored hash
  records the password it was made from, and \<open>compare\<close> succeeds exactly for it.
\<close>

datatype pwhash = Bcrypt string

fun bcrypt_compare :: "string \<Rightarrow> pwhash \<Rightarrow> bool" where
  "bcrypt_compare pw (Bcrypt h) = (pw = h)"

text \<open>
  \<open>jsonwebtoken\<close>: a token is either signed with the server's secret, carrying a payload
  and an expiry, or anything else. \<open>jwt.verify\<close> accepts a signed token strictly
  before its expiry and yields its payload. The payload fields are those the code reads:
  \<open>decoded.user.id\<close>, \<open>decoded._id\<close> and \<open>decoded.id\<close>.
\<close>

record jwt_payload =
  pl_user :: "oid option"
  pl_underscore_id :: "oid option"
  pl_id :: "oid option"

datatype token = Signed jwt_payload time | Unsigned string

fun jwt_verify :: "token \<Rightarrow> time \<Rightarrow> jwt_payload option" where
  "jwt_verify (Signed p expiry) now = (if now < expiry then Some p else None)"
| "jwt_verify (Unsigned s) now = None"

section \<open>Documents\<close>

text \<open>\<open>models/User.js\<close>. \<open>timestamps\<close> are not modelled for users.\<close>

record user =
  uid :: oid
  username :: "string option"
  email :: string
  password :: "pwhash option"
  profileImageUrl :: "string option"
  bio :: string
  interestedEvents :: "oid list"
  followers :: "oid list"
  following :: "oid list"
  otp :: "string option"
  otpExpires :: "time option"
  isVerified :: bool

text \<open>\<open>models/Post.js\<close>; \<open>createdAt\<close> stands for the schema's timestamps.\<close>

record post =
  pid :: oid
  author :: oid
  title :: string
  description :: string
  mediaUrls :: "string list"
  interestedCount :: int
  commentCount :: int
  isEvent :: bool
  eventDateTime :: "time option"
  location :: "string option"
  interestedUsers :: "oid list"
  attendedUsers :: "oid list"
  createdAt :: time

text \<open>\<open>models/Chat.js\<close>: one group chat per event post (\<open>postId\<close> is unique).\<close>

record chat =
  chat_id :: oid
  postId :: oid
  isGroupChat :: bool
  groupName :: string
  participants :: "oid list"
  lastMessage :: "oid option"

text \<open>\<open>models/Message.js\<close>: the \<open>type\<close> enum and the message itself.\<close>

datatype msg_type = MText | MImage | MVideo

record message =
  msg_id :: oid
  chat :: oid
  sender :: oid
  content :: "string option"
  mediaUrl :: "string option"
  mtype :: msg_type
  readBy :: "oid list"
  isEdited :: bool

text \<open>\<open>models/Notification.js\<close>.\<close>

datatype notif_type = PostLike | NewComment | FollowNotif | NewMessage | EventReminder

record notification =
  notif_id :: oid
  recipient :: oid
  nsender :: "oid option"
  ntype :: notif_type
  nmessage :: string
  relatedEntityId :: "oid option"
  isRead :: bool

text \<open>
  The \<open>Comment\<close> model is required by \<open>commentController.js\<close> but its file is not
  part of the sources; its fields are those the controller writes.
\<close>

record comment =
  comment_id :: oid
  ccontent :: string
  cpost :: oid
  cauthor :: oid

section \<open>The database\<close>

record db =
  users :: "user list"
  posts :: "post list"
  chats :: "chat list"
  messages :: "message list"
  notifications :: "notification list"
  comments :: "comment list"
  next_oid :: oid

text \<open>A new document's \<open>_id\<close>: the next unused id.\<close>

definition new_oid :: "db \<Rightarrow> oid \<times> db" where
  "new_oid d = (next_oid d, d\<lparr>next_oid := Suc (next_oid d)\<rparr>)"

text \<open>\<open>Model.findById\<close> and \<open>doc.save()\<close> for each collection.\<close>

abbreviation find_user :: "db \<Rightarrow> oid \<Rightarrow> user option" where
  "find_user d i \<equiv> find_doc uid i (users d)"

abbreviation save_user :: "user \<Rightarrow> db \<Rightarrow> db" where
  "save_user u d \<equiv> d\<lparr>users := save_doc uid u (users d)\<rparr>"

abbreviation find_post :: "db \<Rightarrow> oid \<Rightarrow> post option" where
  "find_post d i \<equiv> find_doc pid i (posts d)"

abbreviation save_post :: "post \<Rightarrow> db \<Rightarrow> db" where
  "save_post p d \<equiv> d\<lparr>posts := save_doc pid p (posts d)\<rparr>"

abbreviation find_chat :: "db \<Rightarrow> oid \<Rightarrow> chat option" where
  "find_chat d i \<equiv> find_doc chat_id i (chats d)"

abbreviation save_chat :: "chat \<Rightarrow> db \<Rightarrow> db" where
  "save_chat c d \<equiv> d\<lparr>chats := save_doc chat_id c (chats d)\<rparr>"

text \<open>\<open>Chat.findOne({ postId })\<close>: the first chat of the post.\<close>

definition chat_of_post :: "db \<Rightarrow> oid \<Rightarrow> chat option" where
  "chat_of_post d p = List.find (\<lambda>c. postId c = p) (chats d)"

section \<open>Well-formedness of the database\<close>

text \<open>
  Every \<open>_id\<close> of every collection, in one list. The database is well formed when
  these are pairwise distinct (ObjectIds are unique across collections, which matters
  because Socket.IO rooms are named by user ids and chat ids alike) and all below the
  allocator.
\<close>

definition all_ids :: "db \<Rightarrow> oid list" where
  "all_ids d = map uid (users d) @ map pid (posts d) @ map chat_id (chats d) @
     map msg_id (messages d) @ map notif_id (notifications d) @ map comment_id (comments d)"

definition db_wf :: "db \<Rightarrow> bool" where
  "db_wf d \<longleftrightarrow> distinct (all_ids d) \<and> (\<forall>i \<in> set (all_ids d). i < next_oid d)"

definition empty_db :: db where
  "empty_db = \<lparr>users = [], posts = [], chats = [], messages = [], notifications = [],
     comments = [], next_oid = 0\<rparr>"

section \<open>Lemmas on well-formedness\<close>

lemma db_wf_empty: "db_wf empty_db"
  by (simp add: db_wf_def empty_db_def all_ids_def)

lemma find_doc_key [doc_store]: "find_doc key i xs = Some x \<Longrightarrow> find_doc key (key x) xs = Some x"
  by (auto dest: find_doc_SomeD)

lemma map_key_save_found [doc_store]:
  "find_doc key (key d) xs = Some d0 \<Longrightarrow> map key (save_doc key d xs) = map key xs"
  by (induction xs) (auto split: if_splits)

text \<open>Saving a document fetched from its collection leaves the ids as they were.\<close>

lemma all_ids_save_user [simp, doc_store]:
  "find_user d (uid u) = Some u0 \<Longrightarrow> all_ids (save_user u d) = all_ids d"
  by (simp add: all_ids_def map_key_save_found)

lemma all_ids_save_post [simp, doc_store]:
  "find_post d (pid p) = Some p0 \<Longrightarrow> all_ids (save_post p d) = all_ids d"
  by (simp add: all_ids_def map_key_save_found)

lemma all_ids_save_chat [simp, doc_store]:
  "find_chat d (chat_id c) = Some c0 \<Longrightarrow> all_ids (save_chat c d) = all_ids d"
  by (simp add: all_ids_def map_key_save_found)

lemma db_wf_same_ids [doc_store]:
  "db_wf d \<Longrightarrow> all_ids d' = all_ids d \<Longrightarrow> next_oid d' = next_oid d \<Longrightarrow> db_wf d'"
  by (simp add: db_wf_def)

text \<open>Inserting one fresh document: the ids grow by exactly the allocated one.\<close>

lemma db_wf_grow [doc_store]:
  assumes "db_wf d" "mset (all_ids d') = add_mset (next_oid d) (mset (all_ids d))"
    "next_oid d' = Suc (next_oid d)"
  shows "db_wf d'"
proof -
  have fresh: "next_oid d \<notin> set (all_ids d)" using assms(1) by (auto simp: db_wf_def)
  have "mset (all_ids d') = mset (next_oid d # all_ids d)" using assms(2) by simp
  then have "distinct (all_ids d') = distinct (next_oid d # all_ids d)"
    and "set (all_ids d') = set (next_oid d # all_ids d)"
    by (metis mset_eq_imp_distinct_iff, metis set_mset_mset)
  with assms(1,3) fresh show ?thesis by (auto simp: db_wf_def)
qed

lemma db_wf_fresh [doc_store]: "db_wf d \<Longrightarrow> next_oid d \<notin> set (all_ids d)"
  by (auto simp: db_wf_def)

lemma db_wf_distinct_users [doc_store]: "db_wf d \<Longrightarrow> distinct (map uid (users d))"
  by (simp add: db_wf_def all_ids_def)

lemma db_wf_distinct_posts [doc_store]: "db_wf d \<Longrightarrow> distinct (map pid (posts d))"
  by (simp add: db_wf_def all_ids_def)

lemma db_wf_distinct_chats [doc_store]: "db_wf d \<Longrightarrow> distinct (map chat_id (chats d))"
  by (simp add: db_wf_def all_ids_def)

lemma db_wf_chat_below [doc_store]: "db_wf d \<Longrightarrow> c \<in> set (chats d) \<Longrightarrow> chat_id c < next_oid d"
  by (simp add: db_wf_def all_ids_def)

lemma db_wf_user_below [doc_store]: "db_wf d \<Longrightarrow> find_user d u = Some x \<Longrightarrow> u < next_oid d"
  by (auto simp: db_wf_def all_ids_def dest!: find_doc_SomeD)

lemma db_wf_user_not_chat [doc_store]:
  "db_wf d \<Longrightarrow> find_user d u = Some x \<Longrightarrow> c \<in> set (chats d) \<Longrightarrow> chat_id c \<noteq> u"
  by (force simp: db_wf_def all_ids_def dest: find_doc_SomeD)

end
