(* ===== verification/Auth.thy ===== *)
theory Auth
  imports Models
begin

text \<open>
  The auth service: \<open>src/controllers/authController.js\<close> (the controller mounted by
  \<open>routes/authRoutes.js\<close>) and the \<open>protect\<close> middleware of
  \<open>src/event_backend-main/middleware/authMiddleware.js\<close>. Registration is a two-step
  protocol: \<open>registerUser\<close> stores a one-time code on a (possibly new) unverified user,
  \<open>verifyOtpAndRegister\<close> checks it and promotes the user. The random code and the clock
  are inputs of the handlers. Emails pass through the schema's \<open>lowercase\<close> and
  \<open>trim\<close> setters, on writes and on query filters alike; usernames through \<open>trim\<close>.
\<close>

section \<open>String helpers of the schema and the handlers\<close>

definition js_lower_char :: "char \<Rightarrow> char" where
  "js_lower_char c =
     (case map_of (zip ''ABCDEFGHIJKLMNOPQRSTUVWXYZ'' ''abcdefghijklmnopqrstuvwxyz'') c of
        Some l \<Rightarrow> l | None \<Rightarrow> c)"

definition norm_email :: "string \<Rightarrow> string" where
  "norm_email e = map js_lower_char (js_trim e)"

text \<open>\<open>n.toString()\<close> of a natural number.\<close>

definition digit_char :: "nat \<Rightarrow> char" where
  "digit_char n = ''0123456789'' ! n"

fun dec_string :: "nat \<Rightarrow> string" where
  "dec_string n =
     (if n < 10 then [digit_char n] else dec_string (n div 10) @ [digit_char (n mod 10)])"

declare dec_string.simps [simp del]

section \<open>Tokens\<close>

text \<open>
  \<open>generateToken\<close> (authController.js 7--13): a token signed with the server's secret,
  payload \<open>{ user: { id } }\<close>, expiring after 90 days (milliseconds).
\<close>

definition token_lifetime :: time where
  "token_lifetime = 90 * 24 * 60 * 60 * 1000"

definition generateToken :: "oid \<Rightarrow> time \<Rightarrow> token" where
  "generateToken u now =
     Signed \<lparr>pl_user = Some u, pl_underscore_id = None, pl_id = None\<rparr> (now + token_lifetime)"

section \<open>Registration and login\<close>

text \<open>\<open>User.findOne({ email })\<close> and \<open>User.findOne({ username })\<close>.\<close>

definition find_by_email :: "db \<Rightarrow> string \<Rightarrow> user option" where
  "find_by_email d e = List.find (\<lambda>u. email u = norm_email e) (users d)"

definition find_by_username :: "db \<Rightarrow> string \<Rightarrow> user option" where
  "find_by_username d n = List.find (\<lambda>u. username u = Some (js_trim n)) (users d)"

text \<open>The OTP lifetime: ten minutes.\<close>

definition otp_lifetime :: time where
  "otp_lifetime = 10 * 60 * 1000"

text \<open>\<open>new User({ email, otp, otpExpires, userType })\<close>: \<open>userType\<close> is not a field of
  the schema and is dropped; the other fields take their defaults.\<close>

definition new_user :: "oid \<Rightarrow> string \<Rightarrow> string \<Rightarrow> time \<Rightarrow> user" where
  "new_user i e code expires =
     \<lparr>uid = i, username = None, email = norm_email e, password = None, profileImageUrl = None,
      bio = [], interestedEvents = [], followers = [], following = [], otp = Some code,
      otpExpires = Some expires, isVerified = False\<rparr>"

text \<open>
  authController.js 16--65. \<open>r\<close> is the value of \<open>crypto.randomInt(100000, 999999)\<close>.
  An existing verified account refuses; an unverified one gets the new code (replacing any
  pending code); otherwise a user is created. Sending the email is not modelled.
\<close>

definition registerUser :: "db \<Rightarrow> string option \<Rightarrow> nat \<Rightarrow> time \<Rightarrow> db \<times> unit result" where
  "registerUser d em r now =
     (case em of
        None \<Rightarrow> (d, Inl (HttpErr 400 ''Please provide an email''))
      | Some e \<Rightarrow>
          if e = [] then (d, Inl (HttpErr 400 ''Please provide an email''))
          else
            (let code = dec_string r; expires = now + otp_lifetime in
             case find_by_email d e of
               Some u \<Rightarrow>
                 if isVerified u then (d, Inl (HttpErr 400 ''User with this email already exists''))
                 else (save_user (u\<lparr>otp := Some code, otpExpires := Some expires\<rparr>) d, Inr ())
             | None \<Rightarrow>
                 (let (i, d0) = new_oid d in (save_user (new_user i e code expires) d0, Inr ()))))"

text \<open>\<open>user.otp !== otp || user.otpExpires < Date.now()\<close>; an absent expiry compares false.\<close>

definition otp_rejected :: "user \<Rightarrow> string \<Rightarrow> time \<Rightarrow> bool" where
  "otp_rejected u code now \<longleftrightarrow>
     otp u \<noteq> Some code \<or> (case otpExpires u of None \<Rightarrow> False | Some t \<Rightarrow> t < now)"

text \<open>
  authController.js 68--114. Missing fields and an unknown user type are refused first.
  A wrong or expired code is cleared before the refusal (the write is kept). A taken
  username is refused after the code check and leaves the code in place. On success the
  user is verified with its hashed password and username, the code is cleared, and a
  token is issued.
\<close>

definition verifyOtpAndRegister ::
  "db \<Rightarrow> string option \<Rightarrow> string option \<Rightarrow> string option \<Rightarrow> string option \<Rightarrow> string option \<Rightarrow>
   time \<Rightarrow> db \<times> (token \<times> user) result" where
  "verifyOtpAndRegister d em code un pw ut now =
     (if str_falsy em \<or> str_falsy code \<or> str_falsy un \<or> str_falsy pw \<or> str_falsy ut
      then (d, Inl (HttpErr 400 ''Please provide email, OTP, username, password, and user type''))
      else if ut \<notin> {Some ''personal'', Some ''corporate''}
      then (d, Inl (HttpErr 400 ''Invalid user type. Must be personal or corporate.''))
      else
        (case find_by_email d (the em) of
           None \<Rightarrow> (d, Inl (HttpErr 400 ''Invalid email or user already verified.''))
         | Some u \<Rightarrow>
             if isVerified u then (d, Inl (HttpErr 400 ''Invalid email or user already verified.''))
             else if otp_rejected u (the code) now
             then (save_user (u\<lparr>otp := None, otpExpires := None\<rparr>) d,
                   Inl (HttpErr 400 ''Invalid or expired OTP.''))
             else if find_by_username d (the un) \<noteq> None
             then (d, Inl (HttpErr 400 ''Username already taken.''))
             else
               (let u' = u\<lparr>username := Some (js_trim (the un)), password := Some (Bcrypt (the pw)),
                           isVerified := True, otp := None, otpExpires := None\<rparr>
                in (save_user u' d, Inr (generateToken (uid u) now, u')))))"

text \<open>authController.js 117--150.\<close>

definition loginUser :: "db \<Rightarrow> string option \<Rightarrow> string option \<Rightarrow> time \<Rightarrow> (token \<times> user) result" where
  "loginUser d em pw now =
     (if str_falsy em \<or> str_falsy pw
      then Inl (HttpErr 400 ''Please provide email and password'')
      else
        (case find_by_email d (the em) of
           None \<Rightarrow> Inl (HttpErr 404 ''Invalid credentials'')
         | Some u \<Rightarrow>
             if \<not> isVerified u then Inl (HttpErr 403 ''Please verify your email address first.'')
             else
               (case password u of
                  None \<Rightarrow> Inl (HttpErr 500 ''User password not found in DB. Possible schema/config issue.'')
                | Some h \<Rightarrow>
                    if \<not> bcrypt_compare (the pw) h then Inl (HttpErr 400 ''Invalid credentials'')
                    else Inr (generateToken (uid u) now, u))))"

text \<open>authController.js 153--166.\<close>

definition getAuthUser :: "db \<Rightarrow> oid \<Rightarrow> user result" where
  "getAuthUser d i =
     (case find_user d i of None \<Rightarrow> Inl (HttpErr 404 ''User not found'') | Some u \<Rightarrow> Inr u)"

section \<open>The protect middleware\<close>

text \<open>\<open>String.prototype.split(' ')\<close>.\<close>

fun split_space :: "string \<Rightarrow> string list" where
  "split_space [] = [[]]"
| "split_space (c # cs) =
     (if c = CHR '' '' then [] # split_space cs
      else (case split_space cs of w # ws \<Rightarrow> (c # w) # ws | [] \<Rightarrow> [[c]]))"

definition nth_opt :: "'a list \<Rightarrow> nat \<Rightarrow> 'a option" where
  "nth_opt xs i = (if i < length xs then Some (xs ! i) else None)"

text \<open>
  authMiddleware.js 3--33. The token is the second space-separated word of a
  \<open>Bearer\<close> authorization header, or else the \<open>x-auth-token\<close> header. \<open>verify\<close> is
  \<open>jwt.verify\<close> with the server's secret on a token string; the user id is the first of
  \<open>decoded.user.id\<close>, \<open>decoded._id\<close>, \<open>decoded.id\<close> present.
\<close>

definition extract_token :: "string option \<Rightarrow> string option \<Rightarrow> string option" where
  "extract_token authz xauth =
     (case authz of
        Some h \<Rightarrow> if take 7 h = ''Bearer '' then nth_opt (split_space h) 1 else xauth
      | None \<Rightarrow> xauth)"

definition payload_user :: "jwt_payload \<Rightarrow> oid option" where
  "payload_user pl =
     (case pl_user pl of Some i \<Rightarrow> Some i
      | None \<Rightarrow> (case pl_underscore_id pl of Some i \<Rightarrow> Some i | None \<Rightarrow> pl_id pl))"

definition protect ::
  "(string \<Rightarrow> jwt_payload option) \<Rightarrow> string option \<Rightarrow> string option \<Rightarrow> oid result" where
  "protect verify authz xauth =
     (let tok = extract_token authz xauth in
      if str_falsy tok then Inl (HttpErr 401 ''No token, authorization denied'')
      else
        (case verify (the tok) of
           None \<Rightarrow> Inl (HttpErr 401 ''Token is not valid or expired'')
         | Some pl \<Rightarrow>
             (case payload_user pl of
                None \<Rightarrow> Inl (HttpErr 401 ''Invalid token payload'')
              | Some i \<Rightarrow> Inr i)))"

section \<open>The registration invariant\<close>

text \<open>
  A verified user has no pending code, a password and a username; an unverified one has no
  username yet. Emails are unique (the schema's \<open>unique\<close> index), and so are the usernames
  that are set.
\<close>

definition verified_ok :: "user \<Rightarrow> bool" where
  "verified_ok u \<longleftrightarrow>
     (if isVerified u then otp u = None \<and> otpExpires u = None \<and> password u \<noteq> None \<and> username u \<noteq> None
      else username u = None)"

definition emails_unique :: "db \<Rightarrow> bool" where
  "emails_unique d \<longleftrightarrow>
     (\<forall>u \<in> set (users d). \<forall>v \<in> set (users d). email u = email v \<longrightarrow> uid u = uid v)"

definition usernames_unique :: "db \<Rightarrow> bool" where
  "usernames_unique d \<longleftrightarrow>
     (\<forall>u \<in> set (users d). \<forall>v \<in> set (users d).
        username u = username v \<longrightarrow> username u \<noteq> None \<longrightarrow> uid u = uid v)"

definition auth_inv :: "db \<Rightarrow> bool" where
  "auth_inv d \<longleftrightarrow> db_wf d \<and> emails_unique d \<and> usernames_unique d \<and> (\<forall>u \<in> set (users d). verified_ok u)"

text \<open>The states reachable from the empty database by registration requests and
  confirmations, in any order and with any inputs.\<close>

inductive auth_reach :: "db \<Rightarrow> bool" where
  start: "auth_reach empty_db"
| register: "auth_reach d \<Longrightarrow> registerUser d em r now = (d', x) \<Longrightarrow> auth_reach d'"
| verify: "auth_reach d \<Longrightarrow> verifyOtpAndRegister d em c un pw ut now = (d', y) \<Longrightarrow> auth_reach d'"


section \<open>Lemmas\<close>

lemma dec_string_length:
  "10 ^ k \<le> n \<Longrightarrow> n < 10 ^ Suc k \<Longrightarrow> length (dec_string n) = Suc k"
proof (induction k arbitrary: n)
  case 0
  then show ?case by (simp add: dec_string.simps)
next
  case (Suc k)
  have "(10::nat) \<le> 10 ^ Suc k" by simp
  with Suc.prems have "\<not> n < 10" by linarith
  moreover have "10 ^ Suc k div 10 \<le> n div 10"
    using Suc.prems(1) by (rule div_le_mono)
  then have "10 ^ k \<le> n div 10" by simp
  moreover have "n div 10 < 10 ^ Suc k"
    using Suc.prems(2) by (simp add: div_less_iff_less_mult mult.commute)
  ultimately show ?case using Suc.IH by (simp add: dec_string.simps [of n])
qed


lemma emails_uniqueD:
  "emails_unique d \<Longrightarrow> u \<in> set (users d) \<Longrightarrow> v \<in> set (users d) \<Longrightarrow> email u = email v \<Longrightarrow>
   uid u = uid v"
  unfolding emails_unique_def by blast

lemma usernames_uniqueD:
  "usernames_unique d \<Longrightarrow> u \<in> set (users d) \<Longrightarrow> v \<in> set (users d) \<Longrightarrow> username u = username v \<Longrightarrow>
   username u \<noteq> None \<Longrightarrow> uid u = uid v"
  unfolding usernames_unique_def by blast

text \<open>Replacing a user by one with the same id and email, and either its old username or one no
  user has, keeps the invariant.\<close>

lemma save_user_inv:
  assumes inv: "auth_inv d" and mem: "u \<in> set (users d)" and same: "uid u' = uid u" "email u' = email u"
    and un: "username u' = username u \<or> (\<forall>v \<in> set (users d). username v \<noteq> username u')"
    and ok: "verified_ok u'"
  shows "auth_inv (save_user u' d)"
proof -
  have wf: "db_wf d" and eu: "emails_unique d" and nu: "usernames_unique d"
    and vo: "\<forall>x \<in> set (users d). verified_ok x"
    using inv by (simp_all add: auth_inv_def)
  have du: "distinct (map uid (users d))" using wf by (rule db_wf_distinct_users)
  have "find_user d (uid u) = Some u" using du mem by (rule find_doc_in_set)
  then have "find_user d (uid u') = Some u" using same(1) by simp
  then have "all_ids (save_user u' d) = all_ids d" by (rule all_ids_save_user)
  with wf have wf': "db_wf (save_user u' d)" by (rule db_wf_same_ids) simp
  have memb: "x = u' \<or> (x \<in> set (users d) \<and> uid x \<noteq> uid u)"
    if "x \<in> set (users (save_user u' d))" for x
    using save_doc_mem_distinct [OF du, of x u'] that same(1) by simp
  have "emails_unique (save_user u' d)"
    unfolding emails_unique_def
  proof (intro ballI impI)
    fix x v assume x: "x \<in> set (users (save_user u' d))" and v: "v \<in> set (users (save_user u' d))"
      and e: "email x = email v"
    consider "x = u'" "v = u'" | "x = u'" "v \<in> set (users d)" | "x \<in> set (users d)" "v = u'"
      | "x \<in> set (users d)" "v \<in> set (users d)"
      using memb [OF x] memb [OF v] by blast
    then show "uid x = uid v"
    proof cases
      case 1 then show ?thesis by simp
    next
      case 2 then show ?thesis using emails_uniqueD [OF eu mem, of v] e same by simp
    next
      case 3 then show ?thesis using emails_uniqueD [OF eu mem, of x] e same by simp
    next
      case 4 then show ?thesis using emails_uniqueD [OF eu] e by blast
    qed
  qed
  moreover have "usernames_unique (save_user u' d)"
    unfolding usernames_unique_def
  proof (intro ballI impI)
    fix x v assume x: "x \<in> set (users (save_user u' d))" and v: "v \<in> set (users (save_user u' d))"
      and e: "username x = username v" and nn: "username x \<noteq> None"
    consider "x = u'" "v = u'" | "x = u'" "v \<in> set (users d)" "uid v \<noteq> uid u"
      | "x \<in> set (users d)" "uid x \<noteq> uid u" "v = u'" | "x \<in> set (users d)" "v \<in> set (users d)"
      using memb [OF x] memb [OF v] by blast
    then show "uid x = uid v"
    proof cases
      case 1 then show ?thesis by simp
    next
      case 2
      with un e have "username u' = username u" by auto
      then show ?thesis using usernames_uniqueD [OF nu mem 2(2)] 2 e nn same by simp
    next
      case 3
      with un e have "username u' = username u" by auto
      then show ?thesis using usernames_uniqueD [OF nu mem 3(1)] 3 e nn same by simp
    next
      case 4 then show ?thesis using usernames_uniqueD [OF nu] e nn by blast
    qed
  qed
  moreover have "\<forall>x \<in> set (users (save_user u' d)). verified_ok x"
    using memb vo ok by blast
  ultimately show ?thesis using wf' by (simp add: auth_inv_def)
qed

lemma auth_inv_insert_user:
  assumes inv: "auth_inv d" and fresh: "uid u = next_oid d" and em: "email u \<notin> email ` set (users d)"
    and un: "username u = None" and ok: "verified_ok u"
  shows "auth_inv (save_user u (d\<lparr>next_oid := Suc (next_oid d)\<rparr>))"
proof -
  let ?d = "save_user u (d\<lparr>next_oid := Suc (next_oid d)\<rparr>)"
  have wf: "db_wf d" and eu: "emails_unique d" and nu: "usernames_unique d"
    and vo: "\<forall>x \<in> set (users d). verified_ok x"
    using inv by (simp_all add: auth_inv_def)
  have "next_oid d \<notin> set (all_ids d)" using wf by (rule db_wf_fresh)
  then have "uid u \<notin> uid ` set (users d)" using fresh by (auto simp: all_ids_def)
  then have app: "users ?d = users d @ [u]" by (simp add: save_doc_new)
  then have "mset (all_ids ?d) = add_mset (next_oid d) (mset (all_ids d))"
    using fresh by (simp add: all_ids_def)
  with wf have wf': "db_wf ?d" by (rule db_wf_grow) simp
  have "emails_unique ?d"
    unfolding emails_unique_def app
  proof (intro ballI impI)
    fix x v assume x: "x \<in> set (users d @ [u])" and v: "v \<in> set (users d @ [u])"
      and e: "email x = email v"
    have "email y \<noteq> email u" if "y \<in> set (users d)" for y using em that by (metis image_eqI)
    with x v e show "uid x = uid v" using emails_uniqueD [OF eu, of x v] by fastforce
  qed
  moreover have "usernames_unique ?d"
    unfolding usernames_unique_def app
  proof (intro ballI impI)
    fix x v assume x: "x \<in> set (users d @ [u])" and v: "v \<in> set (users d @ [u])"
      and e: "username x = username v" and nn: "username x \<noteq> None"
    then have "x \<noteq> u" "v \<noteq> u" using un by auto
    with x v e nn show "uid x = uid v" using usernames_uniqueD [OF nu, of x v] by simp
  qed
  moreover have "\<forall>x \<in> set (users ?d). verified_ok x" using vo ok app by simp
  ultimately show ?thesis using wf' by (simp add: auth_inv_def)
qed

lemma registerUser_inv:
  assumes "auth_inv d" "registerUser d em r now = (d', x)"
  shows "auth_inv d'"
proof (cases "\<exists>e. em = Some e \<and> e \<noteq> []")
  case False
  with assms show ?thesis by (auto simp: registerUser_def split: option.splits)
next
  case True
  then obtain e where e: "em = Some e" "e \<noteq> []" by blast
  show ?thesis
  proof (cases "find_by_email d e")
    case None
    then have "norm_email e \<notin> email ` set (users d)"
      by (auto simp: find_by_email_def find_None_iff)
    then have "auth_inv (save_user (new_user (next_oid d) e (dec_string r) (now + otp_lifetime))
                 (d\<lparr>next_oid := Suc (next_oid d)\<rparr>))"
      using assms(1) by (intro auth_inv_insert_user) (simp_all add: new_user_def verified_ok_def)
    with assms(2) e None show ?thesis by (simp add: registerUser_def new_oid_def)
  next
    case (Some u)
    then have u: "u \<in> set (users d)" by (auto simp: find_by_email_def dest: find_SomeD')
    with assms(1) have "verified_ok u" by (simp add: auth_inv_def)
    then have "\<not> isVerified u \<Longrightarrow> auth_inv (save_user (u\<lparr>otp := Some (dec_string r),
                 otpExpires := Some (now + otp_lifetime)\<rparr>) d)"
      by (intro save_user_inv [OF assms(1) u]) (simp_all add: verified_ok_def)
    with assms e Some show ?thesis by (auto simp: registerUser_def split: if_splits)
  qed
qed

text \<open>\<open>verifyOtpAndRegister\<close> once its input checks have passed and the email names an
  unverified user.\<close>

lemma verify_unverified:
  assumes "\<not> (str_falsy em \<or> str_falsy c \<or> str_falsy un \<or> str_falsy pw \<or> str_falsy ut)"
    "ut \<in> {Some ''personal'', Some ''corporate''}"
    "find_by_email d (the em) = Some u" "\<not> isVerified u"
  shows "verifyOtpAndRegister d em c un pw ut now =
    (if otp_rejected u (the c) now
     then (save_user (u\<lparr>otp := None, otpExpires := None\<rparr>) d, Inl (HttpErr 400 ''Invalid or expired OTP.''))
     else if find_by_username d (the un) \<noteq> None
     then (d, Inl (HttpErr 400 ''Username already taken.''))
     else (save_user (u\<lparr>username := Some (js_trim (the un)), password := Some (Bcrypt (the pw)),
                         isVerified := True, otp := None, otpExpires := None\<rparr>) d,
           Inr (generateToken (uid u) now, u\<lparr>username := Some (js_trim (the un)),
             password := Some (Bcrypt (the pw)), isVerified := True, otp := None, otpExpires := None\<rparr>)))"
proof -
  from assms(2) have "ut = Some ''personal'' \<or> ut = Some ''corporate''" by simp
  then show ?thesis
    using assms(1,3,4) by (elim disjE) (simp_all add: verifyOtpAndRegister_def Let_def)
qed

lemma verify_inv:
  assumes inv: "auth_inv d" and run: "verifyOtpAndRegister d em c un pw ut now = (d', y)"
  shows "auth_inv d'"
proof (cases "\<exists>u. find_by_email d (the em) = Some u \<and> \<not> isVerified u \<and>
              \<not> (str_falsy em \<or> str_falsy c \<or> str_falsy un \<or> str_falsy pw \<or> str_falsy ut) \<and>
              ut \<in> {Some ''personal'', Some ''corporate''}")
  case False
  then have "d' = d" using run
    by (auto simp: verifyOtpAndRegister_def split: option.splits if_splits)
  with inv show ?thesis by simp
next
  case True
  then obtain u where u: "find_by_email d (the em) = Some u" "\<not> isVerified u"
    and ok: "\<not> (str_falsy em \<or> str_falsy c \<or> str_falsy un \<or> str_falsy pw \<or> str_falsy ut)"
      "ut \<in> {Some ''personal'', Some ''corporate''}" by blast
  note run' = run [unfolded verify_unverified [OF ok u]]
  have mem: "u \<in> set (users d)" using u by (auto simp: find_by_email_def dest: find_SomeD')
  with inv u(2) have un0: "username u = None" by (simp add: auth_inv_def verified_ok_def)
  show ?thesis
  proof (cases "otp_rejected u (the c) now")
    case True
    have "auth_inv (save_user (u\<lparr>otp := None, otpExpires := None\<rparr>) d)"
      using u(2) un0 by (intro save_user_inv [OF inv mem]) (simp_all add: verified_ok_def)
    with run' True show ?thesis by simp
  next
    case False
    show ?thesis
    proof (cases "find_by_username d (the un)")
      case (Some v)
      with run' False inv show ?thesis by simp
    next
      case None
      then have "\<forall>v \<in> set (users d). username v \<noteq> Some (js_trim (the un))"
        by (auto simp: find_by_username_def find_None_iff)
      then have "auth_inv (save_user (u\<lparr>username := Some (js_trim (the un)), password := Some (Bcrypt (the pw)),
                         isVerified := True, otp := None, otpExpires := None\<rparr>) d)"
        by (intro save_user_inv [OF inv mem]) (simp_all add: verified_ok_def)
      with run' False None show ?thesis by simp
    qed
  qed
qed

lemma dec_string_digits: "set (dec_string n) \<subseteq> set ''0123456789''"
proof (induction n rule: dec_string.induct)
  case (1 n)
  have "digit_char k \<in> set ''0123456789''" if "k < 10" for k
    unfolding digit_char_def by (rule nth_mem) (use that in simp)
  with 1 show ?case by (simp add: dec_string.simps [of n])
qed

lemma find_by_email_save:
  assumes "db_wf d" "find_by_email d e = Some u" "uid u' = uid u" "email u' = email u"
  shows "find_by_email (save_user u' d) e = Some u'"
proof -
  have "email u = norm_email e" using assms(2) by (auto simp: find_by_email_def dest: find_SomeD')
  with assms show ?thesis unfolding find_by_email_def
    by (simp add: find_save_replace db_wf_distinct_users)
qed

lemma find_by_email_new:
  assumes "find_by_email d e = None" "uid u \<notin> uid ` set (users d)" "email u = norm_email e"
  shows "find_by_email (save_user u d) e = Some u"
  using assms by (simp add: find_by_email_def save_doc_new find_append)

lemma find_by_email_mem: "find_by_email d e = Some u \<Longrightarrow> u \<in> set (users d) \<and> email u = norm_email e"
  by (auto simp: find_by_email_def dest: find_SomeD')

text \<open>A successful registration request leaves exactly one pending user for the email, holding
  the new code.\<close>

lemma register_pending:
  assumes inv: "auth_inv d" and run: "registerUser d (Some e) r now = (d1, Inr ())"
  shows "\<exists>u. find_by_email d1 e = Some u \<and> \<not> isVerified u \<and> otp u = Some (dec_string r) \<and>
           otpExpires u = Some (now + otp_lifetime)"
proof (cases "find_by_email d e")
  case None
  let ?u = "new_user (next_oid d) e (dec_string r) (now + otp_lifetime)"
  have wf: "db_wf d" using inv by (simp add: auth_inv_def)
  then have "uid ?u \<notin> uid ` set (users d)"
    using db_wf_fresh [OF wf] by (auto simp: new_user_def all_ids_def)
  then have "find_by_email (save_user ?u (d\<lparr>next_oid := Suc (next_oid d)\<rparr>)) e = Some ?u"
    using None by (intro find_by_email_new) (simp_all add: new_user_def find_by_email_def)
  moreover have "d1 = save_user ?u (d\<lparr>next_oid := Suc (next_oid d)\<rparr>)"
    using run None by (auto simp: registerUser_def new_oid_def split: if_splits)
  ultimately show ?thesis by (simp add: new_user_def)
next
  case (Some u)
  let ?u = "u\<lparr>otp := Some (dec_string r), otpExpires := Some (now + otp_lifetime)\<rparr>"
  have "\<not> isVerified u" "d1 = save_user ?u d"
    using run Some by (auto simp: registerUser_def split: if_splits)
  moreover have "find_by_email (save_user ?u d) e = Some ?u"
    using inv Some by (intro find_by_email_save) (simp_all add: auth_inv_def)
  ultimately show ?thesis by simp
qed

lemma dec_string_nonempty [simp]: "dec_string n \<noteq> []"
  by (simp add: dec_string.simps [of n])

lemma register_email_nonempty: "registerUser d (Some e) r now = (d1, Inr ()) \<Longrightarrow> e \<noteq> []"
  by (auto simp: registerUser_def)

lemma split_space_word: "CHR '' '' \<notin> set t \<Longrightarrow> split_space t = [t]"
  by (induction t) auto

text \<open>The only way \<open>verifyOtpAndRegister\<close> answers ``Invalid or expired OTP'': the input checks
  passed, the email names an unverified user, and the code was rejected.\<close>

lemma verify_otp_refused:
  assumes "verifyOtpAndRegister d em c un pw ut now = (d1, Inl (HttpErr 400 ''Invalid or expired OTP.''))"
  obtains u where "\<not> (str_falsy em \<or> str_falsy c \<or> str_falsy un \<or> str_falsy pw \<or> str_falsy ut)"
    "ut \<in> {Some ''personal'', Some ''corporate''}" "find_by_email d (the em) = Some u" "\<not> isVerified u"
    "otp_rejected u (the c) now" "d1 = save_user (u\<lparr>otp := None, otpExpires := None\<rparr>) d"
proof -
  have "\<exists>u. \<not> (str_falsy em \<or> str_falsy c \<or> str_falsy un \<or> str_falsy pw \<or> str_falsy ut) \<and>
    ut \<in> {Some ''personal'', Some ''corporate''} \<and> find_by_email d (the em) = Some u \<and> \<not> isVerified u"
    using assms by (auto simp: verifyOtpAndRegister_def split: option.splits if_splits)
  then obtain u where g: "\<not> (str_falsy em \<or> str_falsy c \<or> str_falsy un \<or> str_falsy pw \<or> str_falsy ut)"
    "ut \<in> {Some ''personal'', Some ''corporate''}" "find_by_email d (the em) = Some u" "\<not> isVerified u"
    by blast
  from assms [unfolded verify_unverified [OF g]] have
    "otp_rejected u (the c) now" "d1 = save_user (u\<lparr>otp := None, otpExpires := None\<rparr>) d"
    by (auto split: if_splits)
  with g that show ?thesis by blast
qed

lemma auth_inv_empty: "auth_inv empty_db"
  using db_wf_empty by (simp add: auth_inv_def emails_unique_def usernames_unique_def empty_db_def)

section \<open>Properties of the auth service\<close>

text \<open>C10. A confirmation refused for a wrong or expired code clears the pending code, so the next
  confirmation for the same email fails whatever code it carries, the correct one included.\<close>

theorem wrong_code_burns_otp:
  assumes inv: "auth_inv d"
    and v1: "verifyOtpAndRegister d em c un pw ut now = (d1, Inl (HttpErr 400 ''Invalid or expired OTP.''))"
    and v2: "verifyOtpAndRegister d1 em c' un' pw' ut' now' = (d2, y)"
  shows "\<exists>err. y = Inl err"
proof -
  obtain u where g: "find_by_email d (the em) = Some u" "\<not> isVerified u"
    and d1: "d1 = save_user (u\<lparr>otp := None, otpExpires := None\<rparr>) d"
    using v1 by (rule verify_otp_refused)
  have "find_by_email d1 (the em) = Some (u\<lparr>otp := None, otpExpires := None\<rparr>)"
    unfolding d1 using inv g(1) by (intro find_by_email_save) (simp_all add: auth_inv_def)
  with v2 g(2) show ?thesis
    by (auto simp: verifyOtpAndRegister_def otp_rejected_def split: if_splits)
qed

text \<open>C11. A second registration request for an email that is pending verification succeeds,
  creates no second account (the user count is unchanged and exactly one user has the email)
  and replaces the pending code by the new one.\<close>

theorem register_overwrites_pending:
  assumes inv: "auth_inv d"
    and r1: "registerUser d (Some e) r1 t1 = (d1, Inr ())"
    and r2: "registerUser d1 (Some e) r2 t2 = (d2, y)"
  shows "y = Inr () \<and> length (users d2) = length (users d1) \<and>
    length (filter (\<lambda>u. email u = norm_email e) (users d2)) = 1 \<and>
    (\<exists>u. find_by_email d2 e = Some u \<and> \<not> isVerified u \<and> otp u = Some (dec_string r2))"
proof -
  obtain u1 where u1: "find_by_email d1 e = Some u1" "\<not> isVerified u1"
    using register_pending [OF inv r1] by blast
  have inv1: "auth_inv d1" using inv r1 by (rule registerUser_inv)
  have inv2: "auth_inv d2" using inv1 r2 by (rule registerUser_inv)
  let ?u = "u1\<lparr>otp := Some (dec_string r2), otpExpires := Some (t2 + otp_lifetime)\<rparr>"
  have "e \<noteq> []" using r1 by (rule register_email_nonempty)
  then have d2: "d2 = save_user ?u d1" and y: "y = Inr ()"
    using r2 u1 by (simp_all add: registerUser_def)
  have wf1: "db_wf d1" using inv1 by (simp add: auth_inv_def)
  have found: "find_by_email d2 e = Some ?u"
    unfolding d2 using wf1 u1(1) by (rule find_by_email_save) simp_all
  have "find_user d1 (uid ?u) = Some u1"
    using find_by_email_mem [OF u1(1)] db_wf_distinct_users [OF wf1] by (simp add: find_doc_in_set)
  then have "map uid (users d2) = map uid (users d1)" unfolding d2 by (simp add: map_key_save_found)
  then have len: "length (users d2) = length (users d1)" by (metis length_map)
  have wf2: "db_wf d2" and eu: "emails_unique d2" using inv2 by (simp_all add: auth_inv_def)
  have "length (filter (\<lambda>u. email u = norm_email e) (users d2)) = 1"
    using find_by_email_mem [OF found]
    by (intro length_filter_unique [OF db_wf_distinct_users [OF wf2]]) (auto intro: emails_uniqueD [OF eu])
  with y len found u1(2) show ?thesis by auto
qed

text \<open>C12. Registration, confirmation with the mailed code before it expires and a free username,
  and login form a round trip: the confirmation returns a token for the now verified user, and
  logging in with the same email and password returns a token for that same user.\<close>

theorem register_verify_login:
  assumes inv: "auth_inv d"
    and r: "registerUser d (Some e) code t0 = (d1, Inr ())"
    and ok: "un \<noteq> []" "pw \<noteq> []" "ut \<in> {''personal'', ''corporate''}" "t1 \<le> t0 + otp_lifetime"
    and fresh: "find_by_username d1 un = None"
    and v: "verifyOtpAndRegister d1 (Some e) (Some (dec_string code)) (Some un) (Some pw) (Some ut) t1 = (d2, res)"
  shows "\<exists>u. res = Inr (generateToken (uid u) t1, u) \<and> isVerified u \<and> username u = Some (js_trim un) \<and>
      loginUser d2 (Some e) (Some pw) t2 = Inr (generateToken (uid u) t2, u)"
proof -
  obtain u1 where u1: "find_by_email d1 e = Some u1" "\<not> isVerified u1"
    "otp u1 = Some (dec_string code)" "otpExpires u1 = Some (t0 + otp_lifetime)"
    using register_pending [OF inv r] by blast
  have e: "e \<noteq> []" using r by (rule register_email_nonempty)
  let ?u = "u1\<lparr>username := Some (js_trim un), password := Some (Bcrypt pw),
              isVerified := True, otp := None, otpExpires := None\<rparr>"
  have g: "\<not> (str_falsy (Some e) \<or> str_falsy (Some (dec_string code)) \<or> str_falsy (Some un) \<or>
      str_falsy (Some pw) \<or> str_falsy (Some ut))" "Some ut \<in> {Some ''personal'', Some ''corporate''}"
    using e ok by auto
  have "\<not> otp_rejected u1 (dec_string code) t1" using u1(3,4) ok(4) by (simp add: otp_rejected_def)
  moreover have "find_by_email d1 (the (Some e)) = Some u1" using u1(1) by simp
  note run = v [unfolded verify_unverified [OF g this u1(2)]]
  ultimately have d2: "d2 = save_user ?u d1" and res: "res = Inr (generateToken (uid u1) t1, ?u)"
    using run fresh by simp_all
  have wf1: "db_wf d1" using registerUser_inv [OF inv r] by (simp add: auth_inv_def)
  have "find_by_email d2 e = Some ?u" unfolding d2 using wf1 u1(1) by (rule find_by_email_save) simp_all
  then have "loginUser d2 (Some e) (Some pw) t2 = Inr (generateToken (uid ?u) t2, ?u)"
    using e ok(2) by (simp add: loginUser_def)
  with res show ?thesis by auto
qed

text \<open>C13. In every state reachable from the empty database by registration requests and
  confirmations with arbitrary inputs, emails are unique, set usernames are unique, every
  verified user has a password and a username and no pending code, and the database is well formed.\<close>

theorem auth_reach_inv: "auth_reach d \<Longrightarrow> auth_inv d"
proof (induction rule: auth_reach.induct)
  case start
  show ?case by (rule auth_inv_empty)
next
  case (register d em r now d' x)
  then show ?case by (blast intro: registerUser_inv)
next
  case (verify d em c un pw ut now d' y)
  then show ?case by (blast intro: verify_inv)
qed

text \<open>C14. A user who has only requested registration cannot log in: login answers 403 whatever
  password is given.\<close>

theorem pending_user_cannot_login:
  assumes "auth_inv d" "registerUser d (Some e) r now = (d1, Inr ())" "pw \<noteq> []"
  shows "loginUser d1 (Some e) (Some pw) t = Inl (HttpErr 403 ''Please verify your email address first.'')"
proof -
  obtain u where "find_by_email d1 e = Some u" "\<not> isVerified u"
    using register_pending [OF assms(1,2)] by blast
  moreover have "e \<noteq> []" using assms(2) by (rule register_email_nonempty)
  ultimately show ?thesis using assms(3) by (simp add: loginUser_def)
qed


text \<open>C16. \<open>protect\<close> accepts a header \<open>Bearer <token>\<close> (a token without spaces) whose
  verification yields a payload with a user id, and passes that id on.\<close>

theorem protect_bearer_roundtrip:
  assumes "t \<noteq> []" "CHR '' '' \<notin> set t" "verify t = Some pl" "payload_user pl = Some i"
  shows "protect verify (Some (''Bearer '' @ t)) xa = Inr i"
proof -
  have "split_space (''Bearer '' @ t) = [''Bearer'', t]" using assms(2) by (simp add: split_space_word)
  then have "extract_token (Some (''Bearer '' @ t)) xa = Some t"
    by (simp add: extract_token_def nth_opt_def)
  with assms show ?thesis by (simp add: protect_def)
qed

end
