(* ===== verification/LegacyAuth.thy ===== *)
theory LegacyAuth
  imports Auth
begin

text \<open>
  \<open>src/event_backend-main/controllers/authController.js\<close>: an older copy of the auth
  controller, not mounted by \<open>routes/authRoutes.js\<close>. Its handlers are translated here as
  they stand, and compared with the mounted ones of \<^theory_text>\<open>Auth\<close>: registration, login and the
  profile read are the same functions; the confirmation is the mounted one with the user
  type fixed, since the older copy neither asks for nor validates it.
\<close>

section \<open>Handlers of the older copy\<close>

text \<open>Lines 17--65: as the mounted \<open>registerUser\<close>, creating the user without a \<open>userType\<close>.\<close>

definition legacy_registerUser :: "db \<Rightarrow> string option \<Rightarrow> nat \<Rightarrow> time \<Rightarrow> db \<times> unit result" where
  "legacy_registerUser d em r now =
     (case em of
        None \<Rightarrow> (d, Inl (HttpErr 400 ''Please provide an email''))
      | Some e \<Rightarrow>
          if e = [] then (d, Inl (HttpErr 400 ''Please provide an email''))
          else
            (let code = dec_string r; expires = now + otp_lifetime in
             case find_by_email d e of
               Some u \<Rightarrow>
                 if isVerified u then (d, Inl (HttpErr 400 ''User with this email already exists''))
                 else (save_user (u\<lparr>otp := Some code, otpExpires := Some expires\<rparr>) d, Inr ())
             | None \<Rightarrow>
                 (let (i, d0) = new_oid d in (save_user (new_user i e code expires) d0, Inr ()))))"

text \<open>Lines 68--107: no user type; otherwise the same checks in the same order.\<close>

definition legacy_verifyOtpAndRegister ::
  "db \<Rightarrow> string option \<Rightarrow> string option \<Rightarrow> string option \<Rightarrow> string option \<Rightarrow>
   time \<Rightarrow> db \<times> (token \<times> user) result" where
  "legacy_verifyOtpAndRegister d em code un pw now =
     (if str_falsy em \<or> str_falsy code \<or> str_falsy un \<or> str_falsy pw
      then (d, Inl (HttpErr 400 ''Please provide email, OTP, username, and password''))
      else
        (case find_by_email d (the em) of
           None \<Rightarrow> (d, Inl (HttpErr 400 ''Invalid email or user already verified.''))
         | Some u \<Rightarrow>
             if isVerified u then (d, Inl (HttpErr 400 ''Invalid email or user already verified.''))
             else if otp_rejected u (the code) now
             then (save_user (u\<lparr>otp := None, otpExpires := None\<rparr>) d,
                   Inl (HttpErr 400 ''Invalid or expired OTP.''))
             else if find_by_username d (the un) \<noteq> None
             then (d, Inl (HttpErr 400 ''Username already taken.''))
             else
               (let u' = u\<lparr>username := Some (js_trim (the un)), password := Some (Bcrypt (the pw)),
                           isVerified := True, otp := None, otpExpires := None\<rparr>
                in (save_user u' d, Inr (generateToken (uid u) now, u')))))"

text \<open>Lines 110--143.\<close>

definition legacy_loginUser :: "db \<Rightarrow> string option \<Rightarrow> string option \<Rightarrow> time \<Rightarrow> (token \<times> user) result" where
  "legacy_loginUser d em pw now =
     (if str_falsy em \<or> str_falsy pw
      then Inl (HttpErr 400 ''Please provide email and password'')
      else
        (case find_by_email d (the em) of
           None \<Rightarrow> Inl (HttpErr 404 ''Invalid credentials'')
         | Some u \<Rightarrow>
             if \<not> isVerified u then Inl (HttpErr 403 ''Please verify your email address first.'')
             else
               (case password u of
                  None \<Rightarrow> Inl (HttpErr 500 ''User password not found in DB. Possible schema/config issue.'')
                | Some h \<Rightarrow>
                    if \<not> bcrypt_compare (the pw) h then Inl (HttpErr 400 ''Invalid credentials'')
                    else Inr (generateToken (uid u) now, u))))"

text \<open>Lines 146--159.\<close>

definition legacy_getAuthUser :: "db \<Rightarrow> oid \<Rightarrow> user result" where
  "legacy_getAuthUser d i =
     (case find_user d i of None \<Rightarrow> Inl (HttpErr 404 ''User not found'') | Some u \<Rightarrow> Inr u)"

section \<open>Agreement with the mounted controller\<close>

lemma legacy_registerUser_eq: "legacy_registerUser = registerUser"
  by (intro ext) (simp add: legacy_registerUser_def registerUser_def)

lemma legacy_loginUser_eq: "legacy_loginUser = loginUser"
  by (intro ext) (simp add: legacy_loginUser_def loginUser_def)

lemma legacy_getAuthUser_eq: "legacy_getAuthUser = getAuthUser"
  by (intro ext) (simp add: legacy_getAuthUser_def getAuthUser_def)

lemma legacy_verify_present:
  "\<not> (str_falsy em \<or> str_falsy c \<or> str_falsy un \<or> str_falsy pw) \<Longrightarrow>
   legacy_verifyOtpAndRegister d em c un pw now = verifyOtpAndRegister d em c un pw (Some ''personal'') now"
  by (simp add: legacy_verifyOtpAndRegister_def verifyOtpAndRegister_def)

text \<open>The older copy keeps the registration invariant as well.\<close>

lemma legacy_verify_inv:
  assumes "auth_inv d" "legacy_verifyOtpAndRegister d em c un pw now = (d', y)"
  shows "auth_inv d'"
proof (cases "str_falsy em \<or> str_falsy c \<or> str_falsy un \<or> str_falsy pw")
  case True
  with assms show ?thesis by (simp add: legacy_verifyOtpAndRegister_def)
next
  case False
  with assms show ?thesis by (simp add: legacy_verify_present verify_inv)
qed

text \<open>C17. The older confirmation handler is the mounted one called with the user type
  \<open>personal\<close>, except for the wording of the missing-field error.\<close>

theorem legacy_verify_equiv:
  "legacy_verifyOtpAndRegister d em c un pw now =
     (if str_falsy em \<or> str_falsy c \<or> str_falsy un \<or> str_falsy pw
      then (d, Inl (HttpErr 400 ''Please provide email, OTP, username, and password''))
      else verifyOtpAndRegister d em c un pw (Some ''personal'') now)"
  by (simp add: legacy_verify_present) (simp add: legacy_verifyOtpAndRegister_def)

end
