(* ===== verification/Gateway.thy ===== *)
theory Gateway
  imports Models
begin

text \<open>
  The Socket.IO gateway of \<open>src/server.js\<close>: live connections with the rooms they
  have joined, the handshake middleware (\<open>io.use\<close>), the connection handler that
  joins the personal room and one room per chat the user takes part in, the
  \<open>sendMessage\<close> handler that persists a message and broadcasts it, and the
  \<open>io.in(room).socketsJoin\<close> call through which the chat controller subscribes a
  user's connections. Every handler runs to completion before the next (the awaits of the
  source are not interleaved here). Emitted events are returned as a list of
  (connection, event) pairs in emission order.
\<close>

section \<open>State and events\<close>

text \<open>A connection: its id, \<open>socket.user.id\<close>, and the rooms it has joined.\<close>

record socket =
  sock_id :: nat
  sock_user :: oid
  rooms :: "oid set"

record gateway =
  sockets :: "socket list"
  next_sock :: nat

text \<open>\<open>savedMessage.populate('sender', 'username profileImageUrl')\<close>: the sender's id,
  username and image, or nothing when the user document is missing.\<close>

type_synonym sender_view = "oid \<times> string option \<times> string option"

datatype sevent =
    ReceiveMessage message "sender_view option"
  | SendMessageError string

type_synonym emits = "(nat \<times> sevent) list"

datatype conn = ConnRejected string | ConnInert | ConnOpen nat

definition empty_gateway :: gateway where
  "empty_gateway = \<lparr>sockets = [], next_sock = 0\<rparr>"

section \<open>Socket.IO primitives\<close>

text \<open>\<open>io.to(room).emit(ev)\<close>: one event to every connection in the room.\<close>

definition io_to_emit :: "gateway \<Rightarrow> oid \<Rightarrow> sevent \<Rightarrow> emits" where
  "io_to_emit g r ev = map (\<lambda>s. (sock_id s, ev)) (filter (\<lambda>s. r \<in> rooms s) (sockets g))"

text \<open>\<open>io.in(r).socketsJoin(r')\<close>: every connection in room \<open>r\<close> also joins \<open>r'\<close>.\<close>

definition sockets_join :: "oid \<Rightarrow> oid \<Rightarrow> gateway \<Rightarrow> gateway" where
  "sockets_join r r' g =
     g\<lparr>sockets := map (\<lambda>s. if r \<in> rooms s then s\<lparr>rooms := insert r' (rooms s)\<rparr> else s) (sockets g)\<rparr>"

section \<open>Connection\<close>

text \<open>\<open>Chat.find({ participants: socket.user.id })\<close>: the chats the user takes part in.\<close>

definition user_chat_rooms :: "db \<Rightarrow> oid \<Rightarrow> oid set" where
  "user_chat_rooms d u = set (map chat_id (filter (\<lambda>c. u \<in> set (participants c)) (chats d)))"

text \<open>
  Handshake (server.js 44--54) and connection handler (57--71). A verified token whose
  payload has no \<open>user\<close> passes the handshake, but the handler then fails on
  \<open>socket.user.id\<close> before joining any room or registering \<open>sendMessage\<close>: the
  connection is open and inert, and the model keeps no state for it.
\<close>

definition io_connect :: "db \<Rightarrow> gateway \<Rightarrow> token option \<Rightarrow> time \<Rightarrow> gateway \<times> conn" where
  "io_connect d g tok now =
     (case tok of
        None \<Rightarrow> (g, ConnRejected ''Authentication error: No token provided.'')
      | Some t \<Rightarrow>
          (case jwt_verify t now of
             None \<Rightarrow> (g, ConnRejected ''Authentication error: Invalid token.'')
           | Some pl \<Rightarrow>
               (case pl_user pl of
                  None \<Rightarrow> (g, ConnInert)
                | Some u \<Rightarrow>
                    (let s = \<lparr>sock_id = next_sock g, sock_user = u,
                              rooms = insert u (user_chat_rooms d u)\<rparr>
                     in (g\<lparr>sockets := sockets g @ [s], next_sock := Suc (next_sock g)\<rparr>,
                         ConnOpen (next_sock g))))))"

text \<open>\<open>disconnect\<close>: the transport drops the connection and its rooms.\<close>

definition io_disconnect :: "nat \<Rightarrow> gateway \<Rightarrow> gateway" where
  "io_disconnect i g = g\<lparr>sockets := filter (\<lambda>s. sock_id s \<noteq> i) (sockets g)\<rparr>"

section \<open>sendMessage\<close>

record send_data =
  chatRoomId :: oid
  sd_content :: "string option"
  sd_type :: "string option"
  sd_mediaUrl :: "string option"

text \<open>The \<open>enum\<close> validator of \<open>Message.type\<close>.\<close>

fun parse_msg_type :: "string \<Rightarrow> msg_type option" where
  "parse_msg_type t =
     (if t = ''text'' then Some MText
      else if t = ''image'' then Some MImage
      else if t = ''video'' then Some MVideo else None)"

text \<open>\<open>content\<close> is required (after its \<open>trim\<close> setter) when the type is text.\<close>

definition content_valid :: "msg_type \<Rightarrow> string option \<Rightarrow> bool" where
  "content_valid ty c =
     (case ty of MText \<Rightarrow> (case c of None \<Rightarrow> False | Some s \<Rightarrow> s \<noteq> []) | _ \<Rightarrow> True)"

definition not_participant_msg :: string where
  "not_participant_msg = ''Chat not found or you are not a participant.''"

definition send_failed_msg :: string where
  "send_failed_msg = ''Failed to send message.''"

text \<open>\<open>new Message({...})\<close> as the handler builds it.\<close>

definition new_message ::
  "oid \<Rightarrow> oid \<Rightarrow> oid \<Rightarrow> string option \<Rightarrow> string option \<Rightarrow> msg_type \<Rightarrow> message" where
  "new_message mid cid sdr cnt med t =
     \<lparr>msg_id = mid, chat = cid, sender = sdr, content = cnt,
      mediaUrl = med, mtype = t, readBy = [sdr], isEdited = False\<rparr>"

text \<open>\<open>type = 'text'\<close> is the default of the handler's destructuring.\<close>

definition data_type :: "send_data \<Rightarrow> msg_type option" where
  "data_type data = (case sd_type data of None \<Rightarrow> Some MText | Some t \<Rightarrow> parse_msg_type t)"

text \<open>
  server.js 74--106. A missing chat or a sender outside its participants is answered on
  the sender's connection only. A message the schema rejects makes \<open>save\<close> throw, which
  the handler catches and answers the same way. Otherwise the message is saved with the
  sender in \<open>readBy\<close>, the chat's \<open>lastMessage\<close> is set, and the populated message is
  broadcast to the chat's room.
\<close>

definition socket_sendMessage :: "db \<Rightarrow> gateway \<Rightarrow> socket \<Rightarrow> send_data \<Rightarrow> db \<times> emits" where
  "socket_sendMessage d g s data =
     (let cid = chatRoomId data; sdr = sock_user s in
      case find_chat d cid of
        None \<Rightarrow> (d, [(sock_id s, SendMessageError not_participant_msg)])
      | Some c \<Rightarrow>
          if sdr \<notin> set (participants c)
          then (d, [(sock_id s, SendMessageError not_participant_msg)])
          else
            (let ty = data_type data;
                 cnt = map_option js_trim (sd_content data);
                 med = map_option js_trim (sd_mediaUrl data)
             in case ty of
                  None \<Rightarrow> (d, [(sock_id s, SendMessageError send_failed_msg)])
                | Some t \<Rightarrow>
                    if \<not> content_valid t cnt
                    then (d, [(sock_id s, SendMessageError send_failed_msg)])
                    else
                      (let (mid, d1) = new_oid d;
                           m = new_message mid cid sdr cnt med t;
                           d2 = d1\<lparr>messages := save_doc msg_id m (messages d1)\<rparr>;
                           d3 = save_chat (c\<lparr>lastMessage := Some mid\<rparr>) d2;
                           view = map_option (\<lambda>u. (uid u, username u, profileImageUrl u))
                                    (find_user d3 sdr)
                       in (d3, io_to_emit g cid (ReceiveMessage m view)))))"

section \<open>The gateway invariant\<close>

text \<open>
  Connection ids are distinct and below the allocator; every connection belongs to a
  registered user; and every room a connection is in is its personal room or the room of
  a chat its user takes part in.
\<close>

definition gw_inv :: "db \<Rightarrow> gateway \<Rightarrow> bool" where
  "gw_inv d g \<longleftrightarrow>
     distinct (map sock_id (sockets g)) \<and>
     (\<forall>s \<in> set (sockets g). sock_id s < next_sock g \<and> find_user d (sock_user s) \<noteq> None \<and>
        rooms s \<subseteq> insert (sock_user s) (user_chat_rooms d (sock_user s)))"

text \<open>The user a handshake token authenticates, if any.\<close>

definition token_user :: "token option \<Rightarrow> time \<Rightarrow> oid option" where
  "token_user tok now = (case tok of None \<Rightarrow> None | Some t \<Rightarrow> Option.bind (jwt_verify t now) pl_user)"

definition token_of_user :: "db \<Rightarrow> token option \<Rightarrow> time \<Rightarrow> bool" where
  "token_of_user d tok now = (case token_user tok now of None \<Rightarrow> True | Some u \<Rightarrow> find_user d u \<noteq> None)"

section \<open>Lemmas\<close>

lemma user_chat_rooms_iff [doc_store]:
  "r \<in> user_chat_rooms d u \<longleftrightarrow> (\<exists>c \<in> set (chats d). chat_id c = r \<and> u \<in> set (participants c))"
  by (auto simp: user_chat_rooms_def)

lemma user_chat_rooms_proj:
  "user_chat_rooms d u =
     set (map fst (filter (\<lambda>x. u \<in> set (snd x)) (map (\<lambda>c. (chat_id c, participants c)) (chats d))))"
  by (simp add: user_chat_rooms_def filter_map comp_def)

text \<open>Saving a chat without touching its participants leaves every user's chat rooms as they were.\<close>

lemma user_chat_rooms_save_chat [doc_store]:
  assumes "find_chat d (chat_id c) = Some c0" "participants c = participants c0"
  shows "user_chat_rooms (d'\<lparr>chats := save_doc chat_id c (chats d)\<rparr>) u = user_chat_rooms d u"
proof -
  have "map (\<lambda>c. (chat_id c, participants c)) (save_doc chat_id c (chats d)) =
        map (\<lambda>c. (chat_id c, participants c)) (chats d)"
    using assms by (intro map_save_found) (auto dest: find_doc_SomeD)
  then show ?thesis by (simp add: user_chat_rooms_proj)
qed

lemma user_chat_rooms_cong [doc_store]: "chats d' = chats d \<Longrightarrow> user_chat_rooms d' u = user_chat_rooms d u"
  by (simp add: user_chat_rooms_def)

lemma filter_sock_id [doc_store]:
  "distinct (map sock_id xs) \<Longrightarrow> s \<in> set xs \<Longrightarrow>
   filter (\<lambda>s'. sock_id s' = sock_id s \<and> r \<in> rooms s') xs = (if r \<in> rooms s then [s] else [])"
proof (induction xs)
  case Nil
  then show ?case by simp
next
  case (Cons a xs)
  show ?case
  proof (cases "a = s")
    case True
    with Cons.prems have "\<forall>s' \<in> set xs. sock_id s' \<noteq> sock_id s" by (auto simp: image_iff)
    then have "filter (\<lambda>s'. sock_id s' = sock_id s \<and> r \<in> rooms s') xs = []"
      by (auto simp: filter_empty_conv)
    with True show ?thesis by simp
  next
    case False
    with Cons.prems have "sock_id a \<noteq> sock_id s" by auto
    with False Cons show ?thesis by simp
  qed
qed

lemma io_to_emit_count [doc_store]:
  assumes "distinct (map sock_id (sockets g))" "s \<in> set (sockets g)"
  shows "length (filter (\<lambda>e. fst e = sock_id s) (io_to_emit g r ev)) = (if r \<in> rooms s then 1 else 0)"
proof -
  have "length (filter (\<lambda>e. fst e = sock_id s) (io_to_emit g r ev)) =
        length (filter (\<lambda>s'. sock_id s' = sock_id s \<and> r \<in> rooms s') (sockets g))"
    by (simp add: io_to_emit_def filter_map comp_def conj_commute)
  also have "filter (\<lambda>s'. sock_id s' = sock_id s \<and> r \<in> rooms s') (sockets g) =
             (if r \<in> rooms s then [s] else [])"
    using assms by (rule filter_sock_id)
  finally show ?thesis by simp
qed

lemma io_to_emit_mem [doc_store]:
  "(i, e) \<in> set (io_to_emit g r ev) \<longleftrightarrow> e = ev \<and> (\<exists>s \<in> set (sockets g). sock_id s = i \<and> r \<in> rooms s)"
  by (auto simp: io_to_emit_def)

lemma sendMessage_invalid [doc_store]:
  assumes "find_chat d (chatRoomId data) = Some c" "sock_user s \<in> set (participants c)"
    "\<not> (\<exists>t. data_type data = Some t \<and> content_valid t (map_option js_trim (sd_content data)))"
  shows "socket_sendMessage d g s data = (d, [(sock_id s, SendMessageError send_failed_msg)])"
  using assms by (auto simp: socket_sendMessage_def Let_def split: option.splits)

text \<open>The successful path, step by step as the handler takes it.\<close>

lemma sendMessage_ok [doc_store]:
  assumes "find_chat d (chatRoomId data) = Some c" "sock_user s \<in> set (participants c)"
    "data_type data = Some t" "content_valid t (map_option js_trim (sd_content data))"
  shows "socket_sendMessage d g s data =
     (let mid = next_oid d;
          m = new_message mid (chatRoomId data) (sock_user s) (map_option js_trim (sd_content data))
                (map_option js_trim (sd_mediaUrl data)) t;
          d3 = save_chat (c\<lparr>lastMessage := Some mid\<rparr>)
                 (d\<lparr>next_oid := Suc (next_oid d), messages := save_doc msg_id m (messages d)\<rparr>)
      in (d3, io_to_emit g (chatRoomId data) (ReceiveMessage m
            (map_option (\<lambda>u. (uid u, username u, profileImageUrl u)) (find_user d3 (sock_user s))))))"
  using assms by (simp add: socket_sendMessage_def Let_def new_oid_def)

lemma sendMessage_cases [consumes 1, case_names rejected sent]:
  assumes "socket_sendMessage d g s data = (d', evs)"
  obtains (rejected) e where "d' = d" "evs = [(sock_id s, SendMessageError e)]"
  | (sent) c m v where "find_chat d (chatRoomId data) = Some c" "sock_user s \<in> set (participants c)"
      "msg_id m = next_oid d" "chat m = chatRoomId data" "sender m = sock_user s"
      "d' = save_chat (c\<lparr>lastMessage := Some (next_oid d)\<rparr>)
              (d\<lparr>next_oid := Suc (next_oid d), messages := save_doc msg_id m (messages d)\<rparr>)"
      "evs = io_to_emit g (chatRoomId data) (ReceiveMessage m v)"
proof (cases "\<exists>c. find_chat d (chatRoomId data) = Some c \<and> sock_user s \<in> set (participants c)")
  case False
  then have "socket_sendMessage d g s data = (d, [(sock_id s, SendMessageError not_participant_msg)])"
    by (auto simp: socket_sendMessage_def Let_def split: option.splits)
  with assms show ?thesis by (metis prod.inject rejected)
next
  case True
  then obtain c where c: "find_chat d (chatRoomId data) = Some c" "sock_user s \<in> set (participants c)"
    by blast
  show ?thesis
  proof (cases "\<exists>t. data_type data = Some t \<and> content_valid t (map_option js_trim (sd_content data))")
    case False
    with assms c sendMessage_invalid show ?thesis by (metis prod.inject rejected)
  next
    case True
    then obtain t where "data_type data = Some t" "content_valid t (map_option js_trim (sd_content data))"
      by blast
    from sendMessage_ok [OF c this, of g] assms c show ?thesis
      by (intro sent) (auto simp: Let_def new_message_def)
  qed
qed

lemma db_wf_add_message:
  assumes "db_wf d" "msg_id m = next_oid d"
  shows "db_wf (d\<lparr>next_oid := Suc (next_oid d), messages := save_doc msg_id m (messages d)\<rparr>)"
proof -
  from assms have "msg_id m \<notin> msg_id ` set (messages d)"
    by (auto simp: db_wf_def all_ids_def)
  then have "save_doc msg_id m (messages d) = messages d @ [m]" by (rule save_doc_new)
  with assms(2) have "mset (all_ids (d\<lparr>next_oid := Suc (next_oid d),
      messages := save_doc msg_id m (messages d)\<rparr>)) = add_mset (next_oid d) (mset (all_ids d))"
    by (simp add: all_ids_def)
  with assms(1) show ?thesis by (rule db_wf_grow) simp
qed

lemma sendMessage_db_wf:
  assumes "socket_sendMessage d g s data = (d', evs)" "db_wf d"
  shows "db_wf d'"
  using assms(1)
proof (cases rule: sendMessage_cases)
  case rejected
  with assms show ?thesis by simp
next
  case (sent c m v)
  let ?d2 = "d\<lparr>next_oid := Suc (next_oid d), messages := save_doc msg_id m (messages d)\<rparr>"
  have wf2: "db_wf ?d2" using assms(2) sent by (intro db_wf_add_message)
  let ?c = "c\<lparr>lastMessage := Some (next_oid d)\<rparr>"
  from sent have "find_chat ?d2 (chat_id ?c) = Some c"
    by (simp add: find_doc_key)
  then have "all_ids (save_chat ?c ?d2) = all_ids ?d2" by (rule all_ids_save_chat)
  with wf2 have "db_wf (save_chat ?c ?d2)" by (rule db_wf_same_ids) simp
  with sent show ?thesis by simp
qed

lemma sendMessage_rooms:
  assumes "socket_sendMessage d g s data = (d', evs)"
  shows "users d' = users d \<and> user_chat_rooms d' u = user_chat_rooms d u"
  using assms
proof (cases rule: sendMessage_cases)
  case rejected
  then show ?thesis by simp
next
  case (sent c m v)
  then have "find_chat d (chat_id (c\<lparr>lastMessage := Some (next_oid d)\<rparr>)) = Some c"
    by (simp add: find_doc_key)
  with sent show ?thesis by (simp add: user_chat_rooms_save_chat)
qed

lemma gw_inv_sendMessage:
  assumes "socket_sendMessage d g s data = (d', evs)" "gw_inv d g"
  shows "gw_inv d' g"
  using assms sendMessage_rooms [OF assms(1)] by (simp add: gw_inv_def)

lemma gw_inv_connect [doc_store]:
  assumes "gw_inv d g" "token_of_user d tok now"
  shows "gw_inv d (fst (io_connect d g tok now))"
proof (cases "token_user tok now")
  case None
  then have "fst (io_connect d g tok now) = g"
    by (auto simp: io_connect_def token_user_def split: option.splits)
  with assms show ?thesis by simp
next
  case (Some u)
  then obtain t pl where t: "tok = Some t" "jwt_verify t now = Some pl" "pl_user pl = Some u"
    by (cases tok) (auto simp: token_user_def bind_eq_Some_conv)
  let ?s = "\<lparr>sock_id = next_sock g, sock_user = u, rooms = insert u (user_chat_rooms d u)\<rparr>"
  have conn: "fst (io_connect d g tok now) =
      g\<lparr>sockets := sockets g @ [?s], next_sock := Suc (next_sock g)\<rparr>"
    using t by (simp add: io_connect_def)
  from assms(2) Some have "find_user d u \<noteq> None" by (simp add: token_of_user_def)
  with assms(1) show ?thesis
    unfolding conn by (fastforce simp: gw_inv_def)
qed

lemma gw_inv_disconnect [doc_store]: "gw_inv d g \<Longrightarrow> gw_inv d (io_disconnect i g)"
  by (auto simp: gw_inv_def io_disconnect_def distinct_map_filter)

lemma gw_inv_empty: "gw_inv d empty_gateway"
  by (simp add: gw_inv_def empty_gateway_def)

section \<open>Properties of message delivery\<close>

text \<open>
  C1. A connection whose user is not a participant of the addressed chat (or that names
  no chat) gets exactly one \<open>sendMessageError\<close> on its own connection: nothing is
  persisted and nothing is broadcast.
\<close>

theorem sendMessage_outsider_rejected:
  assumes "\<not> (\<exists>c. find_chat d (chatRoomId data) = Some c \<and> sock_user s \<in> set (participants c))"
  shows "socket_sendMessage d g s data = (d, [(sock_id s, SendMessageError not_participant_msg)])"
  using assms by (auto simp: socket_sendMessage_def Let_def split: option.splits)

text \<open>The connections a send emits \<open>receiveMessage\<close> to, in a well-formed database and
  gateway.\<close>

lemma sendMessage_receivers:
  assumes "db_wf d" "gw_inv d g" "socket_sendMessage d g s data = (d', evs)"
    "(i, ReceiveMessage m v) \<in> set evs"
  shows "\<exists>s' \<in> set (sockets g). sock_id s' = i \<and>
           (\<exists>c \<in> set (chats d'). chat_id c = chat m \<and> sock_user s' \<in> set (participants c))"
  using assms(3)
proof (cases rule: sendMessage_cases)
  case rejected
  with assms(4) show ?thesis by simp
next
  case (sent c m0 v0)
  with assms(4) obtain s' where s': "s' \<in> set (sockets g)" "sock_id s' = i"
      "chatRoomId data \<in> rooms s'" and mm: "m = m0"
    by (auto simp: io_to_emit_mem)
  from assms(2) s' obtain x where ux: "find_user d (sock_user s') = Some x"
      and rs: "rooms s' \<subseteq> insert (sock_user s') (user_chat_rooms d (sock_user s'))"
    by (auto simp: gw_inv_def)
  from sent have "c \<in> set (chats d)" "chat_id c = chatRoomId data" by (auto dest: find_doc_SomeD)
  with assms(1) ux have "chatRoomId data \<noteq> sock_user s'" by (metis db_wf_user_not_chat)
  with rs s' have "chatRoomId data \<in> user_chat_rooms d (sock_user s')" by auto
  then have "chatRoomId data \<in> user_chat_rooms d' (sock_user s')"
    using sendMessage_rooms [OF assms(3)] by simp
  with s' mm sent show ?thesis by (auto simp: user_chat_rooms_iff)
qed

text \<open>
  C2. In a well-formed database and gateway, every \<open>receiveMessage\<close> a send emits goes to
  a live connection whose user is a participant of the message's chat.
\<close>

theorem sendMessage_delivers_to_participants:
  assumes "db_wf d" "gw_inv d g" "socket_sendMessage d g s data = (d', evs)"
    "(i, ReceiveMessage m v) \<in> set evs"
  shows "\<exists>s' \<in> set (sockets g). sock_id s' = i \<and>
           (\<exists>c \<in> set (chats d'). chat_id c = chat m \<and> sock_user s' \<in> set (participants c))"
  using assms by (rule sendMessage_receivers)


end
