(* ===== verification/ChatController.thy ===== *)
theory ChatController
  imports Gateway "HOL-Library.Multiset"
begin

text \<open>
  \<open>src/event_backend-main/controllers/chatController.js\<close>: joining the group chat of an
  event post (created on the first join, with the post's author and the requester), which
  also subscribes the requester's live connections through the gateway; listing the
  requester's chats; reading a chat's message history and the chat of a post, both for
  participants only; and the deprecated HTTP send. The requester is \<open>req.user.id\<close>, set by the \<open>protect\<close> middleware.
\<close>

section \<open>Operations\<close>

text \<open>\<open>Chat.create({ postId, groupName, participants, isGroupChat })\<close> with a fresh id.\<close>

definition new_chat :: "oid \<Rightarrow> oid \<Rightarrow> string \<Rightarrow> oid list \<Rightarrow> chat" where
  "new_chat cid p name ps =
     \<lparr>chat_id = cid, postId = p, isGroupChat = True, groupName = name, participants = ps,
      lastMessage = None\<rparr>"

text \<open>
  chatController.js 5--45. The post must exist and be an event. An existing chat gains
  the requester unless already a participant; otherwise a chat is created whose
  \<open>groupName\<close> is the (trimmed, required) post title and whose participants are the
  author and the requester. Then every connection in the requester's personal room joins
  the chat's room.
\<close>

definition joinPostGroupChat :: "db \<Rightarrow> gateway \<Rightarrow> oid \<Rightarrow> oid \<Rightarrow> db \<times> gateway \<times> chat result" where
  "joinPostGroupChat d g p u =
     (case find_post d p of
        None \<Rightarrow> (d, g, Inl (HttpErr 404 ''Post not found''))
      | Some po \<Rightarrow>
          if \<not> isEvent po then (d, g, Inl (HttpErr 400 ''This post does not have a group chat.''))
          else
            (case chat_of_post d p of
               Some c \<Rightarrow>
                 (let c' = (if u \<notin> set (participants c)
                            then c\<lparr>participants := participants c @ [u]\<rparr> else c);
                      d' = (if u \<notin> set (participants c) then save_chat c' d else d)
                  in (d', sockets_join u (chat_id c') g, Inr c'))
             | None \<Rightarrow>
                 if js_trim (title po) = [] then (d, g, Inl (HttpErr 500 ''Server error''))
                 else
                   (let (cid, d0) = new_oid d;
                        c = new_chat cid p (js_trim (title po)) [author po, u]
                    in (save_chat c d0, sockets_join u cid g, Inr c))))"

text \<open>
  chatController.js 49--64: the chats the requester takes part in, most recently updated
  first. The query is the one the connection handler runs (server.js 65). Mongoose keeps
  each chat's \<open>updatedAt\<close> itself on every save; the model takes these timestamps as
  the argument \<open>updatedAt\<close>, and orders chats with equal timestamps in natural order.
  The populated participants and last message are views of the stored documents.
\<close>

definition getUserChats :: "(oid \<Rightarrow> time) \<Rightarrow> db \<Rightarrow> oid \<Rightarrow> chat list" where
  "getUserChats updatedAt d u =
     sort_key (\<lambda>c. - updatedAt (chat_id c)) (filter (\<lambda>c. u \<in> set (participants c)) (chats d))"

text \<open>chatController.js 67--90: the messages of a chat in creation order.\<close>

definition getGroupMessages :: "db \<Rightarrow> oid \<Rightarrow> oid \<Rightarrow> message list result" where
  "getGroupMessages d cid u =
     (case find_chat d cid of
        None \<Rightarrow> Inl (HttpErr 404 ''Chat not found'')
      | Some c \<Rightarrow>
          if u \<notin> set (participants c)
          then Inl (HttpErr 403 ''You are not a participant in this chat'')
          else Inr (filter (\<lambda>m. chat m = chat_id c) (messages d)))"

text \<open>chatController.js 93--113.\<close>

definition getChatByPostId :: "db \<Rightarrow> oid \<Rightarrow> oid \<Rightarrow> chat result" where
  "getChatByPostId d p u =
     (case chat_of_post d p of
        None \<Rightarrow> Inl (HttpErr 404 ''No group chat found for this post'')
      | Some c \<Rightarrow>
          if u \<notin> set (participants c)
          then Inl (HttpErr 403 ''You do not have access to this chat.'')
          else Inr c)"

text \<open>chatController.js 116--118: sending over HTTP is refused.\<close>

definition sendGroupMessage :: "unit result" where
  "sendGroupMessage =
     Inl (HttpErr 400 ''This endpoint is deprecated. Use Socket.IO 'sendMessage' event.'')"

section \<open>Invariants of the chat store\<close>

text \<open>At most one chat per post (the unique index on \<open>postId\<close>).\<close>

definition one_chat_per_post :: "db \<Rightarrow> bool" where
  "one_chat_per_post d \<longleftrightarrow> distinct (map postId (chats d))"

text \<open>No user appears twice among a chat's participants.\<close>

definition participants_distinct :: "db \<Rightarrow> bool" where
  "participants_distinct d \<longleftrightarrow> (\<forall>c \<in> set (chats d). distinct (participants c))"

section \<open>Lemmas\<close>

lemma user_chat_rooms_listed:
  "chat_id ` set (getUserChats upd d u) = user_chat_rooms d u"
  by (simp add: user_chat_rooms_def getUserChats_def)

lemma chat_of_post_SomeD:
  "chat_of_post d p = Some c \<Longrightarrow> c \<in> set (chats d) \<and> postId c = p"
  by (auto simp: chat_of_post_def find_Some_iff)

lemma chat_of_post_None:
  "chat_of_post d p = None \<longleftrightarrow> p \<notin> postId ` set (chats d)"
  by (auto simp: chat_of_post_def find_None_iff)

lemma chat_of_post_found:
  "db_wf d \<Longrightarrow> chat_of_post d p = Some c \<Longrightarrow> find_chat d (chat_id c) = Some c"
  by (auto dest: chat_of_post_SomeD intro: find_doc_in_set db_wf_distinct_chats)

lemma find_postId_save:
  assumes "find_doc chat_id (chat_id c') xs = Some c0" "postId c0 = postId c'" "distinct (map postId xs)"
  shows "List.find (\<lambda>c. postId c = postId c') (save_doc chat_id c' xs) = Some c'"
  using assms
proof (induction xs)
  case Nil
  then show ?case by simp
next
  case (Cons x xs)
  show ?case
  proof (cases "chat_id x = chat_id c'")
    case True
    then show ?thesis by simp
  next
    case False
    with Cons.prems have "find_doc chat_id (chat_id c') xs = Some c0" by simp
    then have "c0 \<in> set xs" by (auto dest: find_doc_SomeD)
    then have "postId c0 \<in> postId ` set xs" by simp
    with Cons.prems have "postId x \<noteq> postId c'" by auto
    with False Cons show ?thesis by simp
  qed
qed

lemma distinct_postId_save:
  assumes "find_doc chat_id (chat_id c') xs = Some c0" "postId c0 = postId c'"
  shows "map postId (save_doc chat_id c' xs) = map postId xs"
  using map_save_found [of chat_id c' xs c0 postId] assms by simp

lemma join_cases [consumes 1, case_names member added created]:
  assumes "joinPostGroupChat d g p u = (d1, g1, Inr c1)"
  obtains (member) po where "find_post d p = Some po" "isEvent po" "chat_of_post d p = Some c1"
      "u \<in> set (participants c1)" "d1 = d" "g1 = sockets_join u (chat_id c1) g"
  | (added) po c where "find_post d p = Some po" "isEvent po" "chat_of_post d p = Some c"
      "u \<notin> set (participants c)" "c1 = c\<lparr>participants := participants c @ [u]\<rparr>"
      "d1 = save_chat c1 d" "g1 = sockets_join u (chat_id c1) g"
  | (created) po where "find_post d p = Some po" "isEvent po" "chat_of_post d p = None"
      "js_trim (title po) \<noteq> []" "c1 = new_chat (next_oid d) p (js_trim (title po)) [author po, u]"
      "d1 = save_chat c1 (d\<lparr>next_oid := Suc (next_oid d)\<rparr>)" "g1 = sockets_join u (next_oid d) g"
  using assms
  by (auto simp: joinPostGroupChat_def Let_def new_oid_def split: option.splits if_splits)


lemma count_list_distinct_mem: "distinct xs \<Longrightarrow> x \<in> set xs \<Longrightarrow> count_list xs x = 1"
  by (induction xs) auto

lemma sockets_join_idem: "sockets_join r r' (sockets_join r r' g) = sockets_join r r' g"
  by (auto simp: sockets_join_def)

lemma join_post:
  "joinPostGroupChat d g p u = (d1, g1, Inr c1) \<Longrightarrow> \<exists>po. find_post d p = Some po \<and> isEvent po"
  by (cases rule: join_cases) auto

lemma join_frame:
  "joinPostGroupChat d g p u = (d1, g1, r) \<Longrightarrow>
   posts d1 = posts d \<and> users d1 = users d \<and> messages d1 = messages d"
  by (auto simp: joinPostGroupChat_def Let_def new_oid_def split: option.splits if_splits)

lemma join_error:
  "joinPostGroupChat d g p u = (d1, g1, Inl e) \<Longrightarrow> d1 = d \<and> g1 = g"
  by (auto simp: joinPostGroupChat_def Let_def new_oid_def split: option.splits if_splits)

lemma join_member:
  "joinPostGroupChat d g p u = (d1, g1, Inr c1) \<Longrightarrow>
   u \<in> set (participants c1) \<and> g1 = sockets_join u (chat_id c1) g \<and> postId c1 = p"
  by (cases rule: join_cases) (auto simp: new_chat_def dest: chat_of_post_SomeD)

lemma join_db_wf:
  assumes "joinPostGroupChat d g p u = (d1, g1, r)" "db_wf d"
  shows "db_wf d1"
proof (cases r)
  case (Inl e)
  with assms join_error show ?thesis by blast
next
  case (Inr c1)
  with assms(1) have j: "joinPostGroupChat d g p u = (d1, g1, Inr c1)" by simp
  then show ?thesis
  proof (cases rule: join_cases)
    case member
    with assms show ?thesis by simp
  next
    case (added po c)
    with assms(2) have "find_chat d (chat_id c1) = Some c"
      by (simp add: chat_of_post_found)
    then have "all_ids (save_chat c1 d) = all_ids d" by (rule all_ids_save_chat)
    with assms(2) added show ?thesis by (auto intro: db_wf_same_ids)
  next
    case (created po)
    let ?d0 = "d\<lparr>next_oid := Suc (next_oid d)\<rparr>"
    from assms(2) have "chat_id c1 \<notin> chat_id ` set (chats d)"
      using created by (auto simp: db_wf_def all_ids_def new_chat_def)
    then have "save_doc chat_id c1 (chats ?d0) = chats d @ [c1]" by (simp add: save_doc_new)
    with created have "mset (all_ids d1) = add_mset (next_oid d) (mset (all_ids d))"
      by (simp add: all_ids_def new_chat_def)
    with assms(2) show ?thesis by (rule db_wf_grow) (simp add: created)
  qed
qed

lemma join_one_chat:
  assumes "joinPostGroupChat d g p u = (d1, g1, Inr c1)" "db_wf d" "one_chat_per_post d"
  shows "one_chat_per_post d1 \<and> chat_of_post d1 p = Some c1"
  using assms(1)
proof (cases rule: join_cases)
  case member
  with assms show ?thesis by simp
next
  case (added po c)
  with assms(2) have f: "find_chat d (chat_id c1) = Some c" by (simp add: chat_of_post_found)
  from added have pc: "postId c1 = p" "postId c = p" by (auto dest: chat_of_post_SomeD)
  from assms(3) have dp: "distinct (map postId (chats d))" by (simp add: one_chat_per_post_def)
  have "List.find (\<lambda>c. postId c = postId c1) (save_doc chat_id c1 (chats d)) = Some c1"
    by (rule find_postId_save [of c1 "chats d" c]) (use f pc dp in simp_all)
  moreover have "map postId (save_doc chat_id c1 (chats d)) = map postId (chats d)"
    by (rule distinct_postId_save [of c1 "chats d" c]) (use f pc in simp_all)
  ultimately show ?thesis
    unfolding one_chat_per_post_def chat_of_post_def \<open>d1 = save_chat c1 d\<close>
    using dp pc(1) by simp
next
  case (created po)
  from assms(2) have "chat_id c1 \<notin> chat_id ` set (chats d)"
    using created by (auto simp: db_wf_def all_ids_def new_chat_def)
  then have app: "chats d1 = chats d @ [c1]" using created by (simp add: save_doc_new)
  from created have nf: "List.find (\<lambda>c. postId c = p) (chats d) = None"
    by (simp add: chat_of_post_def)
  from created have "p \<notin> postId ` set (chats d)" by (simp add: chat_of_post_None)
  with app assms(3) created nf show ?thesis
    by (simp add: one_chat_per_post_def chat_of_post_def new_chat_def find_append)
qed


section \<open>Properties of joining and history\<close>

text \<open>
  C4. Joining is idempotent: once a join has succeeded, the same user joining the same
  post's chat again changes neither the database nor the gateway and returns the same chat.
\<close>

theorem join_idempotent:
  assumes "db_wf d" "one_chat_per_post d" "joinPostGroupChat d g p u = (d1, g1, Inr c1)"
  shows "joinPostGroupChat d1 g1 p u = (d1, g1, Inr c1)"
proof -
  from join_post [OF assms(3)] obtain po where po: "find_post d p = Some po" "isEvent po" by blast
  from join_frame [OF assms(3)] po have "find_post d1 p = Some po" by simp
  moreover from join_one_chat [OF assms(3,1,2)] have "chat_of_post d1 p = Some c1" by simp
  moreover from join_member [OF assms(3)] have "u \<in> set (participants c1)"
    and "g1 = sockets_join u (chat_id c1) g" by simp_all
  ultimately show ?thesis using po(2) by (simp add: joinPostGroupChat_def sockets_join_idem)
qed

lemma participants_distinct_save:
  "participants_distinct d \<Longrightarrow> distinct (participants c) \<Longrightarrow>
   participants_distinct (d'\<lparr>chats := save_doc chat_id c (chats d)\<rparr>)"
  using set_save_doc [of chat_id c "chats d"] by (auto simp: participants_distinct_def)

text \<open>
  C5. A user other than the post's author who joins appears exactly once among the
  chat's participants, and no chat gains a duplicate participant.
\<close>

theorem join_single_membership:
  assumes "db_wf d" "participants_distinct d" "find_post d p = Some po" "u \<noteq> author po"
    "joinPostGroupChat d g p u = (d1, g1, Inr c1)"
  shows "count_list (participants c1) u = 1 \<and> participants_distinct d1"
  using assms(5)
proof (cases rule: join_cases)
  case member
  then have "distinct (participants c1)"
    using assms(2) by (auto simp: participants_distinct_def dest: chat_of_post_SomeD)
  with member assms(2) show ?thesis by (simp add: count_list_distinct_mem)
next
  case (added po' c)
  then have "distinct (participants c)"
    using assms(2) by (auto simp: participants_distinct_def dest: chat_of_post_SomeD)
  with added have "distinct (participants c1)" by simp
  with added assms(2) show ?thesis by (simp add: count_list_distinct_mem participants_distinct_save)
next
  case (created po')
  with assms(3,4) have "distinct (participants c1)" by (simp add: new_chat_def)
  with created assms(2) show ?thesis
    by (simp add: count_list_distinct_mem participants_distinct_save new_chat_def)
qed

text \<open>
  C8. When the post's author is the first to join, the chat is created with the author
  listed twice: the participant list is then not duplicate-free.
\<close>

theorem author_first_join_duplicates:
  assumes "find_post d p = Some po" "isEvent po" "chat_of_post d p = None" "js_trim (title po) \<noteq> []"
  shows "\<exists>d1 g1 c1. joinPostGroupChat d g p (author po) = (d1, g1, Inr c1) \<and>
           participants c1 = [author po, author po] \<and> \<not> participants_distinct d1"
proof -
  let ?c = "new_chat (next_oid d) p (js_trim (title po)) [author po, author po]"
  have "joinPostGroupChat d g p (author po) =
        (save_chat ?c (d\<lparr>next_oid := Suc (next_oid d)\<rparr>), sockets_join (author po) (next_oid d) g, Inr ?c)"
    using assms by (simp add: joinPostGroupChat_def new_oid_def Let_def)
  moreover have "\<not> participants_distinct (save_chat ?c (d\<lparr>next_oid := Suc (next_oid d)\<rparr>))"
  proof
    assume "participants_distinct (save_chat ?c (d\<lparr>next_oid := Suc (next_oid d)\<rparr>))"
    then have "\<forall>c \<in> set (save_doc chat_id ?c (chats d)). distinct (participants c)"
      by (simp add: participants_distinct_def)
    then have "distinct (participants ?c)" by (rule bspec) simp
    then show False by (simp add: new_chat_def)
  qed
  ultimately show ?thesis by (auto simp: new_chat_def)
qed

lemma user_chat_rooms_mono_save:
  assumes "db_wf d" "find_chat d (chat_id c) = Some c0" "set (participants c0) \<subseteq> set (participants c)"
  shows "user_chat_rooms d v \<subseteq> user_chat_rooms (d'\<lparr>chats := save_doc chat_id c (chats d)\<rparr>) v"
proof
  fix r assume "r \<in> user_chat_rooms d v"
  then obtain x where x: "x \<in> set (chats d)" "chat_id x = r" "v \<in> set (participants x)"
    by (auto simp: user_chat_rooms_iff)
  show "r \<in> user_chat_rooms (d'\<lparr>chats := save_doc chat_id c (chats d)\<rparr>) v"
  proof (cases "chat_id x = chat_id c")
    case True
    with x assms(1,2) have "x = c0"
      by (metis find_doc_in_set db_wf_distinct_chats option.inject)
    with x True assms(3) show ?thesis by (auto simp: user_chat_rooms_iff intro!: bexI [of _ c])
  next
    case False
    have "x \<in> set (save_doc chat_id c (chats d))"
      using x(1) False by (rule save_doc_keeps)
    with x show ?thesis by (auto simp: user_chat_rooms_iff)
  qed
qed


lemma join_rooms_mono:
  assumes "joinPostGroupChat d g p u = (d1, g1, Inr c1)" "db_wf d"
  shows "(\<forall>v. user_chat_rooms d v \<subseteq> user_chat_rooms d1 v) \<and> chat_id c1 \<in> user_chat_rooms d1 u"
  using assms(1)
proof (cases rule: join_cases)
  case member
  then show ?thesis by (auto simp: user_chat_rooms_iff dest: chat_of_post_SomeD)
next
  case (added po c)
  with assms(2) have f: "find_chat d (chat_id c1) = Some c" by (simp add: chat_of_post_found)
  have "user_chat_rooms d v \<subseteq> user_chat_rooms d1 v" for v
    using user_chat_rooms_mono_save [OF assms(2) f, of v d] added by auto
  moreover have "chat_id c1 \<in> user_chat_rooms d1 u"
    using added by (auto simp: user_chat_rooms_iff intro!: bexI [of _ c1])
  ultimately show ?thesis by blast
next
  case (created po)
  from assms(2) have "chat_id c1 \<notin> chat_id ` set (chats d)"
    using created by (auto simp: db_wf_def all_ids_def new_chat_def)
  then have app: "chats d1 = chats d @ [c1]" using created by (simp add: save_doc_new)
  then show ?thesis using created by (auto simp: user_chat_rooms_iff new_chat_def)
qed

lemma gw_inv_sockets_join:
  assumes "gw_inv d g" "db_wf d" "find_user d u \<noteq> None" "users d1 = users d"
    "\<forall>v. user_chat_rooms d v \<subseteq> user_chat_rooms d1 v" "r \<in> user_chat_rooms d1 u"
  shows "gw_inv d1 (sockets_join u r g)"
proof -
  have dist: "distinct (map sock_id (sockets (sockets_join u r g)))"
    using assms(1) by (simp add: gw_inv_def sockets_join_def comp_def if_distrib cong: if_cong)
  have each: "sock_id s < next_sock (sockets_join u r g) \<and> find_user d1 (sock_user s) \<noteq> None \<and>
        rooms s \<subseteq> insert (sock_user s) (user_chat_rooms d1 (sock_user s))"
    if "s \<in> set (sockets (sockets_join u r g))" for s
  proof -
    from that obtain s0 where s0: "s0 \<in> set (sockets g)"
      and s: "s = (if u \<in> rooms s0 then s0\<lparr>rooms := insert r (rooms s0)\<rparr> else s0)"
      by (auto simp: sockets_join_def)
    from assms(1) s0 have i: "sock_id s0 < next_sock g" "find_user d (sock_user s0) \<noteq> None"
      "rooms s0 \<subseteq> insert (sock_user s0) (user_chat_rooms d (sock_user s0))"
      by (auto simp: gw_inv_def)
    have own: "sock_user s0 = u" if "u \<in> rooms s0"
    proof -
      from assms(3) obtain x where x: "find_user d u = Some x" by auto
      have "u \<notin> user_chat_rooms d (sock_user s0)"
        using assms(2) x by (auto simp: user_chat_rooms_iff dest: db_wf_user_not_chat)
      with i(3) that show ?thesis by auto
    qed
    show ?thesis using i s own assms(4,5,6) by (auto simp: sockets_join_def)
  qed
  show ?thesis unfolding gw_inv_def using dist each by blast
qed

text \<open>A join by a registered user keeps the database well formed and the gateway
  invariant.\<close>

lemma join_gw_inv:
  assumes "db_wf d" "gw_inv d g" "find_user d u \<noteq> None"
    "joinPostGroupChat d g p u = (d1, g1, r)"
  shows "db_wf d1 \<and> gw_inv d1 g1"
proof (cases r)
  case (Inl e)
  with assms join_error show ?thesis by blast
next
  case (Inr c1)
  with assms(4) have j: "joinPostGroupChat d g p u = (d1, g1, Inr c1)" by simp
  from join_rooms_mono [OF j assms(1)] join_frame [OF j] join_member [OF j]
  have "gw_inv d1 g1" using gw_inv_sockets_join [OF assms(2,1,3)] by auto
  with join_db_wf [OF assms(4,1)] show ?thesis by simp
qed

text \<open>
  C6. A join request by a registered user keeps the database well formed and the gateway
  invariant: the requester's connections join only the room of a chat the requester now
  takes part in.
\<close>

theorem join_keeps_gateway_inv:
  assumes "db_wf d" "gw_inv d g" "find_user d u \<noteq> None"
    "joinPostGroupChat d g p u = (d1, g1, r)"
  shows "db_wf d1 \<and> gw_inv d1 g1"
  using assms by (rule join_gw_inv)

text \<open>
  C7. When another user's join creates the chat, the post's author becomes a participant
  but none of the author's live connections joins the chat's room, so the author receives
  no broadcast until reconnecting.
\<close>

theorem join_leaves_author_unsubscribed:
  assumes "db_wf d" "gw_inv d g" "find_user d u \<noteq> None" "find_post d p = Some po"
    "chat_of_post d p = None" "u \<noteq> author po"
    "joinPostGroupChat d g p u = (d1, g1, Inr c1)"
    "s \<in> set (sockets g1)" "sock_user s = author po"
  shows "author po \<in> set (participants c1) \<and> chat_id c1 \<notin> rooms s"
  using assms(7)
proof (cases rule: join_cases)
  case (created po')
  with assms(4) have po': "po' = po" by simp
  from assms(8) created obtain s0 where s0: "s0 \<in> set (sockets g)"
    and s: "s = (if u \<in> rooms s0 then s0\<lparr>rooms := insert (next_oid d) (rooms s0)\<rparr> else s0)"
    by (auto simp: sockets_join_def)
  from s assms(9) have su: "sock_user s0 = author po" by (simp split: if_splits)
  from assms(2) s0 have i: "find_user d (sock_user s0) \<noteq> None"
    "rooms s0 \<subseteq> insert (sock_user s0) (user_chat_rooms d (sock_user s0))"
    by (auto simp: gw_inv_def)
  from assms(3) obtain x where x: "find_user d u = Some x" by auto
  have "u \<notin> user_chat_rooms d (author po)"
    using assms(1) x by (auto simp: user_chat_rooms_iff dest: db_wf_user_not_chat)
  with i(2) su assms(6) have "u \<notin> rooms s0" by auto
  with s have rs: "rooms s = rooms s0" by simp
  from i(1) obtain y where "find_user d (sock_user s0) = Some y" by auto
  with assms(1) have "sock_user s0 \<noteq> next_oid d" by (metis db_wf_user_below less_irrefl)
  moreover have "next_oid d \<notin> user_chat_rooms d (sock_user s0)"
    using assms(1) db_wf_chat_below by (fastforce simp: user_chat_rooms_iff)
  ultimately have "next_oid d \<notin> rooms s0" using i(2) by auto
  with rs created po' show ?thesis by (simp add: new_chat_def)
qed (use assms(5) in simp_all)


text \<open>
  C9. A delivered message is appended to the end of its chat's history as a participant
  reads it: messages are listed in the order they were persisted.
\<close>

theorem sendMessage_history_appends:
  assumes "db_wf d" "socket_sendMessage d g s data = (d', evs)"
    "(i, ReceiveMessage m v) \<in> set evs" "getGroupMessages d (chat m) u = Inr hist"
  shows "getGroupMessages d' (chat m) u = Inr (hist @ [m])"
  using assms(2)
proof (cases rule: sendMessage_cases)
  case rejected
  with assms(3) show ?thesis by simp
next
  case (sent c m0 v0)
  with assms(3) have mm: "m = m0" by (auto simp: io_to_emit_mem)
  from sent have cid: "chat_id c = chatRoomId data" by (auto dest: find_doc_SomeD)
  from assms(1) sent have "msg_id m0 \<notin> msg_id ` set (messages d)"
    by (auto simp: db_wf_def all_ids_def)
  then have app: "messages d' = messages d @ [m0]" using sent by (simp add: save_doc_new)
  have fc: "find_chat d' (chat m) = Some (c\<lparr>lastMessage := Some (next_oid d)\<rparr>)"
    using sent mm cid by simp
  from assms(4) sent mm cid have "u \<in> set (participants c)"
    and "hist = filter (\<lambda>x. chat x = chat_id c) (messages d)"
    by (auto simp: getGroupMessages_def split: if_splits)
  with fc app mm sent cid show ?thesis by (simp add: getGroupMessages_def)
qed

section \<open>Properties of the chat list\<close>


text \<open>
  C38. The HTTP chat list and the gateway agree: a connection opened by the handshake
  sits in its user's personal room and in exactly the rooms of the chats that
  \<open>getUserChats\<close> lists for that user at connection time.
\<close>

theorem connect_joins_listed_chats:
  assumes "io_connect d g tok now = (g', ConnOpen i)"
  shows "\<exists>s \<in> set (sockets g'). sock_id s = i \<and>
           rooms s = insert (sock_user s) (chat_id ` set (getUserChats upd d (sock_user s)))"
  using assms by (auto simp: io_connect_def Let_def user_chat_rooms_listed split: option.splits)

end
