(* ===== verification/PostController.thy ===== *)
theory PostController
  imports Models "HOL-Library.Product_Lexorder"
begin

text \<open>
  The post controller, \<open>src/controllers/postController.js\<close>, over the \<open>Post\<close> schema of
  \<open>src/event_backend-main/models/Post.js\<close>. Every handler takes the acting user id that
  \<open>protect\<close> produced and the clock where it reads \<open>new Date()\<close>; media files are given
  as the URLs Cloudinary returned for them. The invariant \<open>posts_ok\<close> ties the interest
  counter to the interest list; every handler keeps it.
\<close>

section \<open>Request values and schema checks\<close>

text \<open>
  Mongoose's cast of a value assigned to a \<open>Boolean\<close> path: \<open>true\<close>, \<open>'true'\<close>,
  \<open>1\<close>, \<open>'1'\<close>, \<open>'yes'\<close> and their false counterparts; anything else is a
  \<open>CastError\<close> on save. \<open>null\<close> is stored as null, which every reader of the field
  treats as false.
\<close>

fun cast_bool :: "jsval \<Rightarrow> bool option" where
  "cast_bool (JBool b) = Some b"
| "cast_bool (JStr s) =
     (if s \<in> {''true'', ''1'', ''yes''} then Some True
      else if s \<in> {''false'', ''0'', ''no''} then Some False else None)"
| "cast_bool (JNum n) = (if n = 1 then Some True else if n = 0 then Some False else None)"
| "cast_bool JNull = Some False"
| "cast_bool JUndef = None"

text \<open>The \<open>title\<close> and \<open>description\<close> validators (after the \<open>trim\<close> setter): required
  and at most 100 and 1000 characters.\<close>

definition post_text_ok :: "string \<Rightarrow> string \<Rightarrow> bool" where
  "post_text_ok t ds \<longleftrightarrow> t \<noteq> [] \<and> length t \<le> 100 \<and> ds \<noteq> [] \<and> length ds \<le> 1000"

text \<open>A \<open>Date\<close> or \<open>null\<close> compared with \<open><\<close>: \<open>null\<close> converts to 0.\<close>

definition js_date_num :: "time option \<Rightarrow> time" where
  "js_date_num t = (case t of None \<Rightarrow> 0 | Some x \<Rightarrow> x)"

text \<open>\<open>post.eventDateTime && new Date() >= post.eventDateTime\<close>: a date object is truthy.\<close>

definition event_started :: "post \<Rightarrow> time \<Rightarrow> bool" where
  "event_started po now \<longleftrightarrow> (case eventDateTime po of None \<Rightarrow> False | Some t \<Rightarrow> t \<le> now)"

section \<open>Handlers\<close>

text \<open>
  postController.js 9--50. \<open>isEvent\<close> is stored as \<open>isEvent === 'true' || isEvent ===
  true\<close>, but the event fields are kept when the raw \<open>isEvent\<close> is truthy. A schema
  validation error on save is a 500.
\<close>

definition createPost ::
  "db \<Rightarrow> oid \<Rightarrow> string option \<Rightarrow> string option \<Rightarrow> jsval \<Rightarrow> time option \<Rightarrow> string option \<Rightarrow>
   string list \<Rightarrow> time \<Rightarrow> db \<times> post result" where
  "createPost d u ti de ie edt loc urls now =
     (if str_falsy ti \<or> str_falsy de then (d, Inl (HttpErr 400 ''Ti  tle and description are required.''))
      else
        (let t = js_trim (the ti); ds = js_trim (the de) in
         if \<not> post_text_ok t ds then (d, Inl server_error)
         else
           (let (i, d0) = new_oid d;
                po = \<lparr>pid = i, author = u, title = t, description = ds, mediaUrls = map js_trim urls,
                      interestedCount = 0, commentCount = 0,
                      isEvent = (ie = JStr ''true'' \<or> ie = JBool True),
                      eventDateTime = (if truthy ie then edt else None),
                      location = (if truthy ie then map_option js_trim loc else None),
                      interestedUsers = [], attendedUsers = [], createdAt = now\<rparr>
            in (save_post po d0, Inr po))))"

text \<open>postController.js 54--65 and 68--85: all posts newest first; one post.\<close>

definition getAllPosts :: "db \<Rightarrow> post list result" where
  "getAllPosts d = Inr (sort_key (\<lambda>p. - createdAt p) (posts d))"

definition getPostById :: "db \<Rightarrow> oid \<Rightarrow> post result" where
  "getPostById d p = (case find_post d p of None \<Rightarrow> Inl (HttpErr 404 ''Post not found'') | Some po \<Rightarrow> Inr po)"

text \<open>
  postController.js 88--132. Only the author may edit. An absent field (\<open>undefined\<close>) is
  left as it is; \<open>eventDateTime\<close> and \<open>location\<close> may be set to \<open>null\<close>
  (\<open>Some None\<close>). \<open>clearExistingMedia = 'true'\<close> empties the media, new uploads replace
  them. A cast or validation error on save is a 500.
\<close>

definition updatePost ::
  "db \<Rightarrow> oid \<Rightarrow> oid \<Rightarrow> string option \<Rightarrow> string option \<Rightarrow> jsval \<Rightarrow> time option option \<Rightarrow>
   string option option \<Rightarrow> string option \<Rightarrow> string list \<Rightarrow> db \<times> post result" where
  "updatePost d p u ti de ie edt loc clr urls =
     (case find_post d p of
        None \<Rightarrow> (d, Inl (HttpErr 404 ''Post not found''))
      | Some po \<Rightarrow>
          if author po \<noteq> u then (d, Inl (HttpErr 403 ''Unauthorized: You are not the author.''))
          else
            (let m1 = (if clr = Some ''true'' then [] else mediaUrls po);
                 m2 = (if urls \<noteq> [] then map js_trim urls else m1);
                 t = (case ti of None \<Rightarrow> title po | Some x \<Rightarrow> js_trim x);
                 ds = (case de of None \<Rightarrow> description po | Some x \<Rightarrow> js_trim x);
                 ev = (if ie = JUndef then Some (isEvent po) else cast_bool ie)
             in case ev of
                  None \<Rightarrow> (d, Inl server_error)
                | Some b \<Rightarrow>
                    if \<not> post_text_ok t ds then (d, Inl server_error)
                    else
                      (let po' = po\<lparr>mediaUrls := m2, title := t, description := ds, isEvent := b,
                                   eventDateTime := (case edt of None \<Rightarrow> eventDateTime po | Some x \<Rightarrow> x),
                                   location := (case loc of None \<Rightarrow> location po | Some x \<Rightarrow> map_option js_trim x)\<rparr>
                       in (save_post po' d, Inr po'))))"

text \<open>postController.js 134--155: only the author may delete; the post's chat and
  comments are left in place.\<close>

definition deletePost :: "db \<Rightarrow> oid \<Rightarrow> oid \<Rightarrow> db \<times> unit result" where
  "deletePost d p u =
     (case find_post d p of
        None \<Rightarrow> (d, Inl (HttpErr 404 ''Post not found''))
      | Some po \<Rightarrow>
          if author po \<noteq> u then (d, Inl (HttpErr 403 ''Unauthorized: You are not the author.''))
          else (d\<lparr>posts := delete_doc pid p (posts d)\<rparr>, Inr ()))"

text \<open>postController.js 158--195. The result carries the new \<open>interested\<close> flag.\<close>

definition togglePostInterest :: "db \<Rightarrow> oid \<Rightarrow> oid \<Rightarrow> time \<Rightarrow> db \<times> (bool \<times> post) result" where
  "togglePostInterest d p u now =
     (case find_post d p of
        None \<Rightarrow> (d, Inl (HttpErr 404 ''Post not found''))
      | Some po \<Rightarrow>
          if event_started po now then (d, Inl (HttpErr 400 ''Cannot mark interest after event starts.''))
          else
            (let isI = u \<in> set (interestedUsers po);
                 po' = (if isI
                        then po\<lparr>interestedUsers := remove_id u (interestedUsers po),
                                interestedCount := max (interestedCount po - 1) 0\<rparr>
                        else po\<lparr>interestedUsers := interestedUsers po @ [u],
                                interestedCount := interestedCount po + 1\<rparr>)
             in (save_post po' d, Inr (\<not> isI, po'))))"

text \<open>postController.js 198--209: the posts the user is interested in, by event date
  ascending (\<open>null\<close> first, as MongoDB orders null before dates), then newest first.\<close>

definition getInterestedPosts :: "db \<Rightarrow> oid \<Rightarrow> post list result" where
  "getInterestedPosts d u =
     Inr (sort_key (\<lambda>p. (eventDateTime p \<noteq> None, js_date_num (eventDateTime p), - createdAt p))
            (filter (\<lambda>p. u \<in> set (interestedUsers p)) (posts d)))"

text \<open>postController.js 211--245.\<close>

definition markAttendance :: "db \<Rightarrow> oid \<Rightarrow> oid \<Rightarrow> time \<Rightarrow> db \<times> post result" where
  "markAttendance d p u now =
     (case find_post d p of
        None \<Rightarrow> (d, Inl (HttpErr 404 ''Post not found''))
      | Some po \<Rightarrow>
          if \<not> isEvent po \<or> now < js_date_num (eventDateTime po)
          then (d, Inl (HttpErr 400 ''Cannot mark attendance before event starts''))
          else if u \<notin> set (interestedUsers po)
          then (d, Inl (HttpErr 403 ''You must be interested before the event to mark attendance.''))
          else if u \<in> set (attendedUsers po)
          then (d, Inl (HttpErr 400 ''Already marked as attended''))
          else (let po' = po\<lparr>attendedUsers := attendedUsers po @ [u]\<rparr> in (save_post po' d, Inr po')))"

text \<open>postController.js 247--276: toggles attendance with no check at all.\<close>

definition togglePostAttendance :: "db \<Rightarrow> oid \<Rightarrow> oid \<Rightarrow> db \<times> post result" where
  "togglePostAttendance d p u =
     (case find_post d p of
        None \<Rightarrow> (d, Inl (HttpErr 404 ''Post not found''))
      | Some po \<Rightarrow>
          (let po' = (if u \<in> set (attendedUsers po)
                      then po\<lparr>attendedUsers := remove_id u (attendedUsers po)\<rparr>
                      else po\<lparr>attendedUsers := attendedUsers po @ [u]\<rparr>)
           in (save_post po' d, Inr po')))"

text \<open>postController.js 279--296: past events the user attended, latest first.\<close>

definition getAttendedPosts :: "db \<Rightarrow> oid \<Rightarrow> time \<Rightarrow> post list result" where
  "getAttendedPosts d u now =
     Inr (sort_key (\<lambda>p. - js_date_num (eventDateTime p))
            (filter (\<lambda>p. isEvent p \<and> u \<in> set (attendedUsers p) \<and>
                         (case eventDateTime p of None \<Rightarrow> False | Some t \<Rightarrow> t < now)) (posts d)))"

text \<open>
  postController.js 299--306: the handler's first statement reads
  \<open>mongoose.Types.ObjectId\<close>, but the file never imports \<open>mongoose\<close>; the
  \<open>ReferenceError\<close> is caught and every request answers 500, before any read or write.
\<close>

definition joinInterestGroup :: "db \<Rightarrow> oid \<Rightarrow> oid \<Rightarrow> db \<times> chat result" where
  "joinInterestGroup d p u = (d, Inl (HttpErr 500 ''Server error''))"

text \<open>postController.js 351--374: posts by followed authors, newest first; everything when
  the user follows nobody.\<close>

definition getFeedPosts :: "db \<Rightarrow> oid \<Rightarrow> post list result" where
  "getFeedPosts d u =
     (case find_user d u of
        None \<Rightarrow> Inl (HttpErr 404 ''User not found'')
      | Some cu \<Rightarrow>
          Inr (sort_key (\<lambda>p. - createdAt p)
                 (if following cu \<noteq> [] then filter (\<lambda>p. author p \<in> set (following cu)) (posts d)
                  else posts d)))"

section \<open>The post requests as one step\<close>

datatype post_req =
    CreatePost oid "string option" "string option" jsval "time option" "string option" "string list" time
  | UpdatePost oid oid "string option" "string option" jsval "time option option" "string option option"
      "string option" "string list"
  | DeletePost oid oid
  | TogglePostInterest oid oid time
  | MarkAttendance oid oid time
  | TogglePostAttendance oid oid
  | JoinInterestGroup oid oid

fun post_step :: "db \<Rightarrow> post_req \<Rightarrow> db" where
  "post_step d (CreatePost u ti de ie edt loc urls now) = fst (createPost d u ti de ie edt loc urls now)"
| "post_step d (UpdatePost p u ti de ie edt loc clr urls) = fst (updatePost d p u ti de ie edt loc clr urls)"
| "post_step d (DeletePost p u) = fst (deletePost d p u)"
| "post_step d (TogglePostInterest p u now) = fst (togglePostInterest d p u now)"
| "post_step d (MarkAttendance p u now) = fst (markAttendance d p u now)"
| "post_step d (TogglePostAttendance p u) = fst (togglePostAttendance d p u)"
| "post_step d (JoinInterestGroup p u) = fst (joinInterestGroup d p u)"

section \<open>The counter invariant\<close>

text \<open>The interest counter equals the number of interested users, who are listed once
  each; attendees are listed once each.\<close>

definition post_ok :: "post \<Rightarrow> bool" where
  "post_ok po \<longleftrightarrow> interestedCount po = int (length (interestedUsers po)) \<and>
     distinct (interestedUsers po) \<and> distinct (attendedUsers po)"

definition posts_ok :: "db \<Rightarrow> bool" where
  "posts_ok d \<longleftrightarrow> (\<forall>po \<in> set (posts d). post_ok po)"

section \<open>Lemmas\<close>


lemma db_wf_save_post [doc_store]:
  "db_wf d \<Longrightarrow> find_post d (pid po') = Some po \<Longrightarrow> db_wf (save_post po' d)"
  by (rule db_wf_same_ids) (simp_all add: all_ids_save_post)

lemma db_wf_filter_posts [doc_store]:
  "db_wf d \<Longrightarrow> db_wf (d\<lparr>posts := filter P (posts d)\<rparr>)"
  by (auto simp: db_wf_def all_ids_def distinct_map_filter)

lemma posts_ok_save:
  "posts_ok d \<Longrightarrow> post_ok po' \<Longrightarrow> posts_ok (save_post po' d)"
  unfolding posts_ok_def using set_save_doc [of pid po' "posts d"] by auto

lemma posts_ok_find: "posts_ok d \<Longrightarrow> find_post d p = Some po \<Longrightarrow> post_ok po"
  by (auto simp: posts_ok_def dest: find_doc_SomeD)

lemma find_post_pid: "find_post d p = Some po \<Longrightarrow> pid po = p"
  by (auto dest: find_doc_SomeD)

text \<open>Saving a post fetched by id, changed only outside the id: well-formedness and, when
  the new version satisfies \<open>post_ok\<close>, the invariant are kept.\<close>

lemma save_fetched_post:
  assumes "db_wf d" "posts_ok d" "find_post d p = Some po" "pid po' = pid po" "post_ok po'"
  shows "db_wf (save_post po' d) \<and> posts_ok (save_post po' d)"
proof -
  have "find_post d (pid po') = Some po" using assms(3,4) find_post_pid [OF assms(3)] by simp
  with assms show ?thesis by (simp add: db_wf_save_post posts_ok_save)
qed

lemma createPost_inv:
  assumes "db_wf d" "posts_ok d"
  shows "db_wf (fst (createPost d u ti de ie edt loc urls now)) \<and> posts_ok (fst (createPost d u ti de ie edt loc urls now))"
proof -
  define po where "po = \<lparr>pid = next_oid d, author = u, title = js_trim (the ti), description = js_trim (the de),
      mediaUrls = map js_trim urls, interestedCount = 0, commentCount = 0,
      isEvent = (ie = JStr ''true'' \<or> ie = JBool True),
      eventDateTime = (if truthy ie then edt else None),
      location = (if truthy ie then map_option js_trim loc else None),
      interestedUsers = [], attendedUsers = [], createdAt = now\<rparr>"
  let ?d = "save_post po (d\<lparr>next_oid := Suc (next_oid d)\<rparr>)"
  have "pid po \<notin> pid ` set (posts d)"
    using db_wf_fresh [OF assms(1)] by (auto simp: po_def all_ids_def)
  then have app: "posts ?d = posts d @ [po]" by (simp add: save_doc_new)
  then have "mset (all_ids ?d) = add_mset (next_oid d) (mset (all_ids d))"
    by (simp add: all_ids_def po_def)
  with assms(1) have "db_wf ?d" by (rule db_wf_grow) simp
  moreover have "posts_ok ?d" using assms(2) app by (simp add: posts_ok_def post_ok_def po_def)
  ultimately show ?thesis using assms
    by (simp add: createPost_def new_oid_def Let_def po_def)
qed

lemma updatePost_inv:
  assumes "db_wf d" "posts_ok d"
  shows "db_wf (fst (updatePost d p u ti de ie edt loc clr urls)) \<and>
         posts_ok (fst (updatePost d p u ti de ie edt loc clr urls))"
proof (cases "find_post d p")
  case None
  with assms show ?thesis by (simp add: updatePost_def)
next
  case (Some po)
  have ok: "post_ok po" using posts_ok_find [OF assms(2) Some] .
  show ?thesis
    using assms Some save_fetched_post [OF assms Some] ok
    by (auto simp: updatePost_def Let_def post_ok_def split: option.splits)
qed

lemma deletePost_inv:
  assumes "db_wf d" "posts_ok d"
  shows "db_wf (fst (deletePost d p u)) \<and> posts_ok (fst (deletePost d p u))"
  using assms by (auto simp: deletePost_def delete_doc_def db_wf_filter_posts posts_ok_def
      split: option.splits)

lemma post_ok_toggle_interest:
  assumes "post_ok po"
  shows "post_ok (if u \<in> set (interestedUsers po)
                  then po\<lparr>interestedUsers := remove_id u (interestedUsers po),
                          interestedCount := max (interestedCount po - 1) 0\<rparr>
                  else po\<lparr>interestedUsers := interestedUsers po @ [u],
                          interestedCount := interestedCount po + 1\<rparr>)"
proof (cases "u \<in> set (interestedUsers po)")
  case True
  from assms have dist: "distinct (interestedUsers po)" by (simp add: post_ok_def)
  then have "length (remove_id u (interestedUsers po)) = length (interestedUsers po) - 1"
    using True by (rule remove_id_length)
  moreover have "int (length (interestedUsers po) - 1) = int (length (interestedUsers po)) - 1"
    using True by (cases "interestedUsers po") auto
  ultimately show ?thesis using True assms dist
    by (auto simp: post_ok_def remove_id_distinct)
next
  case False
  with assms show ?thesis by (simp add: post_ok_def)
qed

lemma togglePostInterest_inv:
  assumes "db_wf d" "posts_ok d"
  shows "db_wf (fst (togglePostInterest d p u now)) \<and> posts_ok (fst (togglePostInterest d p u now))"
proof (cases "find_post d p")
  case None
  with assms show ?thesis by (simp add: togglePostInterest_def)
next
  case (Some po)
  have ok: "post_ok po" using posts_ok_find [OF assms(2) Some] .
  show ?thesis
    using assms Some save_fetched_post [OF assms Some] post_ok_toggle_interest [OF ok, of u]
    by (auto simp: togglePostInterest_def Let_def)
qed

lemma markAttendance_inv:
  assumes "db_wf d" "posts_ok d"
  shows "db_wf (fst (markAttendance d p u now)) \<and> posts_ok (fst (markAttendance d p u now))"
proof (cases "find_post d p")
  case None
  with assms show ?thesis by (simp add: markAttendance_def)
next
  case (Some po)
  have ok: "post_ok po" using posts_ok_find [OF assms(2) Some] .
  show ?thesis
    using assms Some save_fetched_post [OF assms Some] ok
    by (auto simp: markAttendance_def post_ok_def Let_def)
qed

lemma togglePostAttendance_inv:
  assumes "db_wf d" "posts_ok d"
  shows "db_wf (fst (togglePostAttendance d p u)) \<and> posts_ok (fst (togglePostAttendance d p u))"
proof (cases "find_post d p")
  case None
  with assms show ?thesis by (simp add: togglePostAttendance_def)
next
  case (Some po)
  have ok: "post_ok po" using posts_ok_find [OF assms(2) Some] .
  show ?thesis
    using assms Some save_fetched_post [OF assms Some] ok
    by (auto simp: togglePostAttendance_def post_ok_def remove_id_distinct Let_def)
qed

lemma post_step_inv:
  "db_wf d \<Longrightarrow> posts_ok d \<Longrightarrow> db_wf (post_step d r) \<and> posts_ok (post_step d r)"
  by (cases r) (simp_all add: createPost_inv updatePost_inv deletePost_inv togglePostInterest_inv
      markAttendance_inv togglePostAttendance_inv joinInterestGroup_def)

section \<open>Properties of the post controller\<close>

text \<open>C18. Toggling interest twice on a post the user was not interested in, both times before
  the event starts, returns the database to its original state: the first toggle adds the
  user and raises the counter by one, the second answers ``not interested with the original post.\<close>

theorem toggle_interest_twice:
  assumes wf: "db_wf d" and ok: "posts_ok d" and po: "find_post d p = Some po"
    and out: "u \<notin> set (interestedUsers po)"
    and t1: "\<not> event_started po t1" and t2: "\<not> event_started po t2"
    and r1: "togglePostInterest d p u t1 = (d1, r1)"
    and r2: "togglePostInterest d1 p u t2 = (d2, r2)"
  shows "d2 = d \<and> r2 = Inr (False, po) \<and>
         (\<exists>po1. r1 = Inr (True, po1) \<and> interestedCount po1 = interestedCount po + 1 \<and>
                u \<in> set (interestedUsers po1))"
proof -
  let ?po1 = "po\<lparr>interestedUsers := interestedUsers po @ [u], interestedCount := interestedCount po + 1\<rparr>"
  have pp: "pid po = p" using po by (rule find_post_pid)
  have d1: "d1 = save_post ?po1 d" and res1: "r1 = Inr (True, ?po1)"
    using r1 po t1 out by (simp_all add: togglePostInterest_def Let_def)
  have f1: "find_post d1 p = Some ?po1" unfolding d1 using pp by simp
  have "\<not> event_started ?po1 t2" using t2 by (simp add: event_started_def)
  moreover have "0 \<le> interestedCount po" using posts_ok_find [OF ok po] by (simp add: post_ok_def)
  ultimately have d2: "d2 = save_post po d1" and res2: "r2 = Inr (False, po)"
    using r2 f1 out by (simp_all add: togglePostInterest_def Let_def remove_id_snoc_fresh)
  have "find_doc pid (pid po) (posts d) = Some po" using po pp by simp
  then have "save_post po d1 = d" unfolding d1 using pp by (simp add: save_doc_found_self)
  with d2 res1 res2 show ?thesis by simp
qed

text \<open>C19. Any sequence of post requests keeps the database well formed and every post's
  interest counter equal to the number of its (distinct) interested users; in particular the
  counter never becomes negative.\<close>

theorem post_requests_keep_counters:
  assumes "db_wf d" "posts_ok d"
  shows "db_wf (foldl post_step d rs) \<and> posts_ok (foldl post_step d rs) \<and>
         (\<forall>po \<in> set (posts (foldl post_step d rs)). 0 \<le> interestedCount po)"
proof -
  have "db_wf (foldl post_step d rs) \<and> posts_ok (foldl post_step d rs)"
    using assms by (induction rs arbitrary: d) (simp_all add: post_step_inv)
  then show ?thesis by (auto simp: posts_ok_def post_ok_def)
qed

text \<open>C20. \<open>markAttendance\<close> succeeds only on an event post, for a user who is interested
  and not yet recorded as attending, and not before the event's start time; it then appends
  the user to the attendees and saves the post.\<close>

theorem mark_attendance_requires_interest_and_start:
  assumes "find_post d p = Some po" "markAttendance d p u now = (d', Inr po')"
  shows "isEvent po \<and> u \<in> set (interestedUsers po) \<and> u \<notin> set (attendedUsers po) \<and>
         (\<forall>t. eventDateTime po = Some t \<longrightarrow> t \<le> now) \<and>
         po' = po\<lparr>attendedUsers := attendedUsers po @ [u]\<rparr> \<and> d' = save_post po' d"
  using assms by (auto simp: markAttendance_def js_date_num_def Let_def split: if_splits)

text \<open>C21. Marking attendance is not repeated: once it has succeeded, marking again at the same
  or a later time is refused as a duplicate and changes nothing.\<close>

theorem mark_attendance_rejects_repeat:
  assumes "markAttendance d p u now = (d1, Inr po1)" "now \<le> now'"
  shows "markAttendance d1 p u now' = (d1, Inl (HttpErr 400 ''Already marked as attended''))"
proof -
  obtain po where po: "find_post d p = Some po"
    using assms(1) by (cases "find_post d p") (auto simp: markAttendance_def)
  then have pp: "pid po = p" by (rule find_post_pid)
  from assms(1) po have c: "isEvent po" "\<not> now < js_date_num (eventDateTime po)"
      "u \<in> set (interestedUsers po)" "po1 = po\<lparr>attendedUsers := attendedUsers po @ [u]\<rparr>"
      "d1 = save_post po1 d"
    by (auto simp: markAttendance_def Let_def split: if_splits)
  then have "find_post d1 p = Some po1" using pp by simp
  with c assms(2) show ?thesis by (simp add: markAttendance_def)
qed

text \<open>C22. Interest in a dated post cannot be toggled once its start time has come.\<close>

theorem interest_closed_after_start:
  assumes "find_post d p = Some po" "eventDateTime po = Some t" "t \<le> now"
  shows "togglePostInterest d p u now = (d, Inl (HttpErr 400 ''Cannot mark interest after event starts.''))"
  using assms by (simp add: togglePostInterest_def event_started_def)

text \<open>C23. Only the author may update or delete a post: anyone else gets 403 and the database
  is unchanged.\<close>

theorem only_author_updates_or_deletes:
  assumes "find_post d p = Some po" "author po \<noteq> u"
  shows "updatePost d p u ti de ie edt loc clr urls =
           (d, Inl (HttpErr 403 ''Unauthorized: You are not the author.'')) \<and>
         deletePost d p u = (d, Inl (HttpErr 403 ''Unauthorized: You are not the author.''))"
  using assms by (simp add: updatePost_def deletePost_def)

text \<open>C24. \<open>togglePostAttendance\<close> (mounted as \<open>PUT /:postId/attendance\<close>) records
  any user as attending any post, whether or not it is an event, the user was interested, or
  the event has started: none of the rules of \<open>markAttendance\<close> applies.\<close>

theorem toggle_attendance_skips_event_rules:
  assumes "find_post d p = Some po" "u \<notin> set (attendedUsers po)"
  shows "\<exists>po'. togglePostAttendance d p u = (save_post po' d, Inr po') \<and> u \<in> set (attendedUsers po') \<and>
           pid po' = p \<and> isEvent po' = isEvent po \<and> eventDateTime po' = eventDateTime po \<and>
           interestedUsers po' = interestedUsers po"
  using assms find_post_pid [OF assms(1)] by (simp add: togglePostAttendance_def Let_def)

text \<open>C25. A post created with the form value \<open>isEvent = 'false'\<close> is stored as not an event
  but keeps the submitted event date and location, since those fields test the raw string's
  truthiness.\<close>

theorem createPost_false_string_keeps_event_fields:
  assumes "createPost d u ti de (JStr ''false'') edt loc urls now = (d', Inr po)"
  shows "\<not> isEvent po \<and> eventDateTime po = edt \<and> location po = map_option js_trim loc"
  using assms by (auto simp: createPost_def Let_def new_oid_def split: if_splits)


end
