(* ===== verification/UserController.thy ===== *)
theory UserController
  imports Auth
begin

text \<open>
  The user controller, \<open>src/event_backend-main/controllers/userController.js\<close>: profiles
  and the follow graph. A \<open>:userId\<close> route parameter is an \<open>oid option\<close>, \<open>None\<close>
  standing for a string that is not a well-formed ObjectId (\<open>isValidObjectId\<close>); the
  acting user is the id \<open>protect\<close> produced. The follow graph is kept symmetric
  (\<open>follow_ok\<close>); the profile update does not keep usernames unique.
\<close>

section \<open>Handlers\<close>

text \<open>userController.js 10--27; \<open>.select('-password')\<close> drops the hash.\<close>

definition getUserProfile :: "db \<Rightarrow> oid option \<Rightarrow> user result" where
  "getUserProfile d p =
     (case p of
        None \<Rightarrow> Inl (HttpErr 400 ''Invalid User ID format'')
      | Some i \<Rightarrow>
          (case find_user d i of
             None \<Rightarrow> Inl (HttpErr 404 ''User not found'')
           | Some u \<Rightarrow> Inr (u\<lparr>password := None\<rparr>)))"

text \<open>
  userController.js 30--66. A truthy \<open>username\<close> or \<open>bio\<close> is stored (through the
  schema's \<open>trim\<close> setter), an uploaded image replaces the profile image; a bio longer than
  200 characters fails validation on save (500). No check that the username is free.
\<close>

definition updateUserProfile ::
  "db \<Rightarrow> oid option \<Rightarrow> oid \<Rightarrow> string option \<Rightarrow> string option \<Rightarrow> string option \<Rightarrow> db \<times> user result" where
  "updateUserProfile d p cur un bi img =
     (case p of
        None \<Rightarrow> (d, Inl (HttpErr 400 ''Invalid user ID format''))
      | Some i \<Rightarrow>
          if cur \<noteq> i then (d, Inl (HttpErr 403 ''Unauthorized''))
          else
            (case find_user d i of
               None \<Rightarrow> (d, Inl (HttpErr 404 ''User not found''))
             | Some u \<Rightarrow>
                 (let u1 = (if str_falsy un then u else u\<lparr>username := Some (js_trim (the un))\<rparr>);
                      u2 = (if str_falsy bi then u1 else u1\<lparr>bio := js_trim (the bi)\<rparr>);
                      u3 = (case img of None \<Rightarrow> u2 | Some url \<Rightarrow> u2\<lparr>profileImageUrl := Some url\<rparr>)
                  in if 200 < length (bio u3) then (d, Inl server_error)
                     else (save_user u3 d, Inr (u3\<lparr>password := None\<rparr>)))))"

text \<open>userController.js 70--87: the user's posts, newest first.\<close>

definition getUserPosts :: "db \<Rightarrow> oid option \<Rightarrow> post list result" where
  "getUserPosts d p =
     (case p of
        None \<Rightarrow> Inl (HttpErr 400 ''Invalid User ID format'')
      | Some i \<Rightarrow> Inr (sort_key (\<lambda>q. - createdAt q) (filter (\<lambda>q. author q = i) (posts d))))"

text \<open>userController.js 90--126: both sides of the edge are written.\<close>

definition followUser :: "db \<Rightarrow> oid option \<Rightarrow> oid \<Rightarrow> db \<times> unit result" where
  "followUser d p cur =
     (case p of
        None \<Rightarrow> (d, Inl (HttpErr 400 ''Invalid User ID format''))
      | Some t \<Rightarrow>
          if t = cur then (d, Inl (HttpErr 400 ''You cannot follow yourself.''))
          else
            (case (find_user d t, find_user d cur) of
               (Some tu, Some cu) \<Rightarrow>
                 if t \<in> set (following cu) then (d, Inl (HttpErr 400 ''Already following this user.''))
                 else (save_user (tu\<lparr>followers := followers tu @ [cur]\<rparr>)
                         (save_user (cu\<lparr>following := following cu @ [t]\<rparr>) d), Inr ())
             | _ \<Rightarrow> (d, Inl (HttpErr 404 ''User not found.''))))"

text \<open>userController.js 129--165. There is no self check; a user never follows itself, so
  the membership check refuses a self-unfollow.\<close>

definition unfollowUser :: "db \<Rightarrow> oid option \<Rightarrow> oid \<Rightarrow> db \<times> unit result" where
  "unfollowUser d p cur =
     (case p of
        None \<Rightarrow> (d, Inl (HttpErr 400 ''Invalid User ID format''))
      | Some t \<Rightarrow>
          (case (find_user d t, find_user d cur) of
             (Some tu, Some cu) \<Rightarrow>
               if t \<notin> set (following cu) then (d, Inl (HttpErr 400 ''You are not following this user.''))
               else (save_user (tu\<lparr>followers := remove_id cur (followers tu)\<rparr>)
                       (save_user (cu\<lparr>following := remove_id t (following cu)\<rparr>) d), Inr ())
           | _ \<Rightarrow> (d, Inl (HttpErr 404 ''User not found.''))))"

text \<open>userController.js 168--175: \<open>null\<close> (answered with 200) when the user is gone.\<close>

definition getCurrentUserProfile :: "db \<Rightarrow> oid \<Rightarrow> user option result" where
  "getCurrentUserProfile d cur = Inr (map_option (\<lambda>u. u\<lparr>password := None\<rparr>) (find_user d cur))"

section \<open>The user requests as one step\<close>

datatype user_req =
    UpdateUserProfile "oid option" oid "string option" "string option" "string option"
  | FollowUser "oid option" oid
  | UnfollowUser "oid option" oid

fun user_step :: "db \<Rightarrow> user_req \<Rightarrow> db" where
  "user_step d (UpdateUserProfile p cur un bi img) = fst (updateUserProfile d p cur un bi img)"
| "user_step d (FollowUser p cur) = fst (followUser d p cur)"
| "user_step d (UnfollowUser p cur) = fst (unfollowUser d p cur)"

section \<open>The follow graph\<close>

text \<open>
  Over a lookup of users by id: lists without repetitions, and every edge recorded on both
  sides between registered users, and nobody following themselves (\<open>b\<close> in \<open>a\<close>'s \<open>following\<close> exactly when \<open>a\<close> is
  in \<open>b\<close>'s \<open>followers\<close>).
\<close>

definition follow_ok_f :: "(oid \<Rightarrow> user option) \<Rightarrow> bool" where
  "follow_ok_f F \<longleftrightarrow> (\<forall>a x. F a = Some x \<longrightarrow>
     distinct (following x) \<and> distinct (followers x) \<and> a \<notin> set (following x) \<and>
     (\<forall>b \<in> set (following x). \<exists>y. F b = Some y \<and> a \<in> set (followers y)) \<and>
     (\<forall>b \<in> set (followers x). \<exists>y. F b = Some y \<and> a \<in> set (following y)))"

definition follow_ok :: "db \<Rightarrow> bool" where
  "follow_ok d \<longleftrightarrow> follow_ok_f (\<lambda>i. find_user d i)"

text \<open>The abstract follow graph: the relation \<open>(a, b)\<close>, ``\<open>a\<close> follows \<open>b\<close>'', read
  off the \<open>following\<close> lists, and the one read off the \<open>followers\<close> lists.\<close>

definition follows :: "db \<Rightarrow> (oid \<times> oid) set" where
  "follows d = (\<Union>x \<in> set (users d). Pair (uid x) ` set (following x))"

definition followed_by :: "db \<Rightarrow> (oid \<times> oid) set" where
  "followed_by d = (\<Union>x \<in> set (users d). (\<lambda>a. (a, uid x)) ` set (followers x))"

section \<open>Lemmas\<close>

lemma follow_ok_fD:
  "follow_ok_f F \<Longrightarrow> F a = Some x \<Longrightarrow>
     distinct (following x) \<and> distinct (followers x) \<and> a \<notin> set (following x) \<and>
     (\<forall>b \<in> set (following x). \<exists>y. F b = Some y \<and> a \<in> set (followers y)) \<and>
     (\<forall>b \<in> set (followers x). \<exists>y. F b = Some y \<and> a \<in> set (following y))"
  unfolding follow_ok_f_def by blast

lemma follow_ok_f_same_edges:
  assumes ok: "follow_ok_f F" and a: "F a = Some x"
    and e: "following x' = following x" "followers x' = followers x"
  shows "follow_ok_f (F(a \<mapsto> x'))"
  unfolding follow_ok_f_def
proof (intro allI impI)
  fix a' z assume z: "(F(a \<mapsto> x')) a' = Some z"
  define z0 where "z0 = (if a' = a then x else z)"
  have Fz0: "F a' = Some z0" and ez: "following z = following z0" "followers z = followers z0"
    using z a e by (auto simp: z0_def split: if_splits)
  have lift: "\<exists>y. (F(a \<mapsto> x')) b = Some y \<and> following y = following w \<and> followers y = followers w"
    if "F b = Some w" for b w
    using that a e by auto
  from follow_ok_fD [OF ok Fz0] ez show "distinct (following z) \<and> distinct (followers z) \<and>
     a' \<notin> set (following z) \<and>
     (\<forall>b \<in> set (following z). \<exists>y. (F(a \<mapsto> x')) b = Some y \<and> a' \<in> set (followers y)) \<and>
     (\<forall>b \<in> set (followers z). \<exists>y. (F(a \<mapsto> x')) b = Some y \<and> a' \<in> set (following y))"
    by (metis lift)
qed

text \<open>A follow edge from \<open>c\<close> to \<open>t\<close> recorded on both sides keeps the graph symmetric.\<close>

lemma follow_ok_f_follow:
  assumes ok: "follow_ok_f F" and c: "F c = Some cu" and t: "F t = Some tu" and ne: "t \<noteq> c"
    and new: "t \<notin> set (following cu)"
  shows "follow_ok_f (F(c \<mapsto> cu\<lparr>following := following cu @ [t]\<rparr>, t \<mapsto> tu\<lparr>followers := followers tu @ [c]\<rparr>))"
    (is "follow_ok_f ?F")
proof -
  have new': "c \<notin> set (followers tu)"
    using follow_ok_fD [OF ok t] c new by auto
  have lift: "\<exists>y. ?F b = Some y \<and> set (following w) \<subseteq> set (following y) \<and> set (followers w) \<subseteq> set (followers y)"
    if "F b = Some w" for b w
    using that c t by auto
  show ?thesis
    unfolding follow_ok_f_def
  proof (intro allI impI)
    fix a z assume z: "?F a = Some z"
    obtain z0 where Fz0: "F a = Some z0"
      and fo: "following z = following z0 @ (if a = c then [t] else [])"
      and fr: "followers z = followers z0 @ (if a = t then [c] else [])"
      using z c t ne by (cases "a = t"; cases "a = c") auto
    note P = follow_ok_fD [OF ok Fz0]
    have "distinct (following z)" using P fo c Fz0 new by auto
    moreover have "distinct (followers z)" using P fr t Fz0 new' by auto
    moreover have "a \<notin> set (following z)" using P fo ne by auto
    moreover have "\<exists>y. ?F b = Some y \<and> a \<in> set (followers y)" if "b \<in> set (following z)" for b
    proof (cases "a = c \<and> b = t")
      case True
      then show ?thesis using ne by simp
    next
      case False
      with that fo have "b \<in> set (following z0)" by (auto split: if_splits)
      with P obtain w where "F b = Some w" "a \<in> set (followers w)" by blast
      with lift show ?thesis by blast
    qed
    moreover have "\<exists>y. ?F b = Some y \<and> a \<in> set (following y)" if "b \<in> set (followers z)" for b
    proof (cases "a = t \<and> b = c")
      case True
      then show ?thesis using ne by simp
    next
      case False
      with that fr have "b \<in> set (followers z0)" by (auto split: if_splits)
      with P obtain w where "F b = Some w" "a \<in> set (following w)" by blast
      with lift show ?thesis by blast
    qed
    ultimately show "distinct (following z) \<and> distinct (followers z) \<and> a \<notin> set (following z) \<and>
      (\<forall>b \<in> set (following z). \<exists>y. ?F b = Some y \<and> a \<in> set (followers y)) \<and>
      (\<forall>b \<in> set (followers z). \<exists>y. ?F b = Some y \<and> a \<in> set (following y))" by blast
  qed
qed

text \<open>Removing the edge from \<open>c\<close> to \<open>t\<close> on both sides keeps the graph symmetric.\<close>

lemma follow_ok_f_unfollow:
  assumes ok: "follow_ok_f F" and c: "F c = Some cu" and t: "F t = Some tu"
    and old: "t \<in> set (following cu)"
  shows "follow_ok_f (F(c \<mapsto> cu\<lparr>following := remove_id t (following cu)\<rparr>,
                        t \<mapsto> tu\<lparr>followers := remove_id c (followers tu)\<rparr>))"
    (is "follow_ok_f ?F")
proof -
  have ne: "t \<noteq> c" using follow_ok_fD [OF ok c] old by auto
  have lift: "\<exists>y. ?F b = Some y \<and> set (following y) = set (following w) - (if b = c then {t} else {}) \<and>
      set (followers y) = set (followers w) - (if b = t then {c} else {})"
    if "F b = Some w" for b w
    using that c t ne by auto
  show ?thesis
    unfolding follow_ok_f_def
  proof (intro allI impI)
    fix a z assume z: "?F a = Some z"
    obtain z0 where Fz0: "F a = Some z0"
      and fo: "set (following z) = set (following z0) - (if a = c then {t} else {})"
      and fr: "set (followers z) = set (followers z0) - (if a = t then {c} else {})"
      and ds: "following z = following z0 \<or> following z = remove_id t (following z0)"
        "followers z = followers z0 \<or> followers z = remove_id c (followers z0)"
      using z c t ne by (cases "a = t"; cases "a = c") auto
    note P = follow_ok_fD [OF ok Fz0]
    have "distinct (following z)" "distinct (followers z)" using P ds by (auto simp: remove_id_distinct)
    moreover have "a \<notin> set (following z)" using P fo by auto
    moreover have "\<exists>y. ?F b = Some y \<and> a \<in> set (followers y)" if "b \<in> set (following z)" for b
    proof -
      from that fo have b: "b \<in> set (following z0)" "\<not> (a = c \<and> b = t)" by (auto split: if_splits)
      with P obtain w where w: "F b = Some w" "a \<in> set (followers w)" by blast
      from lift [OF w(1)] obtain y where y: "?F b = Some y"
        "set (followers y) = set (followers w) - (if b = t then {c} else {})" by blast
      with w(2) b(2) have "a \<in> set (followers y)" by (auto split: if_splits)
      with y(1) show ?thesis by blast
    qed
    moreover have "\<exists>y. ?F b = Some y \<and> a \<in> set (following y)" if "b \<in> set (followers z)" for b
    proof -
      from that fr have b: "b \<in> set (followers z0)" "\<not> (a = t \<and> b = c)" by (auto split: if_splits)
      with P obtain w where w: "F b = Some w" "a \<in> set (following w)" by blast
      from lift [OF w(1)] obtain y where y: "?F b = Some y"
        "set (following y) = set (following w) - (if b = c then {t} else {})" by blast
      with w(2) b(2) have "a \<in> set (following y)" by (auto split: if_splits)
      with y(1) show ?thesis by blast
    qed
    ultimately show "distinct (following z) \<and> distinct (followers z) \<and> a \<notin> set (following z) \<and>
      (\<forall>b \<in> set (following z). \<exists>y. ?F b = Some y \<and> a \<in> set (followers y)) \<and>
      (\<forall>b \<in> set (followers z). \<exists>y. ?F b = Some y \<and> a \<in> set (following y))" by blast
  qed
qed

lemma find_user_uid: "find_user d i = Some u \<Longrightarrow> uid u = i"
  by (auto dest: find_doc_SomeD)

text \<open>The two writes of a follow or unfollow: the acting user's document, then the other's.\<close>

lemma save_two_users:
  assumes wf: "db_wf d" and c: "find_user d c = Some cu" and t: "find_user d t = Some tu" and ne: "t \<noteq> c"
    and k: "uid cu' = c" "uid tu' = t"
  shows "db_wf (save_user tu' (save_user cu' d)) \<and>
    (\<lambda>i. find_user (save_user tu' (save_user cu' d)) i) = ((\<lambda>i. find_user d i)(c \<mapsto> cu', t \<mapsto> tu'))"
proof -
  have wf1: "db_wf (save_user cu' d)" by (rule db_wf_same_ids [OF wf]) (use c k in simp_all)
  have "find_user (save_user cu' d) (uid tu') = Some tu" using t k ne by simp
  then have "all_ids (save_user tu' (save_user cu' d)) = all_ids (save_user cu' d)"
    by (rule all_ids_save_user)
  then have "db_wf (save_user tu' (save_user cu' d))" by (rule db_wf_same_ids [OF wf1]) simp
  moreover have "(\<lambda>i. find_user (save_user tu' (save_user cu' d)) i) = ((\<lambda>i. find_user d i)(c \<mapsto> cu', t \<mapsto> tu'))"
    using k by (simp add: find_save_fun)
  ultimately show ?thesis by simp
qed

lemma followUser_inv:
  assumes "db_wf d" "follow_ok d"
  shows "db_wf (fst (followUser d p cur)) \<and> follow_ok (fst (followUser d p cur))"
proof (cases "\<exists>t tu cu. p = Some t \<and> t \<noteq> cur \<and> find_user d t = Some tu \<and> find_user d cur = Some cu \<and>
                t \<notin> set (following cu)")
  case True
  then obtain t tu cu where h: "p = Some t" "t \<noteq> cur" "find_user d t = Some tu" "find_user d cur = Some cu"
    "t \<notin> set (following cu)" by blast
  have k: "uid (cu\<lparr>following := following cu @ [t]\<rparr>) = cur" "uid (tu\<lparr>followers := followers tu @ [cur]\<rparr>) = t"
    using find_user_uid [OF h(3)] find_user_uid [OF h(4)] by simp_all
  note s = save_two_users [OF assms(1) h(4) h(3) h(2) k]
  have "follow_ok_f ((\<lambda>i. find_user d i)(cur \<mapsto> cu\<lparr>following := following cu @ [t]\<rparr>,
      t \<mapsto> tu\<lparr>followers := followers tu @ [cur]\<rparr>))"
    using assms(2) h by (intro follow_ok_f_follow) (simp_all add: follow_ok_def)
  with s h show ?thesis by (simp add: followUser_def follow_ok_def)
next
  case False
  with assms show ?thesis by (auto simp: followUser_def split: option.splits)
qed

lemma unfollowUser_inv:
  assumes "db_wf d" "follow_ok d"
  shows "db_wf (fst (unfollowUser d p cur)) \<and> follow_ok (fst (unfollowUser d p cur))"
proof (cases "\<exists>t tu cu. p = Some t \<and> find_user d t = Some tu \<and> find_user d cur = Some cu \<and>
                t \<in> set (following cu)")
  case True
  then obtain t tu cu where h: "p = Some t" "find_user d t = Some tu" "find_user d cur = Some cu"
    "t \<in> set (following cu)" by blast
  have ok: "follow_ok_f (\<lambda>i. find_user d i)" using assms(2) by (simp add: follow_ok_def)
  have ne: "t \<noteq> cur" using follow_ok_fD [OF ok h(3)] h(4) by auto
  have k: "uid (cu\<lparr>following := remove_id t (following cu)\<rparr>) = cur"
    "uid (tu\<lparr>followers := remove_id cur (followers tu)\<rparr>) = t"
    using find_user_uid [OF h(2)] find_user_uid [OF h(3)] by simp_all
  note s = save_two_users [OF assms(1) h(3) h(2) ne k]
  have "follow_ok_f ((\<lambda>i. find_user d i)(cur \<mapsto> cu\<lparr>following := remove_id t (following cu)\<rparr>,
      t \<mapsto> tu\<lparr>followers := remove_id cur (followers tu)\<rparr>))"
    using ok h by (intro follow_ok_f_unfollow) simp_all
  with s h show ?thesis by (simp add: unfollowUser_def follow_ok_def)
next
  case False
  with assms show ?thesis by (auto simp: unfollowUser_def split: option.splits)
qed

lemma updateUserProfile_inv:
  assumes "db_wf d" "follow_ok d"
  shows "db_wf (fst (updateUserProfile d p cur un bi img)) \<and> follow_ok (fst (updateUserProfile d p cur un bi img))"
proof (cases "\<exists>u. p = Some cur \<and> find_user d cur = Some u")
  case True
  then obtain u where h: "p = Some cur" "find_user d cur = Some u" by blast
  define u3 where "u3 = (let u1 = (if str_falsy un then u else u\<lparr>username := Some (js_trim (the un))\<rparr>);
      u2 = (if str_falsy bi then u1 else u1\<lparr>bio := js_trim (the bi)\<rparr>)
      in case img of None \<Rightarrow> u2 | Some url \<Rightarrow> u2\<lparr>profileImageUrl := Some url\<rparr>)"
  have e: "uid u3 = cur" "following u3 = following u" "followers u3 = followers u"
    using find_user_uid [OF h(2)] by (auto simp: u3_def Let_def split: option.splits)
  have "db_wf (save_user u3 d)" by (rule db_wf_same_ids [OF assms(1)]) (use h(2) e(1) in simp_all)
  moreover have "follow_ok (save_user u3 d)"
    using follow_ok_f_same_edges [of "\<lambda>i. find_user d i", OF _ h(2) e(2,3)] assms(2) e(1)
    by (simp add: follow_ok_def find_save_fun)
  moreover have "fst (updateUserProfile d p cur un bi img) \<in> {d, save_user u3 d}"
    using h by (simp add: updateUserProfile_def u3_def Let_def)
  ultimately show ?thesis using assms by auto
next
  case False
  with assms show ?thesis by (auto simp: updateUserProfile_def split: option.splits)
qed

lemma user_step_inv:
  "db_wf d \<Longrightarrow> follow_ok d \<Longrightarrow> db_wf (user_step d r) \<and> follow_ok (user_step d r)"
  by (cases r) (simp_all add: updateUserProfile_inv followUser_inv unfollowUser_inv)

lemma follows_find:
  "db_wf d \<Longrightarrow> (a, b) \<in> follows d \<longleftrightarrow> (\<exists>x. find_user d a = Some x \<and> b \<in> set (following x))"
  by (auto simp: follows_def db_wf_distinct_users find_doc_in_set dest: find_doc_SomeD)

lemma followed_by_find:
  "db_wf d \<Longrightarrow> (a, b) \<in> followed_by d \<longleftrightarrow> (\<exists>y. find_user d b = Some y \<and> a \<in> set (followers y))"
  by (auto simp: followed_by_def db_wf_distinct_users find_doc_in_set dest: find_doc_SomeD)

text \<open>On a symmetric graph the two readings agree.\<close>

lemma follow_ok_followed_by:
  assumes "db_wf d" "follow_ok d"
  shows "followed_by d = follows d"
proof -
  have ok: "follow_ok_f (\<lambda>i. find_user d i)" using assms(2) by (simp add: follow_ok_def)
  show ?thesis
  proof (intro set_eqI iffI)
    fix e assume "e \<in> followed_by d"
    then obtain a b y where e: "e = (a, b)" "find_user d b = Some y" "a \<in> set (followers y)"
      using followed_by_find [OF assms(1)] by (cases e) blast
    with follow_ok_fD [OF ok e(2)] show "e \<in> follows d" by (auto simp: follows_find [OF assms(1)])
  next
    fix e assume "e \<in> follows d"
    then obtain a b x where e: "e = (a, b)" "find_user d a = Some x" "b \<in> set (following x)"
      using follows_find [OF assms(1)] by (cases e) blast
    with follow_ok_fD [OF ok e(2)] show "e \<in> followed_by d" by (auto simp: followed_by_find [OF assms(1)])
  qed
qed

lemma follows_saved:
  assumes "db_wf d'" "(\<lambda>i. find_user d' i) = G"
  shows "follows d' = {(a, b). \<exists>x. G a = Some x \<and> b \<in> set (following x)}"
  using follows_find [OF assms(1)] assms(2) by (auto dest: fun_cong)

section \<open>Properties of the user controller\<close>


text \<open>C28. On a well-formed database with a symmetric graph, \<open>followUser\<close> and
  \<open>unfollowUser\<close> implement insertion and removal of one edge in the abstract relation
  \<open>follows\<close>: a successful follow adds (acting user, target), a successful unfollow removes
  it, and a refused request leaves the relation as it was.\<close>

theorem follow_graph_refinement:
  assumes wf: "db_wf d" and ok: "follow_ok d"
  shows "follows (fst (followUser d (Some t) c)) =
           (if snd (followUser d (Some t) c) = Inr () then insert (c, t) (follows d) else follows d) \<and>
         follows (fst (unfollowUser d (Some t) c)) =
           (if snd (unfollowUser d (Some t) c) = Inr () then follows d - {(c, t)} else follows d)"
proof
  show "follows (fst (followUser d (Some t) c)) =
           (if snd (followUser d (Some t) c) = Inr () then insert (c, t) (follows d) else follows d)"
  proof (cases "\<exists>tu cu. t \<noteq> c \<and> find_user d t = Some tu \<and> find_user d c = Some cu \<and> t \<notin> set (following cu)")
    case True
    then obtain tu cu where h: "t \<noteq> c" "find_user d t = Some tu" "find_user d c = Some cu"
      "t \<notin> set (following cu)" by blast
    have k: "uid (cu\<lparr>following := following cu @ [t]\<rparr>) = c" "uid (tu\<lparr>followers := followers tu @ [c]\<rparr>) = t"
      using find_user_uid [OF h(2)] find_user_uid [OF h(3)] by simp_all
    note s = save_two_users [OF wf h(3) h(2) h(1) k]
    have "follows (save_user (tu\<lparr>followers := followers tu @ [c]\<rparr>) (save_user (cu\<lparr>following := following cu @ [t]\<rparr>) d))
        = insert (c, t) (follows d)"
      using follows_saved [OF conjunct1 [OF s] conjunct2 [OF s]] follows_find [OF wf] h(1,2,3)
      by (auto split: if_splits)
    with h show ?thesis by (simp add: followUser_def)
  next
    case False
    then show ?thesis by (auto simp: followUser_def split: option.splits)
  qed
next
  show "follows (fst (unfollowUser d (Some t) c)) =
           (if snd (unfollowUser d (Some t) c) = Inr () then follows d - {(c, t)} else follows d)"
  proof (cases "\<exists>tu cu. find_user d t = Some tu \<and> find_user d c = Some cu \<and> t \<in> set (following cu)")
    case True
    then obtain tu cu where h: "find_user d t = Some tu" "find_user d c = Some cu"
      "t \<in> set (following cu)" by blast
    have "follow_ok_f (\<lambda>i. find_user d i)" using ok by (simp add: follow_ok_def)
    then have ne: "t \<noteq> c" using follow_ok_fD [of _ c cu] h(2,3) by auto
    have k: "uid (cu\<lparr>following := remove_id t (following cu)\<rparr>) = c"
      "uid (tu\<lparr>followers := remove_id c (followers tu)\<rparr>) = t"
      using find_user_uid [OF h(1)] find_user_uid [OF h(2)] by simp_all
    note s = save_two_users [OF wf h(2) h(1) ne k]
    have "follows (save_user (tu\<lparr>followers := remove_id c (followers tu)\<rparr>)
        (save_user (cu\<lparr>following := remove_id t (following cu)\<rparr>) d)) = follows d - {(c, t)}"
      using follows_saved [OF conjunct1 [OF s] conjunct2 [OF s]] follows_find [OF wf] h ne
      by (auto split: if_splits)
    with h show ?thesis by (simp add: unfollowUser_def)
  next
    case False
    then show ?thesis by (auto simp: unfollowUser_def split: option.splits)
  qed
qed


text \<open>C30. \<open>updateUserProfile\<close> accepts a username another user already has, which leaves
  two users with the same username: the uniqueness that confirmation enforces is lost.\<close>

theorem profile_update_takes_used_username:
  assumes wf: "db_wf d" and x: "find_user d c = Some x" and y: "find_user d v = Some y" and ne: "v \<noteq> c"
    and n: "username y = Some n" "n \<noteq> []" "js_trim n = n" and b: "length (bio x) \<le> 200"
  shows "\<exists>x'. updateUserProfile d (Some c) c (Some n) None None = (save_user x' d, Inr (x'\<lparr>password := None\<rparr>)) \<and>
           \<not> usernames_unique (save_user x' d)"
proof -
  let ?x = "x\<lparr>username := Some n\<rparr>"
  have run: "updateUserProfile d (Some c) c (Some n) None None = (save_user ?x d, Inr (?x\<lparr>password := None\<rparr>))"
    using x n b by (simp add: updateUserProfile_def Let_def)
  have ux: "uid x = c" and uy: "uid y = v" using find_user_uid x y by blast+
  have "?x \<in> set (users (save_user ?x d))" by simp
  moreover have "y \<in> set (users d)" using y by (auto dest: find_doc_SomeD)
  then have "y \<in> set (users (save_user ?x d))" using ux uy ne by (simp add: save_doc_keeps)
  ultimately have "\<not> usernames_unique (save_user ?x d)"
    using n ux uy ne unfolding usernames_unique_def by fastforce
  with run show ?thesis by blast
qed

end
