(* ===== verification/NotificationController.thy ===== *)
theory NotificationController
  imports Models
begin

text \<open>
  The notification controller, \<open>src/controllers/notificationController.js\<close>, over the
  schema of \<open>src/event_backend-main/models/Notification.js\<close>. \<open>createNotification\<close> is
  a helper no route or handler calls; the three handlers are restricted to the recipient.
  Timestamps grow with insertion, so \<open>createdAt\<close> descending is reverse insertion order.
\<close>

section \<open>Handlers\<close>

text \<open>The \<open>type\<close> enum of the schema.\<close>

definition parse_notif_type :: "string \<Rightarrow> notif_type option" where
  "parse_notif_type s =
     (if s = ''post_like'' then Some PostLike else if s = ''new_comment'' then Some NewComment
      else if s = ''follow'' then Some FollowNotif else if s = ''new_message'' then Some NewMessage
      else if s = ''event_reminder'' then Some EventReminder else None)"

text \<open>
  notificationController.js 4--22. The validators (recipient required, type in the enum,
  message required after \<open>trim\<close>) make \<open>save\<close> throw, which the helper turns into
  \<open>null\<close> without writing.
\<close>

definition createNotification ::
  "db \<Rightarrow> oid option \<Rightarrow> oid option \<Rightarrow> string \<Rightarrow> string option \<Rightarrow> oid option \<Rightarrow> db \<times> notification option" where
  "createNotification d rcp sdr ty msg rel =
     (case (rcp, parse_notif_type ty, map_option js_trim msg) of
        (Some r, Some t, Some m) \<Rightarrow>
          if m = [] then (d, None)
          else
            (let (i, d0) = new_oid d;
                 n = \<lparr>notif_id = i, recipient = r, nsender = sdr, ntype = t, nmessage = m,
                      relatedEntityId = rel, isRead = False\<rparr>
             in (d0\<lparr>notifications := save_doc notif_id n (notifications d0)\<rparr>, Some n))
      | _ \<Rightarrow> (d, None))"

text \<open>notificationController.js 25--36: the caller's notifications, newest first.\<close>

definition getNotifications :: "db \<Rightarrow> oid \<Rightarrow> notification list result" where
  "getNotifications d cur = Inr (rev (filter (\<lambda>n. recipient n = cur) (notifications d)))"

abbreviation find_notification :: "db \<Rightarrow> oid \<Rightarrow> notification option" where
  "find_notification d i \<equiv> find_doc notif_id i (notifications d)"

text \<open>notificationController.js 39--63.\<close>

definition markNotificationAsRead :: "db \<Rightarrow> oid \<Rightarrow> oid \<Rightarrow> db \<times> notification result" where
  "markNotificationAsRead d nid cur =
     (case find_notification d nid of
        None \<Rightarrow> (d, Inl (HttpErr 404 ''Notification not found.''))
      | Some n \<Rightarrow>
          if recipient n \<noteq> cur then (d, Inl (HttpErr 403 ''Unauthorized: Not your notification.''))
          else
            (let n' = n\<lparr>isRead := True\<rparr>
             in (d\<lparr>notifications := save_doc notif_id n' (notifications d)\<rparr>, Inr n')))"

text \<open>notificationController.js 66--88.\<close>

definition deleteNotification :: "db \<Rightarrow> oid \<Rightarrow> oid \<Rightarrow> db \<times> unit result" where
  "deleteNotification d nid cur =
     (case find_notification d nid of
        None \<Rightarrow> (d, Inl (HttpErr 404 ''Notification not found.''))
      | Some n \<Rightarrow>
          if recipient n \<noteq> cur then (d, Inl (HttpErr 403 ''Unauthorized: Not your notification.''))
          else (d\<lparr>notifications := delete_doc notif_id nid (notifications d)\<rparr>, Inr ()))"

section \<open>Lemmas\<close>

lemma db_wf_filter_notifications:
  "db_wf d \<Longrightarrow> db_wf (d\<lparr>notifications := filter P (notifications d)\<rparr>)"
  by (auto simp: db_wf_def all_ids_def distinct_map_filter)

lemma createNotification_Some:
  assumes "createNotification d rcp sdr ty msg rel = (d', Some n)"
  shows "rcp = Some (recipient n) \<and> notif_id n = next_oid d \<and> \<not> isRead n \<and>
         d' = d\<lparr>next_oid := Suc (next_oid d), notifications := save_doc notif_id n (notifications d)\<rparr>"
  using assms
  by (auto simp: createNotification_def new_oid_def Let_def split: option.splits if_splits)

lemma createNotification_db_wf:
  assumes "db_wf d" "createNotification d rcp sdr ty msg rel = (d', r)"
  shows "db_wf d'"
proof (cases r)
  case None
  with assms(2) have "d' = d"
    by (cases rcp; cases "parse_notif_type ty"; cases msg)
      (auto simp: createNotification_def new_oid_def Let_def split: if_splits)
  with assms(1) show ?thesis by simp
next
  case (Some n)
  note c = createNotification_Some [OF assms(2) [unfolded Some]]
  have "notif_id n \<notin> notif_id ` set (notifications d)"
    using db_wf_fresh [OF assms(1)] c by (auto simp: all_ids_def)
  then have app: "save_doc notif_id n (notifications d) = notifications d @ [n]" by (rule save_doc_new)
  have m: "mset (all_ids d') = add_mset (next_oid d) (mset (all_ids d))"
    using c app by (simp add: all_ids_def)
  show ?thesis by (rule db_wf_grow [OF assms(1) m]) (use c in simp)
qed

section \<open>Properties of the notification controller\<close>

text \<open>C31. Only the recipient may mark a notification as read or delete it: anyone else gets
  403 and the database is unchanged.\<close>

theorem notification_recipient_only:
  assumes "find_notification d nid = Some n" "recipient n \<noteq> cur"
  shows "markNotificationAsRead d nid cur = (d, Inl (HttpErr 403 ''Unauthorized: Not your notification.'')) \<and>
         deleteNotification d nid cur = (d, Inl (HttpErr 403 ''Unauthorized: Not your notification.''))"
  using assms by (simp add: markNotificationAsRead_def deleteNotification_def)

text \<open>C32. A notification created for a recipient heads that recipient's listing, in front of
  the notifications listed before, unread.\<close>

theorem notification_create_list_roundtrip:
  assumes "db_wf d" "createNotification d (Some r) sdr ty msg rel = (d', Some n)"
  shows "\<exists>ns. getNotifications d r = Inr ns \<and> getNotifications d' r = Inr (n # ns) \<and>
              recipient n = r \<and> \<not> isRead n"
proof -
  note c = createNotification_Some [OF assms(2)]
  have "notif_id n \<notin> notif_id ` set (notifications d)"
    using db_wf_fresh [OF assms(1)] c by (auto simp: all_ids_def)
  then have "save_doc notif_id n (notifications d) = notifications d @ [n]" by (rule save_doc_new)
  with c show ?thesis by (simp add: getNotifications_def)
qed

text \<open>C33. A notification its recipient deletes disappears from the recipient's listing, the
  others staying in order, and the database stays well formed.\<close>

theorem delete_notification_unlists:
  assumes "db_wf d" "deleteNotification d nid cur = (d', Inr ())"
  shows "db_wf d' \<and> (\<exists>ns. getNotifications d cur = Inr ns \<and>
           getNotifications d' cur = Inr (filter (\<lambda>n. notif_id n \<noteq> nid) ns) \<and>
           (\<exists>n \<in> set ns. notif_id n = nid))"
proof -
  obtain n where n: "find_notification d nid = Some n" "recipient n = cur"
    "d' = d\<lparr>notifications := delete_doc notif_id nid (notifications d)\<rparr>"
    using assms(2) by (auto simp: deleteNotification_def split: option.splits if_splits)
  have "n \<in> set (notifications d)" "notif_id n = nid" using n(1) by (auto dest: find_doc_SomeD)
  with n assms(1) show ?thesis
    by (auto simp: getNotifications_def delete_doc_def rev_filter filter_filter conj_commute
        db_wf_filter_notifications)
qed

end
