(* ===== verification/CommentController.thy ===== *)
theory CommentController
  imports Models
begin

text \<open>
  The comment controller, \<open>src/event_backend-main/controllers/commentController.js\<close>.
  The \<open>Comment\<close> model it requires is not among the sources; its fields are those the
  controller writes (\<^typ>\<open>comment\<close> in \<^theory_text>\<open>Models\<close>). Creating a comment is two writes: the
  comment, then an atomic \<open>$inc\<close> of the post's \<open>commentCount\<close>, which does nothing
  when no post has the id.
\<close>

section \<open>Handlers\<close>

text \<open>commentController.js 4--15: the comments of a post, newest first.\<close>

definition getCommentsByPost :: "db \<Rightarrow> oid \<Rightarrow> comment list result" where
  "getCommentsByPost d p = Inr (rev (filter (\<lambda>c. cpost c = p) (comments d)))"

text \<open>
  commentController.js 17--46. \<open>protect\<close> always sets \<open>req.user.id\<close>, so the 401
  branch is not reachable behind it and the acting user is an \<^typ>\<open>oid\<close>.
\<close>

definition createComment :: "db \<Rightarrow> oid \<Rightarrow> oid \<Rightarrow> string option \<Rightarrow> db \<times> comment result" where
  "createComment d p cur cnt =
     (if str_falsy cnt then (d, Inl (HttpErr 400 ''Content is required''))
      else
        (let (i, d0) = new_oid d;
             c = \<lparr>comment_id = i, ccontent = the cnt, cpost = p, cauthor = cur\<rparr>;
             d1 = d0\<lparr>comments := save_doc comment_id c (comments d0)\<rparr>;
             d2 = (case find_post d1 p of
                     None \<Rightarrow> d1
                   | Some po \<Rightarrow> save_post (po\<lparr>commentCount := commentCount po + 1\<rparr>) d1)
         in (d2, Inr c)))"

section \<open>Lemmas\<close>

lemma comment_appended:
  "db_wf d \<Longrightarrow> save_doc comment_id \<lparr>comment_id = next_oid d, ccontent = s, cpost = p, cauthor = u\<rparr> (comments d) =
     comments d @ [\<lparr>comment_id = next_oid d, ccontent = s, cpost = p, cauthor = u\<rparr>]"
  by (rule save_doc_new) (use db_wf_fresh in \<open>auto simp: all_ids_def\<close>)

lemma createComment_ok:
  assumes "db_wf d" "createComment d p cur cnt = (d', Inr c)"
  shows "\<not> str_falsy cnt \<and> c = \<lparr>comment_id = next_oid d, ccontent = the cnt, cpost = p, cauthor = cur\<rparr> \<and>
    d' = (case find_post d p of
            None \<Rightarrow> d\<lparr>next_oid := Suc (next_oid d), comments := comments d @ [\<lparr>comment_id = next_oid d, ccontent = the cnt, cpost = p, cauthor = cur\<rparr>]\<rparr>
          | Some po \<Rightarrow> save_post (po\<lparr>commentCount := commentCount po + 1\<rparr>)
                         (d\<lparr>next_oid := Suc (next_oid d), comments := comments d @ [\<lparr>comment_id = next_oid d, ccontent = the cnt, cpost = p, cauthor = cur\<rparr>]\<rparr>))"
proof -
  have nf: "\<not> str_falsy cnt" using assms(2) by (auto simp: createComment_def split: if_splits)
  let ?c = "\<lparr>comment_id = next_oid d, ccontent = the cnt, cpost = p, cauthor = cur\<rparr>"
  have "createComment d p cur cnt =
     (case find_post d p of
        None \<Rightarrow> d\<lparr>next_oid := Suc (next_oid d), comments := comments d @ [?c]\<rparr>
      | Some po \<Rightarrow> save_post (po\<lparr>commentCount := commentCount po + 1\<rparr>)
                     (d\<lparr>next_oid := Suc (next_oid d), comments := comments d @ [?c]\<rparr>), Inr ?c)"
    using nf comment_appended [OF assms(1)]
    by (simp add: createComment_def new_oid_def Let_def split: option.split)
  with assms(2) have "d' = (case find_post d p of
        None \<Rightarrow> d\<lparr>next_oid := Suc (next_oid d), comments := comments d @ [?c]\<rparr>
      | Some po \<Rightarrow> save_post (po\<lparr>commentCount := commentCount po + 1\<rparr>)
                     (d\<lparr>next_oid := Suc (next_oid d), comments := comments d @ [?c]\<rparr>))" "c = ?c"
    by simp_all
  with nf show ?thesis by simp
qed

section \<open>Properties of the comment controller\<close>

text \<open>C34. A comment on an existing post raises the post's \<open>commentCount\<close> by one and heads
  the post's comment listing.\<close>

theorem comment_counts_on_post:
  assumes "db_wf d" "find_post d p = Some po" "createComment d p cur cnt = (d', Inr c)"
  shows "find_post d' p = Some (po\<lparr>commentCount := commentCount po + 1\<rparr>) \<and>
         (\<exists>cs. getCommentsByPost d p = Inr cs \<and> getCommentsByPost d' p = Inr (c # cs))"
proof -
  note ok = createComment_ok [OF assms(1,3)]
  have pp: "pid po = p" using assms(2) by (auto dest: find_doc_SomeD)
  from ok assms(2) pp show ?thesis by (simp add: getCommentsByPost_def)
qed

text \<open>C35. A comment on an id that names no post is stored anyway, attached to that id, and no
  post changes: the handler never checks that the post exists.\<close>

theorem comment_on_missing_post_stored:
  assumes "db_wf d" "find_post d p = None" "s \<noteq> []"
  shows "\<exists>c d'. createComment d p cur (Some s) = (d', Inr c) \<and> cpost c = p \<and>
           c \<in> set (comments d') \<and> posts d' = posts d"
  using assms by (simp add: createComment_def new_oid_def comment_appended Let_def)

end
