(* ===== verification/System.thy ===== *)
theory System
  imports ChatController Auth PostController UserController NotificationController CommentController
begin

text \<open>
  The whole server as one state machine: the database and the Socket.IO gateway, and one
  step per request of any component (HTTP handlers behind \<open>protect\<close>, socket connection
  and events). Read-only requests are left out: they change no state. The acting user of an
  HTTP request and the user of a handshake token are whatever the client sends, except
  that a token the server signed names a user it created (tokens are only issued by
  \<open>generateToken\<close> at confirmation and login, and users are never deleted); this is the
  guard of the two steps whose effect depends on it. The theory proves that one invariant,
  the conjunction of the components' invariants, holds after any sequence of requests, and
  that every stored message stays well formed: of its schema's type, in a stored chat its
  sender takes part in.
\<close>

section \<open>Requests and the system step\<close>

datatype request =
    Register "string option" nat time
  | Verify "string option" "string option" "string option" "string option" "string option" time
  | PostReq post_req
  | UserReq user_req
  | JoinChat oid oid
  | Connect "token option" time
  | Disconnect nat
  | SendMessage nat send_data
  | CreateComment oid oid "string option"
  | MarkRead oid oid
  | DeleteNotification oid oid

type_synonym sys_state = "db \<times> gateway"

fun sys_step :: "sys_state \<Rightarrow> request \<Rightarrow> sys_state" where
  "sys_step (d, g) (Register em r now) = (fst (registerUser d em r now), g)"
| "sys_step (d, g) (Verify em c un pw ut now) = (fst (verifyOtpAndRegister d em c un pw ut now), g)"
| "sys_step (d, g) (PostReq r) = (post_step d r, g)"
| "sys_step (d, g) (UserReq r) = (user_step d r, g)"
| "sys_step (d, g) (JoinChat p u) =
     (if find_user d u = None then (d, g)
      else (case joinPostGroupChat d g p u of (d', g', _) \<Rightarrow> (d', g')))"
| "sys_step (d, g) (Connect tok now) =
     (if token_of_user d tok now then (d, fst (io_connect d g tok now)) else (d, g))"
| "sys_step (d, g) (Disconnect i) = (d, io_disconnect i g)"
| "sys_step (d, g) (SendMessage i data) =
     (case List.find (\<lambda>s. sock_id s = i) (sockets g) of
        None \<Rightarrow> (d, g)
      | Some s \<Rightarrow> (fst (socket_sendMessage d g s data), g))"
| "sys_step (d, g) (CreateComment p u c) = (fst (createComment d p u c), g)"
| "sys_step (d, g) (MarkRead n u) = (fst (markNotificationAsRead d n u), g)"
| "sys_step (d, g) (DeleteNotification n u) = (fst (deleteNotification d n u), g)"

section \<open>The system invariant\<close>

text \<open>Over a lookup of users by id: emails identify users, and a verified user has no
  pending code, a password and a username.\<close>

definition users_ok_f :: "(oid \<Rightarrow> user option) \<Rightarrow> bool" where
  "users_ok_f F \<longleftrightarrow>
     (\<forall>a b x y. F a = Some x \<longrightarrow> F b = Some y \<longrightarrow> email x = email y \<longrightarrow> a = b) \<and>
     (\<forall>a x. F a = Some x \<longrightarrow> isVerified x \<longrightarrow> otp x = None \<and> password x \<noteq> None \<and> username x \<noteq> None)"

definition sys_inv :: "sys_state \<Rightarrow> bool" where
  "sys_inv s \<longleftrightarrow> (case s of (d, g) \<Rightarrow>
     db_wf d \<and> users_ok_f (\<lambda>i. find_user d i) \<and> posts_ok d \<and> follow_ok d \<and> gw_inv d g)"

text \<open>A user's identity is kept when the email stays and any verified state is one the
  user already had.\<close>

definition user_kept :: "user \<Rightarrow> user \<Rightarrow> bool" where
  "user_kept x x' \<longleftrightarrow> email x' = email x \<and>
     (isVerified x' \<longrightarrow> isVerified x \<and> otp x' = otp x \<and> password x' = password x \<and>
        (username x \<noteq> None \<longrightarrow> username x' \<noteq> None))"

text \<open>Every stored message passes the \<open>Message\<close> schema (a text message has
  content) and was written by a participant of a stored chat.\<close>

definition msgs_ok :: "db \<Rightarrow> bool" where
  "msgs_ok d \<longleftrightarrow> (\<forall>m \<in> set (messages d).
     content_valid (mtype m) (content m) \<and> chat m \<in> user_chat_rooms d (sender m))"

section \<open>Preservation of the system invariant\<close>

subsection \<open>The user invariant over lookups\<close>

lemma user_lookup_save:
  "(\<lambda>i. find_user (save_user u d) i) = (\<lambda>i. find_user d i)(uid u \<mapsto> u)"
  by (simp add: find_save_fun)

lemma users_ok_fD1: "users_ok_f F \<Longrightarrow> F a = Some x \<Longrightarrow> F b = Some y \<Longrightarrow> email x = email y \<Longrightarrow> a = b"
  unfolding users_ok_f_def by blast

lemma users_ok_fD2:
  "users_ok_f F \<Longrightarrow> F a = Some x \<Longrightarrow> isVerified x \<Longrightarrow> otp x = None \<and> password x \<noteq> None \<and> username x \<noteq> None"
  unfolding users_ok_f_def by blast

lemma users_ok_fI:
  assumes "\<And>a b x y. F a = Some x \<Longrightarrow> F b = Some y \<Longrightarrow> email x = email y \<Longrightarrow> a = b"
    "\<And>a x. F a = Some x \<Longrightarrow> isVerified x \<Longrightarrow> otp x = None \<and> password x \<noteq> None \<and> username x \<noteq> None"
  shows "users_ok_f F"
  using assms unfolding users_ok_f_def by blast

lemma users_ok_f_kept:
  assumes ok: "users_ok_f F"
    and kept: "\<And>a x'. F' a = Some x' \<Longrightarrow> \<exists>x. F a = Some x \<and> user_kept x x'"
  shows "users_ok_f F'"
proof (rule users_ok_fI)
  fix a b x' y' assume a: "F' a = Some x'" and b: "F' b = Some y'" and e: "email x' = email y'"
  from kept [OF a] obtain x where x: "F a = Some x" "email x' = email x" by (auto simp: user_kept_def)
  from kept [OF b] obtain y where y: "F b = Some y" "email y' = email y" by (auto simp: user_kept_def)
  show "a = b" by (rule users_ok_fD1 [OF ok x(1) y(1)]) (use x y e in simp)
next
  fix a x' assume a: "F' a = Some x'" and v: "isVerified x'"
  from kept [OF a] obtain x where x: "F a = Some x" "user_kept x x'" by blast
  with v have "isVerified x" by (simp add: user_kept_def)
  with users_ok_fD2 [OF ok x(1)] x(2) v show "otp x' = None \<and> password x' \<noteq> None \<and> username x' \<noteq> None"
    by (simp add: user_kept_def)
qed

lemma users_ok_f_upd:
  assumes ok: "users_ok_f F" and a: "F a = Some x" and e: "email x' = email x"
    and v: "isVerified x' \<Longrightarrow> otp x' = None \<and> password x' \<noteq> None \<and> username x' \<noteq> None"
  shows "users_ok_f (F(a \<mapsto> x'))"
proof (rule users_ok_fI)
  fix b c y z assume y: "(F(a \<mapsto> x')) b = Some y" and z: "(F(a \<mapsto> x')) c = Some z" and yz: "email y = email z"
  obtain y0 where y0: "F b = Some y0" "email y0 = email y" using y a e by (cases "b = a") auto
  obtain z0 where z0: "F c = Some z0" "email z0 = email z" using z a e by (cases "c = a") auto
  show "b = c" by (rule users_ok_fD1 [OF ok y0(1) z0(1)]) (use y0 z0 yz in simp)
next
  fix b y assume y: "(F(a \<mapsto> x')) b = Some y" and vy: "isVerified y"
  show "otp y = None \<and> password y \<noteq> None \<and> username y \<noteq> None"
  proof (cases "b = a")
    case True with y v vy show ?thesis by simp
  next
    case False with y vy users_ok_fD2 [OF ok] show ?thesis by simp
  qed
qed

lemma users_ok_f_new:
  assumes ok: "users_ok_f F" and a: "F a = None" and e: "\<And>b y. F b = Some y \<Longrightarrow> email y \<noteq> email x'"
    and v: "\<not> isVerified x'"
  shows "users_ok_f (F(a \<mapsto> x'))"
proof (rule users_ok_fI)
  fix b c y z assume y: "(F(a \<mapsto> x')) b = Some y" and z: "(F(a \<mapsto> x')) c = Some z" and yz: "email y = email z"
  show "b = c"
  proof (cases "b = a"; cases "c = a")
    assume "b = a" "c \<noteq> a" with y z yz e show ?thesis by force
  next
    assume "b \<noteq> a" "c = a" with y z yz e show ?thesis by force
  next
    assume "b \<noteq> a" "c \<noteq> a"
    with y z have "F b = Some y" "F c = Some z" by simp_all
    from users_ok_fD1 [OF ok this yz] show ?thesis .
  qed simp
next
  fix b y assume y: "(F(a \<mapsto> x')) b = Some y" and vy: "isVerified y"
  show "otp y = None \<and> password y \<noteq> None \<and> username y \<noteq> None"
  proof (cases "b = a")
    case True with y v vy show ?thesis by simp
  next
    case False with y vy users_ok_fD2 [OF ok] show ?thesis by simp
  qed
qed

lemma follow_ok_f_new:
  assumes ok: "follow_ok_f F" and a: "F a = None" and e: "following x' = []" "followers x' = []"
  shows "follow_ok_f (F(a \<mapsto> x'))"
  unfolding follow_ok_f_def
proof (intro allI impI)
  fix b z assume z: "(F(a \<mapsto> x')) b = Some z"
  show "distinct (following z) \<and> distinct (followers z) \<and> b \<notin> set (following z) \<and>
     (\<forall>c \<in> set (following z). \<exists>y. (F(a \<mapsto> x')) c = Some y \<and> b \<in> set (followers y)) \<and>
     (\<forall>c \<in> set (followers z). \<exists>y. (F(a \<mapsto> x')) c = Some y \<and> b \<in> set (following y))"
  proof (cases "b = a")
    case True
    with z e show ?thesis by simp
  next
    case False
    with z have Fz: "F b = Some z" by simp
    note P = follow_ok_fD [OF ok Fz]
    have Fc: "(F(a \<mapsto> x')) c = Some w" if "F c = Some w" for c w using that a by auto
    from P show ?thesis by (blast intro: Fc)
  qed
qed

text \<open>The gateway invariant only reads which users exist and the chats.\<close>

lemma gw_inv_users_grow:
  assumes "gw_inv d g" "chats d' = chats d" "\<forall>i. find_user d i \<noteq> None \<longrightarrow> find_user d' i \<noteq> None"
  shows "gw_inv d' g"
  using assms user_chat_rooms_cong [OF assms(2)] by (simp add: gw_inv_def)

subsection \<open>Steps that keep the users\<close>

lemma posts_ok_users [simp]: "posts_ok (d\<lparr>users := us\<rparr>) = posts_ok d"
  by (simp add: posts_ok_def)

lemma posts_ok_next_oid [simp]: "posts_ok (d\<lparr>next_oid := n\<rparr>) = posts_ok d"
  by (simp add: posts_ok_def)

lemma find_user_next_oid [simp]: "find_user (d\<lparr>next_oid := n\<rparr>) i = find_user d i"
  by simp

text \<open>The system invariant after a step that keeps the users.\<close>

lemma sys_inv_same_users:
  assumes "sys_inv (d, g)" "users d' = users d" "db_wf d'" "posts_ok d'" "gw_inv d' g'"
  shows "sys_inv (d', g')"
  using assms by (simp add: sys_inv_def follow_ok_def)

text \<open>The system invariant after saving one existing user with the same id, email and
  edges, in a state its verified flag allows.\<close>

lemma sys_inv_save_user:
  assumes inv: "sys_inv (d, g)" and u: "find_user d i = Some u"
    and k: "uid u' = i" "email u' = email u" "following u' = following u" "followers u' = followers u"
    and v: "isVerified u' \<Longrightarrow> otp u' = None \<and> password u' \<noteq> None \<and> username u' \<noteq> None"
  shows "sys_inv (save_user u' d, g)"
proof -
  have wf: "db_wf d" and uo: "users_ok_f (\<lambda>i. find_user d i)" and po: "posts_ok d"
    and fo: "follow_ok d" and gw: "gw_inv d g" using inv by (simp_all add: sys_inv_def)
  have look: "(\<lambda>j. find_user (save_user u' d) j) = (\<lambda>j. find_user d j)(i \<mapsto> u')"
    using user_lookup_save [of u' d] k(1) by simp
  have "find_user d (uid u') = Some u" using u k(1) by simp
  then have "all_ids (save_user u' d) = all_ids d" by (rule all_ids_save_user)
  then have "db_wf (save_user u' d)" by (rule db_wf_same_ids [OF wf]) simp
  moreover have "users_ok_f (\<lambda>j. find_user (save_user u' d) j)"
    unfolding look using uo u k(2) v by (rule users_ok_f_upd)
  moreover have "follow_ok (save_user u' d)"
    using follow_ok_f_same_edges [of "\<lambda>j. find_user d j", OF _ u k(3,4)] fo look
    by (simp add: follow_ok_def)
  moreover have "gw_inv (save_user u' d) g"
    by (rule gw_inv_users_grow [OF gw]) (use u look in \<open>simp_all add: fun_eq_iff\<close>)
  ultimately show ?thesis using po by (simp add: sys_inv_def)
qed

text \<open>The system invariant after inserting a fresh, unverified user with a new email and no
  edges.\<close>

lemma sys_inv_new_user:
  assumes inv: "sys_inv (d, g)" and k: "uid u' = next_oid d" "following u' = []" "followers u' = []"
    and e: "\<And>j y. find_user d j = Some y \<Longrightarrow> email y \<noteq> email u'" and v: "\<not> isVerified u'"
  shows "sys_inv (save_user u' (d\<lparr>next_oid := Suc (next_oid d)\<rparr>), g)"
proof -
  let ?d = "save_user u' (d\<lparr>next_oid := Suc (next_oid d)\<rparr>)"
  have wf: "db_wf d" and uo: "users_ok_f (\<lambda>i. find_user d i)" and po: "posts_ok d"
    and fo: "follow_ok d" and gw: "gw_inv d g" using inv by (simp_all add: sys_inv_def)
  have fresh: "uid u' \<notin> uid ` set (users d)" using db_wf_fresh [OF wf] k(1) by (auto simp: all_ids_def)
  then have none: "find_user d (next_oid d) = None" using k(1) by (simp add: find_doc_None_iff)
  have look: "(\<lambda>j. find_user ?d j) = (\<lambda>j. find_user d j)(next_oid d \<mapsto> u')"
    using k(1) by (simp add: find_save_fun)
  have "users ?d = users d @ [u']" using fresh by (simp add: save_doc_new)
  then have "mset (all_ids ?d) = add_mset (next_oid d) (mset (all_ids d))" using k(1) by (simp add: all_ids_def)
  then have "db_wf ?d" by (rule db_wf_grow [OF wf]) simp
  moreover have "users_ok_f (\<lambda>j. find_user ?d j)"
    unfolding look using uo none e v by (rule users_ok_f_new)
  moreover have "follow_ok ?d"
    using follow_ok_f_new [of "\<lambda>j. find_user d j", OF _ none k(2,3)] fo look by (simp add: follow_ok_def)
  moreover have "gw_inv ?d g"
    by (rule gw_inv_users_grow [OF gw]) (use look in \<open>simp_all add: fun_eq_iff\<close>)
  ultimately show ?thesis using po by (simp add: sys_inv_def)
qed

lemma posts_ok_cong: "posts d' = posts d \<Longrightarrow> posts_ok d' = posts_ok d"
  by (simp add: posts_ok_def)

text \<open>A step that keeps users and chats: only well-formedness and the post invariant are left
  to show.\<close>

lemma sys_inv_frame:
  assumes inv: "sys_inv (d, g)" and fr: "users d' = users d" "chats d' = chats d"
    and wf: "db_wf d'" and po: "posts_ok d'"
  shows "sys_inv (d', g)"
proof -
  have "gw_inv d g" using inv by (simp add: sys_inv_def)
  then have "gw_inv d' g" by (rule gw_inv_users_grow) (use fr in simp_all)
  then show ?thesis by (rule sys_inv_same_users [OF inv fr(1) wf po])
qed

lemma post_step_frame: "users (post_step d r) = users d \<and> chats (post_step d r) = chats d"
proof (cases r)
  case (CreatePost u ti de ie edt loc urls now)
  then show ?thesis by (simp add: createPost_def new_oid_def Let_def)
next
  case (UpdatePost p u ti de ie edt loc clr urls)
  then show ?thesis by (simp add: updatePost_def Let_def split: option.split)
next
  case (DeletePost p u)
  then show ?thesis by (simp add: deletePost_def split: option.split)
next
  case (TogglePostInterest p u now)
  then show ?thesis by (simp add: togglePostInterest_def Let_def split: option.split)
next
  case (MarkAttendance p u now)
  then show ?thesis by (simp add: markAttendance_def Let_def split: option.split)
next
  case (TogglePostAttendance p u)
  then show ?thesis by (simp add: togglePostAttendance_def Let_def split: option.split)
next
  case (JoinInterestGroup p u)
  then show ?thesis by (simp add: joinInterestGroup_def)
qed

lemma sys_inv_post_step:
  assumes inv: "sys_inv (d, g)"
  shows "sys_inv (post_step d r, g)"
proof -
  have "db_wf d" "posts_ok d" using inv by (simp_all add: sys_inv_def)
  then have "db_wf (post_step d r) \<and> posts_ok (post_step d r)" by (rule post_step_inv)
  then show ?thesis by (rule_tac sys_inv_frame [OF inv]) (use post_step_frame [of d r] in simp_all)
qed

lemma sendMessage_frame:
  "socket_sendMessage d g s data = (d', evs) \<Longrightarrow> users d' = users d \<and> posts d' = posts d"
  by (erule sendMessage_cases) simp_all

lemma sys_inv_sendMessage:
  assumes inv: "sys_inv (d, g)" and run: "socket_sendMessage d g s data = (d', evs)"
  shows "sys_inv (d', g)"
proof -
  have wf: "db_wf d'" using sendMessage_db_wf [OF run] inv by (simp add: sys_inv_def)
  have gw: "gw_inv d' g" using gw_inv_sendMessage [OF run] inv by (simp add: sys_inv_def)
  have fr: "users d' = users d" "posts d' = posts d" using sendMessage_frame [OF run] by simp_all
  have "posts_ok d'" using inv fr(2) by (simp add: sys_inv_def posts_ok_def)
  then show ?thesis by (rule sys_inv_same_users [OF inv fr(1) wf _ gw])
qed

lemma sys_inv_markRead:
  assumes inv: "sys_inv (d, g)"
  shows "sys_inv (fst (markNotificationAsRead d n u), g)"
proof (cases "find_notification d n")
  case None
  with inv show ?thesis by (simp add: markNotificationAsRead_def)
next
  case (Some x)
  let ?d = "d\<lparr>notifications := save_doc notif_id (x\<lparr>isRead := True\<rparr>) (notifications d)\<rparr>"
  have wf: "db_wf d" and po: "posts_ok d" using inv by (simp_all add: sys_inv_def)
  have "notif_id x = n" using Some by (auto dest: find_doc_SomeD)
  then have "map notif_id (save_doc notif_id (x\<lparr>isRead := True\<rparr>) (notifications d)) = map notif_id (notifications d)"
    using Some by (intro map_key_save_found) simp
  then have wf': "db_wf ?d" using wf by (simp add: db_wf_def all_ids_def)
  have "sys_inv (?d, g)" by (rule sys_inv_frame [OF inv]) (use po wf' in \<open>simp_all add: posts_ok_def\<close>)
  with inv Some show ?thesis by (simp add: markNotificationAsRead_def Let_def)
qed

lemma sys_inv_deleteNotification:
  assumes inv: "sys_inv (d, g)"
  shows "sys_inv (fst (deleteNotification d n u), g)"
proof -
  let ?d = "d\<lparr>notifications := delete_doc notif_id n (notifications d)\<rparr>"
  have wf: "db_wf d" and po: "posts_ok d" using inv by (simp_all add: sys_inv_def)
  have wf': "db_wf ?d" using wf by (simp add: delete_doc_def db_wf_filter_notifications)
  have "sys_inv (?d, g)" by (rule sys_inv_frame [OF inv]) (use po wf' in \<open>simp_all add: posts_ok_def\<close>)
  moreover have "fst (deleteNotification d n u) \<in> {d, ?d}"
    by (simp add: deleteNotification_def split: option.split)
  ultimately show ?thesis using inv by auto
qed

lemma sys_inv_comment:
  assumes inv: "sys_inv (d, g)"
  shows "sys_inv (fst (createComment d p u c), g)"
proof (cases "snd (createComment d p u c)")
  case (Inl e)
  then have "fst (createComment d p u c) = d"
    by (auto simp: createComment_def new_oid_def Let_def split: if_splits)
  with inv show ?thesis by simp
next
  case (Inr cm)
  have wf: "db_wf d" and po: "posts_ok d" using inv by (simp_all add: sys_inv_def)
  let ?cm = "\<lparr>comment_id = next_oid d, ccontent = the c, cpost = p, cauthor = u\<rparr>"
  let ?d1 = "d\<lparr>next_oid := Suc (next_oid d), comments := comments d @ [?cm]\<rparr>"
  have run: "createComment d p u c = (fst (createComment d p u c), Inr cm)" using Inr by (metis prod.collapse)
  note ok = createComment_ok [OF wf run]
  have "mset (all_ids ?d1) = add_mset (next_oid d) (mset (all_ids d))" by (simp add: all_ids_def)
  then have wf1: "db_wf ?d1" by (rule db_wf_grow [OF wf]) simp
  have po1: "posts_ok ?d1" using po by (simp add: posts_ok_def)
  show ?thesis
  proof (cases "find_post d p")
    case None
    with ok have "fst (createComment d p u c) = ?d1" by simp
    with wf1 po1 show ?thesis by (simp add: sys_inv_frame [OF inv])
  next
    case (Some x)
    have "find_post ?d1 p = Some x" using Some by simp
    moreover have "pid (x\<lparr>commentCount := commentCount x + 1\<rparr>) = pid x" by simp
    moreover have "post_ok (x\<lparr>commentCount := commentCount x + 1\<rparr>)"
      using posts_ok_find [OF po Some] by (simp add: post_ok_def)
    ultimately have "db_wf (save_post (x\<lparr>commentCount := commentCount x + 1\<rparr>) ?d1) \<and>
        posts_ok (save_post (x\<lparr>commentCount := commentCount x + 1\<rparr>) ?d1)"
      by (intro save_fetched_post [OF wf1 po1]) simp_all
    moreover have "fst (createComment d p u c) = save_post (x\<lparr>commentCount := commentCount x + 1\<rparr>) ?d1"
      using ok Some by simp
    ultimately show ?thesis by (simp add: sys_inv_frame [OF inv])
  qed
qed

subsection \<open>Steps that change users\<close>

lemma find_user_member: "db_wf d \<Longrightarrow> u \<in> set (users d) \<Longrightarrow> find_user d (uid u) = Some u"
  by (simp add: db_wf_distinct_users find_doc_in_set)

lemma sys_inv_register:
  assumes inv: "sys_inv (d, g)"
  shows "sys_inv (fst (registerUser d em r now), g)"
proof (cases "\<exists>e. em = Some e \<and> e \<noteq> []")
  case False
  then have "fst (registerUser d em r now) = d" by (auto simp: registerUser_def split: option.splits)
  with inv show ?thesis by simp
next
  case True
  then obtain e where e: "em = Some e" "e \<noteq> []" by blast
  have wf: "db_wf d" using inv by (simp add: sys_inv_def)
  show ?thesis
  proof (cases "find_by_email d e")
    case None
    let ?u = "new_user (next_oid d) e (dec_string r) (now + otp_lifetime)"
    have run: "fst (registerUser d em r now) = save_user ?u (d\<lparr>next_oid := Suc (next_oid d)\<rparr>)"
      using e None by (simp add: registerUser_def new_oid_def)
    have em: "email y \<noteq> email ?u" if "find_user d j = Some y" for j y
      using None that by (auto simp: find_by_email_def find_None_iff new_user_def dest: find_doc_SomeD)
    have "sys_inv (save_user ?u (d\<lparr>next_oid := Suc (next_oid d)\<rparr>), g)"
      by (rule sys_inv_new_user [OF inv _ _ _ em]) (simp_all add: new_user_def)
    with run show ?thesis by simp
  next
    case (Some u)
    have mem: "u \<in> set (users d)" using find_by_email_mem [OF Some] by simp
    let ?u = "u\<lparr>otp := Some (dec_string r), otpExpires := Some (now + otp_lifetime)\<rparr>"
    have "fst (registerUser d em r now) = (if isVerified u then d else save_user ?u d)"
      using e Some by (simp add: registerUser_def)
    moreover have "\<not> isVerified u \<Longrightarrow> sys_inv (save_user ?u d, g)"
      by (rule sys_inv_save_user [OF inv find_user_member [OF wf mem]]) simp_all
    ultimately show ?thesis using inv by simp
  qed
qed

lemma sys_inv_verify:
  assumes inv: "sys_inv (d, g)"
  shows "sys_inv (fst (verifyOtpAndRegister d em c un pw ut now), g)"
proof (cases "\<exists>u. find_by_email d (the em) = Some u \<and> \<not> isVerified u \<and>
              \<not> (str_falsy em \<or> str_falsy c \<or> str_falsy un \<or> str_falsy pw \<or> str_falsy ut) \<and>
              ut \<in> {Some ''personal'', Some ''corporate''}")
  case False
  then have "fst (verifyOtpAndRegister d em c un pw ut now) = d"
    by (auto simp: verifyOtpAndRegister_def split: option.splits if_splits)
  with inv show ?thesis by simp
next
  case True
  then obtain u where u: "find_by_email d (the em) = Some u" "\<not> isVerified u"
    and ok: "\<not> (str_falsy em \<or> str_falsy c \<or> str_falsy un \<or> str_falsy pw \<or> str_falsy ut)"
      "ut \<in> {Some ''personal'', Some ''corporate''}" by blast
  have wf: "db_wf d" using inv by (simp add: sys_inv_def)
  have f: "find_user d (uid u) = Some u" using find_by_email_mem [OF u(1)] find_user_member [OF wf] by simp
  let ?u1 = "u\<lparr>otp := None, otpExpires := None\<rparr>"
  let ?u2 = "u\<lparr>username := Some (js_trim (the un)), password := Some (Bcrypt (the pw)),
              isVerified := True, otp := None, otpExpires := None\<rparr>"
  have "fst (verifyOtpAndRegister d em c un pw ut now) \<in> {d, save_user ?u1 d, save_user ?u2 d}"
    by (simp add: verify_unverified [OF ok u])
  moreover have "sys_inv (save_user ?u1 d, g)"
    by (rule sys_inv_save_user [OF inv f]) (simp_all add: u(2))
  moreover have "sys_inv (save_user ?u2 d, g)"
    by (rule sys_inv_save_user [OF inv f]) simp_all
  ultimately show ?thesis using inv by auto
qed

lemma sys_inv_kept:
  assumes inv: "sys_inv (d, g)" and wf: "db_wf d'" and fo: "follow_ok d'"
    and fr: "posts d' = posts d" "chats d' = chats d"
    and kept: "\<And>a x'. find_user d' a = Some x' \<Longrightarrow> \<exists>x. find_user d a = Some x \<and> user_kept x x'"
    and grow: "\<And>a. find_user d a \<noteq> None \<Longrightarrow> find_user d' a \<noteq> None"
  shows "sys_inv (d', g)"
proof -
  have uo: "users_ok_f (\<lambda>i. find_user d i)" and po: "posts_ok d" and gw: "gw_inv d g"
    using inv by (simp_all add: sys_inv_def)
  have "users_ok_f (\<lambda>i. find_user d' i)" by (rule users_ok_f_kept [OF uo]) (rule kept)
  moreover have "gw_inv d' g" by (rule gw_inv_users_grow [OF gw fr(2)]) (use grow in blast)
  moreover have "posts_ok d'" using po fr(1) by (simp add: posts_ok_def)
  ultimately show ?thesis using wf fo by (simp add: sys_inv_def)
qed

lemma user_kept_refl [simp]: "user_kept x x"
  by (simp add: user_kept_def)

lemma user_kept_edges [simp]:
  "user_kept x (x\<lparr>following := f\<rparr>)" "user_kept x (x\<lparr>followers := f\<rparr>)"
  by (simp_all add: user_kept_def)

lemma sys_inv_two_users:
  assumes inv: "sys_inv (d, g)" and c: "find_user d c = Some cu" and t: "find_user d t = Some tu"
    and ne: "t \<noteq> c" and k: "uid cu' = c" "uid tu' = t" "user_kept cu cu'" "user_kept tu tu'"
    and fo: "follow_ok (save_user tu' (save_user cu' d))"
  shows "sys_inv (save_user tu' (save_user cu' d), g)"
proof -
  have wf: "db_wf d" using inv by (simp add: sys_inv_def)
  note s = save_two_users [OF wf c t ne k(1,2)]
  have look: "find_user (save_user tu' (save_user cu' d)) a = ((\<lambda>i. find_user d i)(c \<mapsto> cu', t \<mapsto> tu')) a" for a
    using conjunct2 [OF s] by (metis (no_types))
  show ?thesis
  proof (rule sys_inv_kept [OF inv conjunct1 [OF s] fo])
    fix a x' assume "find_user (save_user tu' (save_user cu' d)) a = Some x'"
    then have "((\<lambda>i. find_user d i)(c \<mapsto> cu', t \<mapsto> tu')) a = Some x'" using look [of a] by simp
    then show "\<exists>x. find_user d a = Some x \<and> user_kept x x'"
      using c t k(3,4) by (cases "a = t"; cases "a = c") auto
  next
    fix a assume "find_user d a \<noteq> None"
    then show "find_user (save_user tu' (save_user cu' d)) a \<noteq> None" using look [of a] by simp
  qed simp_all
qed

lemma sys_inv_follow:
  assumes inv: "sys_inv (d, g)"
  shows "sys_inv (fst (followUser d p cur), g)"
proof (cases "\<exists>t tu cu. p = Some t \<and> t \<noteq> cur \<and> find_user d t = Some tu \<and> find_user d cur = Some cu \<and>
                t \<notin> set (following cu)")
  case True
  then obtain t tu cu where h: "p = Some t" "t \<noteq> cur" "find_user d t = Some tu" "find_user d cur = Some cu"
    "t \<notin> set (following cu)" by blast
  have fo: "follow_ok (fst (followUser d p cur))"
    using followUser_inv [of d p cur] inv by (simp add: sys_inv_def)
  have "sys_inv (save_user (tu\<lparr>followers := followers tu @ [cur]\<rparr>) (save_user (cu\<lparr>following := following cu @ [t]\<rparr>) d), g)"
    using h fo find_user_uid [OF h(3)] find_user_uid [OF h(4)]
    by (intro sys_inv_two_users [OF inv h(4) h(3) h(2)]) (simp_all add: followUser_def)
  with h show ?thesis by (simp add: followUser_def)
next
  case False
  then have "fst (followUser d p cur) = d" by (auto simp: followUser_def split: option.splits)
  with inv show ?thesis by simp
qed

lemma sys_inv_unfollow:
  assumes inv: "sys_inv (d, g)"
  shows "sys_inv (fst (unfollowUser d p cur), g)"
proof (cases "\<exists>t tu cu. p = Some t \<and> find_user d t = Some tu \<and> find_user d cur = Some cu \<and>
                t \<in> set (following cu)")
  case True
  then obtain t tu cu where h: "p = Some t" "find_user d t = Some tu" "find_user d cur = Some cu"
    "t \<in> set (following cu)" by blast
  have "follow_ok_f (\<lambda>i. find_user d i)" using inv by (simp add: sys_inv_def follow_ok_def)
  then have ne: "t \<noteq> cur" using follow_ok_fD [of _ cur cu] h(3,4) by auto
  have fo: "follow_ok (fst (unfollowUser d p cur))"
    using unfollowUser_inv [of d p cur] inv by (simp add: sys_inv_def)
  have "sys_inv (save_user (tu\<lparr>followers := remove_id cur (followers tu)\<rparr>)
      (save_user (cu\<lparr>following := remove_id t (following cu)\<rparr>) d), g)"
    using h fo find_user_uid [OF h(2)] find_user_uid [OF h(3)]
    by (intro sys_inv_two_users [OF inv h(3) h(2) ne]) (simp_all add: unfollowUser_def)
  with h show ?thesis by (simp add: unfollowUser_def)
next
  case False
  then have "fst (unfollowUser d p cur) = d" by (auto simp: unfollowUser_def split: option.splits)
  with inv show ?thesis by simp
qed

lemma sys_inv_updateProfile:
  assumes inv: "sys_inv (d, g)"
  shows "sys_inv (fst (updateUserProfile d p cur un bi img), g)"
proof (cases "\<exists>u. p = Some cur \<and> find_user d cur = Some u")
  case True
  then obtain u where h: "p = Some cur" "find_user d cur = Some u" by blast
  define u3 where "u3 = (let u1 = (if str_falsy un then u else u\<lparr>username := Some (js_trim (the un))\<rparr>);
      u2 = (if str_falsy bi then u1 else u1\<lparr>bio := js_trim (the bi)\<rparr>)
      in case img of None \<Rightarrow> u2 | Some url \<Rightarrow> u2\<lparr>profileImageUrl := Some url\<rparr>)"
  have uo: "users_ok_f (\<lambda>i. find_user d i)" using inv by (simp add: sys_inv_def)
  have u3: "uid u3 = uid u" "email u3 = email u" "following u3 = following u" "followers u3 = followers u"
    "isVerified u3 = isVerified u" "otp u3 = otp u" "password u3 = password u"
    "username u3 \<noteq> None \<or> username u3 = username u"
    by (auto simp: u3_def Let_def split: option.splits)
  have "sys_inv (save_user u3 d, g)"
  proof (rule sys_inv_save_user [OF inv h(2)])
    assume "isVerified u3"
    with u3 users_ok_fD2 [OF uo h(2)]
    show "otp u3 = None \<and> password u3 \<noteq> None \<and> username u3 \<noteq> None" by auto
  qed (use u3 find_user_uid [OF h(2)] in simp_all)
  moreover have "fst (updateUserProfile d p cur un bi img) \<in> {d, save_user u3 d}"
    using h by (simp add: updateUserProfile_def u3_def Let_def)
  ultimately show ?thesis using inv by auto
next
  case False
  then have "fst (updateUserProfile d p cur un bi img) = d"
    by (auto simp: updateUserProfile_def split: option.splits)
  with inv show ?thesis by simp
qed

subsection \<open>The gateway steps and the whole step\<close>

lemma sys_inv_join:
  assumes inv: "sys_inv (d, g)" and u: "find_user d u \<noteq> None"
    and run: "joinPostGroupChat d g p u = (d', g', r)"
  shows "sys_inv (d', g')"
proof -
  have wf: "db_wf d" and gw: "gw_inv d g" and po: "posts_ok d" using inv by (simp_all add: sys_inv_def)
  have j: "db_wf d' \<and> gw_inv d' g'" by (rule join_gw_inv [OF wf gw u run])
  have fr: "posts d' = posts d" "users d' = users d" using join_frame [OF run] by simp_all
  have "posts_ok d'" using po fr(1) by (simp add: posts_ok_def)
  with j show ?thesis by (intro sys_inv_same_users [OF inv fr(2)]) simp_all
qed

lemma sys_inv_gateway:
  assumes inv: "sys_inv (d, g)" and gw: "gw_inv d g'"
  shows "sys_inv (d, g')"
  using inv gw by (simp add: sys_inv_def)

lemma sys_inv_empty: "sys_inv (empty_db, empty_gateway)"
  using db_wf_empty gw_inv_empty [of empty_db]
  by (simp add: sys_inv_def users_ok_f_def posts_ok_def follow_ok_def follow_ok_f_def, simp add: empty_db_def)

lemma sys_inv_user_step: "sys_inv (d, g) \<Longrightarrow> sys_inv (user_step d r, g)"
  by (cases r) (simp_all add: sys_inv_follow sys_inv_unfollow sys_inv_updateProfile)

lemma sys_step_inv: "sys_inv s \<Longrightarrow> sys_inv (sys_step s r)"
proof (cases s)
  case (Pair d g)
  assume inv0: "sys_inv s"
  then have inv: "sys_inv (d, g)" using Pair by simp
  have gw: "gw_inv d g" using inv by (simp add: sys_inv_def)
  show ?thesis
  proof (cases r)
    case (JoinChat p u)
    show ?thesis
    proof (cases "find_user d u = None")
      case False
      obtain d' g' x where run: "joinPostGroupChat d g p u = (d', g', x)" by (metis prod.exhaust)
      have "sys_step s r = (d', g')" by (simp add: Pair JoinChat run False)
      with sys_inv_join [OF inv False run] show ?thesis by simp
    next
      case True
      with inv Pair JoinChat show ?thesis by simp
    qed
  next
    case (Connect tok now)
    then show ?thesis
      using Pair inv sys_inv_gateway [OF inv gw_inv_connect [OF gw]] by simp
  next
    case (Disconnect i)
    then show ?thesis using Pair sys_inv_gateway [OF inv gw_inv_disconnect [OF gw]] by simp
  next
    case (SendMessage i data)
    show ?thesis
    proof (cases "List.find (\<lambda>s. sock_id s = i) (sockets g)")
      case (Some so)
      obtain d' evs where run: "socket_sendMessage d g so data = (d', evs)" by (metis prod.exhaust)
      with sys_inv_sendMessage [OF inv run] SendMessage Pair Some show ?thesis by simp
    qed (use inv Pair SendMessage in simp)
  qed (use inv Pair sys_inv_register sys_inv_verify sys_inv_post_step sys_inv_comment sys_inv_markRead
          sys_inv_deleteNotification sys_inv_user_step in simp_all)
qed

lemma foldl_sys_inv: "sys_inv s \<Longrightarrow> sys_inv (foldl sys_step s rs)"
  by (induction rs arbitrary: s) (simp_all add: sys_step_inv)

subsection \<open>The message invariant\<close>

lemma sendMessage_refused_keeps_db:
  assumes "find_chat d (chatRoomId data) = Some c" "sock_user s \<in> set (participants c)"
    "\<not> (\<exists>t. data_type data = Some t \<and> content_valid t (map_option js_trim (sd_content data)))"
  shows "fst (socket_sendMessage d g s data) = d"
  using assms by (cases "data_type data") (simp_all add: socket_sendMessage_def Let_def)

lemma sendMessage_shapes:
  assumes run: "socket_sendMessage d g s data = (d', evs)"
  shows "d' = d \<or> (\<exists>c t. find_chat d (chatRoomId data) = Some c \<and> sock_user s \<in> set (participants c) \<and>
     content_valid t (map_option js_trim (sd_content data)) \<and>
     d' = save_chat (c\<lparr>lastMessage := Some (next_oid d)\<rparr>)
            (d\<lparr>next_oid := Suc (next_oid d), messages := save_doc msg_id
               (new_message (next_oid d) (chatRoomId data) (sock_user s) (map_option js_trim (sd_content data))
                  (map_option js_trim (sd_mediaUrl data)) t) (messages d)\<rparr>))"
  using run
proof (cases rule: sendMessage_cases)
  case rejected
  then show ?thesis by simp
next
  case (sent c m v)
  show ?thesis
  proof (cases "\<exists>t. data_type data = Some t \<and> content_valid t (map_option js_trim (sd_content data))")
    case True
    then obtain t where t: "data_type data = Some t" "content_valid t (map_option js_trim (sd_content data))"
      by blast
    have "d' = fst (socket_sendMessage d g s data)" using run by simp
    also have "\<dots> = save_chat (c\<lparr>lastMessage := Some (next_oid d)\<rparr>)
            (d\<lparr>next_oid := Suc (next_oid d), messages := save_doc msg_id
               (new_message (next_oid d) (chatRoomId data) (sock_user s) (map_option js_trim (sd_content data))
                  (map_option js_trim (sd_mediaUrl data)) t) (messages d)\<rparr>)"
      using sendMessage_ok [OF sent(1,2) t, of g] by (simp add: Let_def)
    finally show ?thesis using sent(1,2) t(2) by blast
  next
    case False
    have "d' = fst (socket_sendMessage d g s data)" using run by simp
    then show ?thesis using sendMessage_refused_keeps_db [OF sent(1,2) False] by simp
  qed
qed

lemma msgs_ok_mono:
  assumes ok: "msgs_ok d" and ms: "messages d' = messages d"
    and mono: "\<And>v. user_chat_rooms d v \<subseteq> user_chat_rooms d' v"
  shows "msgs_ok d'"
  unfolding msgs_ok_def ms
proof
  fix m assume "m \<in> set (messages d)"
  with ok have "content_valid (mtype m) (content m)" "chat m \<in> user_chat_rooms d (sender m)"
    by (simp_all add: msgs_ok_def)
  with mono show "content_valid (mtype m) (content m) \<and> chat m \<in> user_chat_rooms d' (sender m)" by blast
qed

lemma msgs_ok_snoc:
  assumes ok: "msgs_ok d" and ms: "messages d' = messages d @ [m]"
    and mono: "\<And>v. user_chat_rooms d v \<subseteq> user_chat_rooms d' v"
    and m: "content_valid (mtype m) (content m)" "chat m \<in> user_chat_rooms d' (sender m)"
  shows "msgs_ok d'"
  unfolding msgs_ok_def ms
proof
  fix x assume "x \<in> set (messages d @ [m])"
  then consider "x \<in> set (messages d)" | "x = m" by auto
  then show "content_valid (mtype x) (content x) \<and> chat x \<in> user_chat_rooms d' (sender x)"
  proof cases
    case 1
    with ok have "content_valid (mtype x) (content x)" "chat x \<in> user_chat_rooms d (sender x)"
      by (simp_all add: msgs_ok_def)
    with mono show ?thesis by blast
  qed (use m in simp)
qed

lemma msgs_ok_frame: "msgs_ok d \<Longrightarrow> messages d' = messages d \<Longrightarrow> chats d' = chats d \<Longrightarrow> msgs_ok d'"
  by (erule msgs_ok_mono) (simp_all add: user_chat_rooms_def)

lemma msgs_ok_join:
  assumes ok: "msgs_ok d" and wf: "db_wf d" and run: "joinPostGroupChat d g p u = (d1, g1, r)"
  shows "msgs_ok d1"
proof (cases r)
  case (Inl e)
  with run join_error have "d1 = d" by blast
  with ok show ?thesis by simp
next
  case (Inr c)
  have "\<forall>v. user_chat_rooms d v \<subseteq> user_chat_rooms d1 v" using join_rooms_mono [OF run [unfolded Inr] wf] by blast
  moreover have "messages d1 = messages d" using join_frame [OF run] by simp
  ultimately show ?thesis using ok by (blast intro: msgs_ok_mono)
qed

lemma msgs_ok_send:
  assumes ok: "msgs_ok d" and wf: "db_wf d" and run: "socket_sendMessage d g s data = (d', evs)"
  shows "msgs_ok d'"
  using sendMessage_shapes [OF run]
proof
  assume "d' = d" with ok show ?thesis by simp
next
  let ?m = "\<lambda>t. new_message (next_oid d) (chatRoomId data) (sock_user s) (map_option js_trim (sd_content data))
                  (map_option js_trim (sd_mediaUrl data)) t"
  assume "\<exists>c t. find_chat d (chatRoomId data) = Some c \<and> sock_user s \<in> set (participants c) \<and>
     content_valid t (map_option js_trim (sd_content data)) \<and>
     d' = save_chat (c\<lparr>lastMessage := Some (next_oid d)\<rparr>)
            (d\<lparr>next_oid := Suc (next_oid d), messages := save_doc msg_id (?m t) (messages d)\<rparr>)"
  then obtain c t where c: "find_chat d (chatRoomId data) = Some c" "sock_user s \<in> set (participants c)"
    and v: "content_valid t (map_option js_trim (sd_content data))"
    and d': "d' = save_chat (c\<lparr>lastMessage := Some (next_oid d)\<rparr>)
            (d\<lparr>next_oid := Suc (next_oid d), messages := save_doc msg_id (?m t) (messages d)\<rparr>)"
    by blast
  have cid: "chat_id c = chatRoomId data" using c(1) by (auto dest: find_doc_SomeD)
  have "next_oid d \<notin> msg_id ` set (messages d)" using wf by (auto simp: db_wf_def all_ids_def)
  then have msgs: "messages d' = messages d @ [?m t]" using d' by (simp add: save_doc_new new_message_def)
  have d'c: "d' = (d\<lparr>next_oid := Suc (next_oid d), messages := save_doc msg_id (?m t) (messages d)\<rparr>)
      \<lparr>chats := save_doc chat_id (c\<lparr>lastMessage := Some (next_oid d)\<rparr>) (chats d)\<rparr>"
    using d' by simp
  have fc: "find_chat d (chat_id (c\<lparr>lastMessage := Some (next_oid d)\<rparr>)) = Some c" using c(1) cid by simp
  have mono: "user_chat_rooms d v \<subseteq> user_chat_rooms d' v" for v
    unfolding d'c by (rule user_chat_rooms_mono_save [OF wf fc]) simp
  have "chatRoomId data \<in> user_chat_rooms d (sock_user s)"
    using c cid by (auto simp: user_chat_rooms_iff dest: find_doc_SomeD)
  then have "chatRoomId data \<in> user_chat_rooms d' (sock_user s)" using mono by blast
  then show ?thesis using msgs_ok_snoc [OF ok msgs mono] v by (simp add: new_message_def)
qed

lemma register_frame: "messages (fst (registerUser d em r now)) = messages d \<and> chats (fst (registerUser d em r now)) = chats d"
  by (simp add: registerUser_def Let_def new_oid_def split: option.splits)

lemma verify_frame:
  "messages (fst (verifyOtpAndRegister d em c un pw ut now)) = messages d \<and>
   chats (fst (verifyOtpAndRegister d em c un pw ut now)) = chats d"
  by (simp add: verifyOtpAndRegister_def Let_def split: option.splits)

lemma post_step_msgs: "messages (post_step d r) = messages d"
  by (cases r) (simp_all add: createPost_def updatePost_def deletePost_def togglePostInterest_def
      markAttendance_def togglePostAttendance_def joinInterestGroup_def new_oid_def Let_def split: option.splits)

lemma user_step_frame: "messages (user_step d r) = messages d \<and> chats (user_step d r) = chats d"
  by (cases r) (simp_all add: updateUserProfile_def followUser_def unfollowUser_def Let_def split: option.splits)

lemma comment_frame: "messages (fst (createComment d p u c)) = messages d \<and> chats (fst (createComment d p u c)) = chats d"
  by (simp add: createComment_def Let_def new_oid_def split: option.splits)

lemma notification_frame:
  "messages (fst (markNotificationAsRead d n u)) = messages d \<and> chats (fst (markNotificationAsRead d n u)) = chats d \<and>
   messages (fst (deleteNotification d n u)) = messages d \<and> chats (fst (deleteNotification d n u)) = chats d"
  by (simp add: markNotificationAsRead_def deleteNotification_def Let_def split: option.splits)

lemma msgs_ok_step:
  assumes inv: "sys_inv (d, g)" and ok: "msgs_ok d"
  shows "msgs_ok (fst (sys_step (d, g) r))"
proof -
  have wf: "db_wf d" using inv by (simp add: sys_inv_def)
  show ?thesis
  proof (cases r)
    case (JoinChat p u)
    obtain d' g' x where run: "joinPostGroupChat d g p u = (d', g', x)" by (metis prod.exhaust)
    show ?thesis using msgs_ok_join [OF ok wf run] ok run JoinChat by simp
  next
    case (SendMessage i data)
    show ?thesis
    proof (cases "List.find (\<lambda>s. sock_id s = i) (sockets g)")
      case (Some so)
      obtain d' evs where run: "socket_sendMessage d g so data = (d', evs)" by (metis prod.exhaust)
      show ?thesis using msgs_ok_send [OF ok wf run] run SendMessage Some by simp
    qed (use ok SendMessage in simp)
  next
    case (PostReq q)
    then show ?thesis using ok post_step_msgs [of d q] post_step_frame [of d q] by (simp add: msgs_ok_frame)
  qed (use ok register_frame verify_frame user_step_frame comment_frame notification_frame in
       \<open>simp_all add: msgs_ok_frame\<close>)
qed

lemma foldl_msgs_ok: "sys_inv s \<Longrightarrow> msgs_ok (fst s) \<Longrightarrow> msgs_ok (fst (foldl sys_step s rs))"
proof (induction rs arbitrary: s)
  case (Cons r rs)
  obtain d g where s: "s = (d, g)" by (cases s)
  have "sys_inv (sys_step s r)" using Cons.prems(1) by (rule sys_step_inv)
  moreover have "msgs_ok (fst (sys_step s r))" using msgs_ok_step Cons.prems s by simp
  ultimately show ?case using Cons.IH by simp
qed simp

section \<open>Properties of the whole system\<close>


text \<open>C39. Whatever sequence of requests the server handles from the empty state, every
  stored message satisfies the \<open>Message\<close> schema's type rule (a text message has
  non-empty content) and refers to a stored chat in which its sender is a participant.\<close>

theorem stored_messages_well_formed:
  "\<forall>m \<in> set (messages (fst (foldl sys_step (empty_db, empty_gateway) rs))).
     content_valid (mtype m) (content m) \<and>
     (\<exists>c \<in> set (chats (fst (foldl sys_step (empty_db, empty_gateway) rs))).
        chat_id c = chat m \<and> sender m \<in> set (participants c))"
proof -
  have "msgs_ok (fst (empty_db, empty_gateway))" by (simp add: msgs_ok_def empty_db_def)
  then have "msgs_ok (fst (foldl sys_step (empty_db, empty_gateway) rs))"
    by (rule foldl_msgs_ok [OF sys_inv_empty])
  then show ?thesis by (simp add: msgs_ok_def user_chat_rooms_iff)
qed

text \<open>C40. In every state the server reaches from the empty state, a \<open>receiveMessage\<close>
  emitted by a send goes only to a live connection whose user is a participant of the
  message's chat: the gateway's delivery guarantee needs no assumption on reachable
  states.\<close>

theorem reachable_sends_reach_participants:
  assumes "foldl sys_step (empty_db, empty_gateway) rs = (d, g)"
    "socket_sendMessage d g s data = (d', evs)" "(i, ReceiveMessage m v) \<in> set evs"
  shows "\<exists>s' \<in> set (sockets g). sock_id s' = i \<and>
           (\<exists>c \<in> set (chats d'). chat_id c = chat m \<and> sock_user s' \<in> set (participants c))"
proof -
  have "sys_inv (d, g)" using foldl_sys_inv [OF sys_inv_empty, of rs] assms(1) by simp
  then have "db_wf d" "gw_inv d g" by (simp_all add: sys_inv_def)
  then show ?thesis using assms(2,3) by (rule sendMessage_receivers)
qed

end
