(* ===== verification/Spec2Isabelle.thy ===== *)
theory Spec2Isabelle
  imports LegacyAuth System
begin

text \<open>
  \<^bold>\<open>A verification library for the event-management backend.\<close>

  The program (\<open>src/\<close>) is an Express/Mongoose HTTP API with a Socket.IO gateway in
  the same process. Its parts and how they interact:
  \<^item> the document store (\<open>src/models\<close>, \<open>src/event_backend-main/models\<close>): users,
    posts with their interest and attendance lists, chats, messages, notifications,
    comments;
  \<^item> the auth service (\<open>controllers/authController.js\<close>, \<open>middleware/authMiddleware.js\<close>):
    OTP registration, login, JWT issue and check;
  \<^item> the real-time gateway (\<open>src/server.js\<close>): handshake authentication, the rooms a
    connection joins, the \<open>sendMessage\<close> handler that persists and broadcasts;
  \<^item> the HTTP controllers (posts, users, chats, notifications, comments). The chat
    controller and the gateway share the chat store, and \<open>joinPostGroupChat\<close> calls
    back into the gateway (\<open>io.in(userId).socketsJoin\<close>).

  \<^bold>\<open>Theories.\<close> Each imports the ones it calls; this theory imports them all.
  \<^item> \<open>Prelude\<close>: ids and time, HTTP errors, JavaScript truthiness and \<open>trim\<close>, and a
    Mongoose collection as a list of documents with \<open>find_doc\<close>, \<open>save_doc\<close>,
    \<open>delete_doc\<close> and the lemma collection \<open>doc_store\<close>.
  \<^item> \<open>Models\<close>: one record per schema, the database record \<open>db\<close> with its id allocator
    \<open>next_oid\<close>, the library primitives the code calls (\<open>bcrypt\<close> as a perfect
    hash, \<open>jwt.verify\<close> as expiry check of a signed token), and \<open>db_wf\<close>: all ids
    distinct across collections and below the allocator.
  \<^item> \<open>Gateway\<close> (server.js): connections (\<open>socket\<close>: id, user, rooms), \<open>io_connect\<close>
    (44--71), \<open>io_disconnect\<close> (108--110), \<open>sockets_join\<close>, \<open>io_to_emit\<close>, and
    \<open>socket_sendMessage\<close> (74--106) returning the new database and the emitted
    (connection, event) pairs. Invariant \<open>gw_inv\<close>: connections belong to registered
    users and sit only in their personal room or rooms of chats their user takes part
    in. C1--C3: outsiders are refused, delivery reaches only participants, a send is
    persisted and broadcast once per connection in the room.
  \<^item> \<open>ChatController\<close>: \<open>joinPostGroupChat\<close> over database and gateway together,
    \<open>getUserChats\<close>, \<open>getGroupMessages\<close>, \<open>getChatByPostId\<close>, \<open>sendGroupMessage\<close>.
    C4--C9: joining is idempotent, keeps one membership and the gateway invariant, leaves
    the author unsubscribed and duplicates a self-joining author (both defects of the
    code), and history grows by appending. C37--C38: the chat list is the participant
    query newest first, and it is exactly the set of rooms a new connection joins.
  \<^item> \<open>Auth\<close> (controllers/authController.js, middleware/authMiddleware.js): registration
    request, OTP confirmation, login, \<open>getAuthUser\<close>, \<open>protect\<close>; the inductive
    \<open>auth_reach\<close> of states reachable by the two registration handlers. C10--C16.
  \<^item> \<open>LegacyAuth\<close>: the unmounted copy under \<open>event_backend-main\<close>, proved equivalent to
    the mounted confirmation (C17).
  \<^item> \<open>PostController\<close>: all twelve handlers, \<open>post_req\<close> and \<open>post_step\<close> (postRoutes.js),
    the counter invariant \<open>posts_ok\<close>. C18--C26.
  \<^item> \<open>UserController\<close>: profiles, follow and unfollow, \<open>user_req\<close> and \<open>user_step\<close>
    (userRoutes.js), the symmetric follow graph \<open>follow_ok\<close> and its refinement to an
    abstract relation \<open>follows\<close>. C27--C30.
  \<^item> \<open>NotificationController\<close> (C31--C33) and \<open>CommentController\<close> (C34--C35).
  \<^item> \<open>System\<close>: the whole server as one state machine over database and gateway. The
    datatype \<open>request\<close> has one constructor per state-changing route mounted in
    server.js 114--119 (auth, users, posts, chat, notifications, comments) and per socket
    event (handshake, \<open>sendMessage\<close>, \<open>disconnect\<close>); \<open>sys_step\<close> dispatches each to the
    component's handler. \<open>sys_inv\<close> conjoins the components' invariants: \<open>db_wf\<close>, the
    user invariant \<open>users_ok_f\<close> (emails identify users, verified users have a password
    and a username and no pending code), \<open>posts_ok\<close>, \<open>follow_ok\<close> and \<open>gw_inv\<close>.
    C36: every sequence of requests from the empty state keeps it; the proof is one
    preservation lemma per handler, each built from the component's own lemmas. C39:
    every stored message is of its schema's type and sits in a stored chat its sender
    takes part in (\<open>msgs_ok\<close>, preserved because only \<open>sendMessage\<close> stores messages,
    after its participant and content checks, and joins only add participants). C40:
    the delivery guarantee of C2 holds in every reachable state with no hypothesis, the
    invariant discharging the ones C2 needs.
  \<^item> this theory: concrete scenarios (three users, one event post, one live connection
    each; a registration; a connection by token; a run of five requests of the whole
    server from the empty state, evaluated step by step) on which every property with
    hypotheses is exercised.

  \<^bold>\<open>Modelling choices.\<close> Every handler runs to completion before the next: the awaits
  of the source are not interleaved, so the read-modify-write races the spec names
  (section 5) are outside these theorems. A handler returns the updated state and either
  an \<open>HttpErr\<close> with the status and message of the source or its result; a write done
  before an error (e.g. clearing an OTP) is kept. Document order is insertion order,
  which is also \<open>createdAt\<close> order since timestamps only grow; the chats'
  \<open>updatedAt\<close> is an input of \<open>getUserChats\<close>. The clock, the random OTP and the
  Cloudinary URLs are inputs of the handlers. No loop of the program needs fuel: the
  only loops are \<open>forEach\<close>/\<open>map\<close>/\<open>filter\<close> over finite arrays, which become list
  functions, and the one recursive definition (\<open>dec_string\<close>, \<open>toString\<close> of a number)
  terminates by the measure of its argument.

  \<^bold>\<open>Environment assumptions of the system step.\<close> The acting user of an HTTP request
  is the id \<open>protect\<close> yields, carried in the request; a token the server signed names a
  user it created (tokens are only issued at confirmation and login, and no handler
  deletes users), which is the guard of the join and handshake steps. Read-only routes
  change no state and are not requests of the system step.

  \<^bold>\<open>Not modelled.\<close> Email delivery (\<open>utils/email\<close>); image upload to Cloudinary and
  the \<open>multer\<close> middleware (\<open>middleware/upload.js\<close>), whose file contents never reach
  the state; Express setup, CORS, \<open>config/db\<close>, the error handler and \<open>listen\<close>;
  CastErrors from malformed ids and database failures (the 500 branches); parsing of
  date strings; and the concurrency of interleaved requests.
\<close>

section \<open>A concrete scenario\<close>

text \<open>
  Users alice (0), bob (1) and carol (2); bob's event post 3; one live connection each.
  alice joins post 3, which creates chat 4 with participants bob and alice; then alice
  sends a text message, which becomes message 5.
\<close>

definition ex_user :: "oid \<Rightarrow> string \<Rightarrow> string \<Rightarrow> user" where
  "ex_user i n e = \<lparr>uid = i, username = Some n, email = e, password = Some (Bcrypt ''pw''),
     profileImageUrl = None, bio = [], interestedEvents = [], followers = [], following = [],
     otp = None, otpExpires = None, isVerified = True\<rparr>"

definition ex_post :: post where
  "ex_post = \<lparr>pid = 3, author = 1, title = ''Meetup'', description = ''Talks'', mediaUrls = [],
     interestedCount = 0, commentCount = 0, isEvent = True, eventDateTime = Some 5000,
     location = Some ''Hall'', interestedUsers = [], attendedUsers = [], createdAt = 100\<rparr>"

definition ex_db0 :: db where
  "ex_db0 = \<lparr>users = [ex_user 0 ''alice'' ''a@x.com'', ex_user 1 ''bob'' ''b@x.com'',
       ex_user 2 ''carol'' ''c@x.com''], posts = [ex_post], chats = [], messages = [],
     notifications = [], comments = [], next_oid = 4\<rparr>"

definition ex_gw0 :: gateway where
  "ex_gw0 = \<lparr>sockets = [\<lparr>sock_id = 0, sock_user = 1, rooms = {1}\<rparr>,
     \<lparr>sock_id = 1, sock_user = 0, rooms = {0}\<rparr>, \<lparr>sock_id = 2, sock_user = 2, rooms = {2}\<rparr>],
     next_sock = 3\<rparr>"

definition ex_chat :: chat where
  "ex_chat = new_chat 4 3 ''Meetup'' [1, 0]"

definition ex_db1 :: db where
  "ex_db1 = ex_db0\<lparr>chats := [ex_chat], next_oid := 5\<rparr>"

definition ex_gw1 :: gateway where
  "ex_gw1 = \<lparr>sockets = [\<lparr>sock_id = 0, sock_user = 1, rooms = {1}\<rparr>,
     \<lparr>sock_id = 1, sock_user = 0, rooms = {0, 4}\<rparr>, \<lparr>sock_id = 2, sock_user = 2, rooms = {2}\<rparr>],
     next_sock = 3\<rparr>"

definition ex_send :: send_data where
  "ex_send = \<lparr>chatRoomId = 4, sd_content = Some '' hi '', sd_type = None, sd_mediaUrl = None\<rparr>"

definition ex_msg :: message where
  "ex_msg = new_message 5 4 0 (Some ''hi'') None MText"

text \<open>
  The registration scenario: \<open>a@x.com\<close> requests registration at time 0 and receives the
  code drawn as 123456; a confirmation with a wrong code at time 100 clears it.
\<close>

definition ex_email :: string where
  "ex_email = ''a@x.com''"

definition ex_adb1 :: db where
  "ex_adb1 = empty_db\<lparr>users := [new_user 0 ex_email ''123456'' otp_lifetime], next_oid := 1\<rparr>"

definition ex_adb_burnt :: db where
  "ex_adb_burnt = empty_db\<lparr>users := [(new_user 0 ex_email ''123456'' otp_lifetime)\<lparr>otp := None, otpExpires := None\<rparr>],
     next_oid := 1\<rparr>"

text \<open>A \<open>jwt.verify\<close> that accepts the one token string \<open>tok\<close>, for user 7.\<close>

definition ex_verify :: "string \<Rightarrow> jwt_payload option" where
  "ex_verify s = (if s = ''tok'' then Some \<lparr>pl_user = Some 7, pl_underscore_id = None, pl_id = None\<rparr> else None)"

text \<open>
  The post scenario: alice (0) is interested in bob's event post 3 (which starts at time 5000)
  and marks attendance at time 6000.
\<close>

definition ex_post_i :: post where
  "ex_post_i = ex_post\<lparr>interestedUsers := [0], interestedCount := 1\<rparr>"

definition ex_db_i :: db where
  "ex_db_i = ex_db0\<lparr>posts := [ex_post_i]\<rparr>"

definition ex_post_a :: post where
  "ex_post_a = ex_post_i\<lparr>attendedUsers := [0]\<rparr>"

definition ex_db_a :: db where
  "ex_db_a = ex_db0\<lparr>posts := [ex_post_a]\<rparr>"

text \<open>The notification scenario: bob's follow notification for alice, id 4.\<close>

definition ex_notif :: notification where
  "ex_notif = \<lparr>notif_id = 4, recipient = 0, nsender = Some 1, ntype = FollowNotif,
     nmessage = ''bob follows you'', relatedEntityId = None, isRead = False\<rparr>"

definition ex_dbn :: db where
  "ex_dbn = ex_db0\<lparr>notifications := [ex_notif], next_oid := 5\<rparr>"

text \<open>A connection of alice (user 0) with a token signed until time 100, after the join.\<close>

definition ex_tok :: token where
  "ex_tok = Signed \<lparr>pl_user = Some 0, pl_underscore_id = None, pl_id = None\<rparr> 100"

definition ex_gwc :: gateway where
  "ex_gwc = \<lparr>sockets = [\<lparr>sock_id = 0, sock_user = 0, rooms = {0, 4}\<rparr>], next_sock = 1\<rparr>"

text \<open>
  A run of the whole server from the empty state: \<open>a@x.com\<close> registers (user 0) and
  confirms with the mailed code as alice, creates event post 1, joins its chat (chat 2,
  created with the author listed twice), connects with a token, and sends a text message
  (message 3).
\<close>

definition ex_post_c :: post where
  "ex_post_c = \<lparr>pid = 1, author = 0, title = ''Meetup'', description = ''Talks'', mediaUrls = [],
     interestedCount = 0, commentCount = 0, isEvent = True, eventDateTime = Some 5000,
     location = None, interestedUsers = [], attendedUsers = [], createdAt = 10\<rparr>"

definition ex_alice :: user where
  "ex_alice = (new_user 0 ex_email ''123456'' otp_lifetime)\<lparr>username := Some ''alice'',
     password := Some (Bcrypt ''pw''), isVerified := True, otp := None, otpExpires := None\<rparr>"

definition ex_v1 :: db where
  "ex_v1 = empty_db\<lparr>users := [ex_alice], next_oid := 1\<rparr>"

definition ex_r2 :: db where
  "ex_r2 = ex_v1\<lparr>posts := [ex_post_c], next_oid := 2\<rparr>"

definition ex_r3 :: db where
  "ex_r3 = ex_r2\<lparr>chats := [new_chat 2 1 ''Meetup'' [0, 0]], next_oid := 3\<rparr>"

definition ex_sock :: socket where
  "ex_sock = \<lparr>sock_id = 0, sock_user = 0, rooms = {0, 2}\<rparr>"

definition ex_g4 :: gateway where
  "ex_g4 = \<lparr>sockets = [ex_sock], next_sock = 1\<rparr>"

definition ex_send5 :: send_data where
  "ex_send5 = \<lparr>chatRoomId = 2, sd_content = Some ''hi'', sd_type = None, sd_mediaUrl = None\<rparr>"

definition ex_m5 :: message where
  "ex_m5 = new_message 3 2 0 (Some ''hi'') None MText"

definition ex_r5 :: db where
  "ex_r5 = ex_r3\<lparr>messages := [ex_m5], chats := [(new_chat 2 1 ''Meetup'' [0, 0])\<lparr>lastMessage := Some 3\<rparr>],
     next_oid := 4\<rparr>"

definition ex_run :: "request list" where
  "ex_run = [Register (Some ex_email) 123456 0,
     Verify (Some ex_email) (Some ''123456'') (Some ''alice'') (Some ''pw'') (Some ''personal'') 1,
     PostReq (CreatePost 0 (Some ''Meetup'') (Some ''Talks'') (JBool True) (Some 5000) None [] 10),
     JoinChat 1 0, Connect (Some ex_tok) 20]"

section \<open>Evaluation of the scenario\<close>

lemma ex_join: "joinPostGroupChat ex_db0 ex_gw0 3 0 = (ex_db1, ex_gw1, Inr ex_chat)"
  by (simp add: joinPostGroupChat_def ex_db0_def ex_post_def chat_of_post_def new_oid_def
      ex_db1_def ex_chat_def ex_gw0_def ex_gw1_def sockets_join_def js_trim_def js_ws_def
      insert_commute Let_def)

lemma ex_wf0: "db_wf ex_db0"
  by (simp add: db_wf_def all_ids_def ex_db0_def ex_user_def ex_post_def)

lemma ex_wf1: "db_wf ex_db1"
  by (simp add: db_wf_def all_ids_def ex_db1_def ex_db0_def ex_user_def ex_post_def ex_chat_def new_chat_def)

lemma ex_gw_inv1: "gw_inv ex_db1 ex_gw1"
  by (auto simp: gw_inv_def ex_gw1_def ex_db1_def ex_db0_def ex_user_def user_chat_rooms_def
      ex_chat_def new_chat_def)

lemma ex_sent: "socket_sendMessage ex_db1 ex_gw1 \<lparr>sock_id = 1, sock_user = 0, rooms = {0, 4}\<rparr> ex_send =
   (fst (socket_sendMessage ex_db1 ex_gw1 \<lparr>sock_id = 1, sock_user = 0, rooms = {0, 4}\<rparr> ex_send),
    [(1, ReceiveMessage ex_msg (Some (0, Some ''alice'', None)))])"
  by (simp add: socket_sendMessage_def ex_db1_def ex_db0_def ex_chat_def new_chat_def ex_send_def
      data_type_def content_valid_def js_trim_def js_ws_def new_oid_def io_to_emit_def ex_gw1_def
      ex_msg_def ex_user_def Let_def)


lemma ex_gw_inv0: "gw_inv ex_db0 ex_gw0"
  by (auto simp: gw_inv_def ex_gw0_def ex_db0_def ex_user_def)

lemma ex_dec: "dec_string 123456 = ''123456''"
  by (simp add: dec_string.simps digit_char_def)

lemma ex_register1: "registerUser empty_db (Some ex_email) 123456 0 = (ex_adb1, Inr ())"
  by (simp add: registerUser_def ex_adb1_def empty_db_def find_by_email_def new_oid_def ex_dec ex_email_def)

lemma ex_uname: "find_by_username ex_adb1 ''alice'' = None"
  by (simp add: find_by_username_def ex_adb1_def new_user_def)

lemma ex_inv1: "auth_inv ex_adb1"
  using registerUser_inv [OF auth_inv_empty ex_register1] .

lemma ex_burn: "verifyOtpAndRegister ex_adb1 (Some ex_email) (Some ''000000'') (Some ''alice'') (Some ''pw'')
    (Some ''personal'') 100 = (ex_adb_burnt, Inl (HttpErr 400 ''Invalid or expired OTP.''))"
  by (simp add: verifyOtpAndRegister_def ex_adb1_def ex_adb_burnt_def find_by_email_def new_user_def
      otp_rejected_def ex_email_def)

lemma ex_posts_ok0: "posts_ok ex_db0"
  by (simp add: posts_ok_def post_ok_def ex_db0_def ex_post_def)

lemma ex_find_post0: "find_post ex_db0 3 = Some ex_post"
  by (simp add: ex_db0_def ex_post_def)

lemma ex_mark: "markAttendance ex_db_i 3 0 6000 = (ex_db_a, Inr ex_post_a)"
  by (simp add: markAttendance_def ex_db_i_def ex_db_a_def ex_post_a_def ex_post_i_def ex_post_def
      js_date_num_def Let_def)

lemma ex_follow_ok0: "follow_ok ex_db0"
  by (simp add: follow_ok_def follow_ok_f_def ex_db0_def ex_user_def)

lemma ex_follow: "followUser ex_db0 (Some 1) 0 = (fst (followUser ex_db0 (Some 1) 0), Inr ())"
  by (simp add: followUser_def ex_db0_def ex_user_def)

lemma ex_notify: "createNotification ex_db0 (Some 0) (Some 1) ''follow'' (Some ''bob follows you'') None =
    (ex_dbn, Some ex_notif)"
  by (simp add: createNotification_def parse_notif_type_def js_trim_def js_ws_def new_oid_def
      ex_dbn_def ex_notif_def ex_db0_def Let_def)

lemma ex_wfn: "db_wf ex_dbn"
  by (rule createNotification_db_wf [OF ex_wf0 ex_notify])

lemma ex_step1: "sys_step (empty_db, empty_gateway) (Register (Some ex_email) 123456 0) = (ex_adb1, empty_gateway)"
  by (simp add: ex_register1)

lemma ex_step1v:
  "sys_step (ex_adb1, empty_gateway)
     (Verify (Some ex_email) (Some ''123456'') (Some ''alice'') (Some ''pw'') (Some ''personal'') 1) =
   (ex_v1, empty_gateway)"
  by (simp add: verifyOtpAndRegister_def ex_adb1_def ex_v1_def ex_alice_def find_by_email_def
      find_by_username_def new_user_def otp_rejected_def otp_lifetime_def js_trim_def js_ws_def ex_email_def
      empty_db_def Let_def)

lemma ex_step2:
  "sys_step (ex_v1, empty_gateway)
     (PostReq (CreatePost 0 (Some ''Meetup'') (Some ''Talks'') (JBool True) (Some 5000) None [] 10)) =
   (ex_r2, empty_gateway)"
  by (simp add: createPost_def post_text_ok_def ex_post_c_def ex_v1_def ex_r2_def new_oid_def Let_def
      empty_db_def js_trim_def js_ws_def)

lemma ex_step3: "sys_step (ex_r2, empty_gateway) (JoinChat 1 0) = (ex_r3, empty_gateway)"
  by (simp add: joinPostGroupChat_def ex_r3_def ex_r2_def ex_v1_def empty_db_def ex_post_c_def ex_alice_def new_user_def
      chat_of_post_def new_oid_def sockets_join_def empty_gateway_def js_trim_def js_ws_def Let_def)

lemma ex_step4: "sys_step (ex_r3, empty_gateway) (Connect (Some ex_tok) 20) = (ex_r3, ex_g4)"
  by (simp add: token_of_user_def token_user_def io_connect_def ex_tok_def ex_g4_def ex_sock_def
      empty_gateway_def user_chat_rooms_def ex_r3_def ex_r2_def ex_v1_def empty_db_def ex_alice_def
      new_user_def new_chat_def insert_commute)

lemma ex_run_eval: "foldl sys_step (empty_db, empty_gateway) ex_run = (ex_r3, ex_g4)"
  unfolding ex_run_def foldl_Cons foldl_Nil ex_step1 ex_step1v ex_step2 ex_step3 ex_step4 ..

lemma ex_send5_eval:
  "socket_sendMessage ex_r3 ex_g4 ex_sock ex_send5 =
     (ex_r5, [(0, ReceiveMessage ex_m5 (Some (0, Some ''alice'', None)))])"
  by (simp add: socket_sendMessage_def ex_g4_def ex_sock_def ex_send5_def ex_r5_def ex_r3_def ex_r2_def
      ex_v1_def empty_db_def new_chat_def ex_alice_def new_user_def new_oid_def data_type_def content_valid_def
      js_trim_def js_ws_def ex_m5_def io_to_emit_def Let_def)

lemma ex_step5: "sys_step (ex_r3, ex_g4) (SendMessage 0 ex_send5) = (ex_r5, ex_g4)"
  using ex_send5_eval by (simp add: ex_g4_def ex_sock_def)

lemma ex_run5_eval:
  "foldl sys_step (empty_db, empty_gateway) (ex_run @ [SendMessage 0 ex_send5]) = (ex_r5, ex_g4)"
  unfolding foldl_append ex_run_eval foldl_Cons foldl_Nil ex_step5 ..

section \<open>Witnesses of the properties\<close>

theorem sendMessage_outsider_rejected_witness:
  "\<not> (\<exists>c. find_chat ex_db1 (chatRoomId ex_send) = Some c \<and>
          sock_user \<lparr>sock_id = 2, sock_user = 2, rooms = {2}\<rparr> \<in> set (participants c)) \<and>
   socket_sendMessage ex_db1 ex_gw1 \<lparr>sock_id = 2, sock_user = 2, rooms = {2}\<rparr> ex_send =
     (ex_db1, [(2, SendMessageError not_participant_msg)])"
proof -
  have h: "\<not> (\<exists>c. find_chat ex_db1 (chatRoomId ex_send) = Some c \<and>
          sock_user \<lparr>sock_id = 2, sock_user = 2, rooms = {2}\<rparr> \<in> set (participants c))"
    by (simp add: ex_db1_def ex_chat_def new_chat_def ex_send_def)
  show ?thesis using h sendMessage_outsider_rejected [OF h, of ex_gw1] by simp
qed

theorem sendMessage_delivers_to_participants_witness:
  "db_wf ex_db1 \<and> gw_inv ex_db1 ex_gw1 \<and>
   (\<exists>s' \<in> set (sockets ex_gw1). sock_id s' = 1 \<and>
      (\<exists>c \<in> set (chats (fst (socket_sendMessage ex_db1 ex_gw1 \<lparr>sock_id = 1, sock_user = 0, rooms = {0, 4}\<rparr> ex_send))).
         chat_id c = chat ex_msg \<and> sock_user s' \<in> set (participants c)))"
  using sendMessage_delivers_to_participants [OF ex_wf1 ex_gw_inv1 ex_sent] ex_wf1 ex_gw_inv1
  by simp


theorem join_idempotent_witness:
  "db_wf ex_db0 \<and> one_chat_per_post ex_db0 \<and>
   joinPostGroupChat ex_db1 ex_gw1 3 0 = (ex_db1, ex_gw1, Inr ex_chat)"
proof -
  have h: "one_chat_per_post ex_db0" by (simp add: one_chat_per_post_def ex_db0_def)
  show ?thesis using join_idempotent [OF ex_wf0 h ex_join] ex_wf0 h by simp
qed

theorem join_single_membership_witness:
  "db_wf ex_db0 \<and> participants_distinct ex_db0 \<and> find_post ex_db0 3 = Some ex_post \<and>
   (0::oid) \<noteq> author ex_post \<and> count_list (participants ex_chat) 0 = 1 \<and> participants_distinct ex_db1"
proof -
  have h: "participants_distinct ex_db0" "find_post ex_db0 3 = Some ex_post" "(0::oid) \<noteq> author ex_post"
    by (simp_all add: participants_distinct_def ex_db0_def ex_post_def)
  show ?thesis using join_single_membership [OF ex_wf0 h ex_join] ex_wf0 h by simp
qed

theorem join_keeps_gateway_inv_witness:
  "db_wf ex_db0 \<and> gw_inv ex_db0 ex_gw0 \<and> find_user ex_db0 0 \<noteq> None \<and>
   db_wf ex_db1 \<and> gw_inv ex_db1 ex_gw1"
proof -
  have h: "find_user ex_db0 0 \<noteq> None" by (simp add: ex_db0_def ex_user_def)
  show ?thesis using join_keeps_gateway_inv [OF ex_wf0 ex_gw_inv0 h ex_join] ex_wf0 ex_gw_inv0 h
    by simp
qed

theorem join_leaves_author_unsubscribed_witness:
  "db_wf ex_db0 \<and> gw_inv ex_db0 ex_gw0 \<and> find_user ex_db0 0 \<noteq> None \<and>
   find_post ex_db0 3 = Some ex_post \<and> chat_of_post ex_db0 3 = None \<and> (0::oid) \<noteq> author ex_post \<and>
   \<lparr>sock_id = 0, sock_user = 1, rooms = {1}\<rparr> \<in> set (sockets ex_gw1) \<and>
   author ex_post \<in> set (participants ex_chat) \<and> chat_id ex_chat \<notin> {1::oid}"
proof -
  have h: "find_user ex_db0 0 \<noteq> None" "find_post ex_db0 3 = Some ex_post"
    "chat_of_post ex_db0 3 = None" "(0::oid) \<noteq> author ex_post"
    "\<lparr>sock_id = 0, sock_user = 1, rooms = {1}\<rparr> \<in> set (sockets ex_gw1)"
    "sock_user \<lparr>sock_id = 0, sock_user = 1, rooms = {1}\<rparr> = author ex_post"
    by (simp_all add: ex_db0_def ex_user_def ex_post_def chat_of_post_def ex_gw1_def)
  show ?thesis
    using join_leaves_author_unsubscribed [OF ex_wf0 ex_gw_inv0 h(1-4) ex_join h(5,6)]
      ex_wf0 ex_gw_inv0 h by simp
qed

theorem author_first_join_duplicates_witness:
  "find_post ex_db0 3 = Some ex_post \<and> isEvent ex_post \<and> chat_of_post ex_db0 3 = None \<and>
   js_trim (title ex_post) \<noteq> [] \<and>
   (\<exists>d1 g1 c1. joinPostGroupChat ex_db0 ex_gw0 3 1 = (d1, g1, Inr c1) \<and>
      participants c1 = [1, 1] \<and> \<not> participants_distinct d1)"
proof -
  have h: "find_post ex_db0 3 = Some ex_post" "isEvent ex_post" "chat_of_post ex_db0 3 = None"
    "js_trim (title ex_post) \<noteq> []"
    by (simp_all add: ex_db0_def ex_post_def chat_of_post_def js_trim_def js_ws_def)
  show ?thesis using author_first_join_duplicates [OF h, of ex_gw0] h by (simp add: ex_post_def)
qed

theorem sendMessage_history_appends_witness:
  "db_wf ex_db1 \<and> getGroupMessages ex_db1 (chat ex_msg) 0 = Inr [] \<and>
   getGroupMessages (fst (socket_sendMessage ex_db1 ex_gw1 \<lparr>sock_id = 1, sock_user = 0, rooms = {0, 4}\<rparr> ex_send))
     (chat ex_msg) 0 = Inr [ex_msg]"
proof -
  have h: "getGroupMessages ex_db1 (chat ex_msg) 0 = Inr []"
    by (simp add: getGroupMessages_def ex_db1_def ex_db0_def ex_chat_def new_chat_def ex_msg_def
        new_message_def)
  have dl: "(1, ReceiveMessage ex_msg (Some (0, Some ''alice'', None))) \<in>
      set [(1::nat, ReceiveMessage ex_msg (Some (0, Some ''alice'', None)))]" by simp
  have "getGroupMessages (fst (socket_sendMessage ex_db1 ex_gw1
      \<lparr>sock_id = 1, sock_user = 0, rooms = {0, 4}\<rparr> ex_send)) (chat ex_msg) 0 = Inr ([] @ [ex_msg])"
    using sendMessage_history_appends [OF ex_wf1 ex_sent dl h] by assumption
  then show ?thesis using ex_wf1 h by (simp only: append_Nil simp_thms)
qed

theorem wrong_code_burns_otp_witness:
  "auth_inv ex_adb1 \<and>
   verifyOtpAndRegister ex_adb1 (Some ex_email) (Some ''000000'') (Some ''alice'') (Some ''pw'')
     (Some ''personal'') 100 = (ex_adb_burnt, Inl (HttpErr 400 ''Invalid or expired OTP.'')) \<and>
   (\<exists>err. snd (verifyOtpAndRegister ex_adb_burnt (Some ex_email) (Some ''123456'') (Some ''alice'')
     (Some ''pw'') (Some ''personal'') 200) = Inl err)"
  using wrong_code_burns_otp [OF ex_inv1 ex_burn, of "Some ''123456''" "Some ''alice''" "Some ''pw''"
      "Some ''personal''" 200 "fst (verifyOtpAndRegister ex_adb_burnt (Some ex_email) (Some ''123456'')
      (Some ''alice'') (Some ''pw'') (Some ''personal'') 200)"] ex_inv1 ex_burn
  by simp

theorem register_overwrites_pending_witness:
  "auth_inv empty_db \<and> registerUser empty_db (Some ex_email) 123456 0 = (ex_adb1, Inr ()) \<and>
   length (filter (\<lambda>u. email u = norm_email ex_email)
     (users (fst (registerUser ex_adb1 (Some ex_email) 654321 5)))) = 1"
  using register_overwrites_pending [OF auth_inv_empty ex_register1, of 654321 5
      "fst (registerUser ex_adb1 (Some ex_email) 654321 5)" "snd (registerUser ex_adb1 (Some ex_email) 654321 5)"]
    auth_inv_empty ex_register1
  by simp

theorem register_verify_login_witness:
  "auth_inv empty_db \<and> registerUser empty_db (Some ex_email) 123456 0 = (ex_adb1, Inr ()) \<and>
   find_by_username ex_adb1 ''alice'' = None \<and>
   (\<exists>u. snd (verifyOtpAndRegister ex_adb1 (Some ex_email) (Some (dec_string 123456)) (Some ''alice'')
          (Some ''pw'') (Some ''personal'') 1000) = Inr (generateToken (uid u) 1000, u) \<and>
        isVerified u \<and> username u = Some ''alice'')"
proof -
  have h: "''alice'' \<noteq> []" "''pw'' \<noteq> []" "''personal'' \<in> {''personal'', ''corporate''}"
    "(1000::int) \<le> 0 + otp_lifetime" by (simp_all add: otp_lifetime_def)
  have t: "js_trim ''alice'' = ''alice''" by (simp add: js_trim_def js_ws_def)
  show ?thesis
    using register_verify_login [OF auth_inv_empty ex_register1 h ex_uname,
      of "fst (verifyOtpAndRegister ex_adb1 (Some ex_email) (Some (dec_string 123456)) (Some ''alice'')
          (Some ''pw'') (Some ''personal'') 1000)" "snd (verifyOtpAndRegister ex_adb1 (Some ex_email)
          (Some (dec_string 123456)) (Some ''alice'') (Some ''pw'') (Some ''personal'') 1000)" 0]
      auth_inv_empty ex_register1 ex_uname t
    by auto
qed

theorem auth_reach_inv_witness: "auth_reach ex_adb_burnt \<and> auth_inv ex_adb_burnt"
proof -
  have "auth_reach ex_adb1" by (rule auth_reach.register [OF auth_reach.start ex_register1])
  then have r: "auth_reach ex_adb_burnt" by (rule auth_reach.verify [OF _ ex_burn])
  show ?thesis using auth_reach_inv [OF r] r by simp
qed

theorem pending_user_cannot_login_witness:
  "auth_inv empty_db \<and> registerUser empty_db (Some ex_email) 123456 0 = (ex_adb1, Inr ()) \<and> ''pw'' \<noteq> [] \<and>
   loginUser ex_adb1 (Some ex_email) (Some ''pw'') 7 = Inl (HttpErr 403 ''Please verify your email address first.'')"
  using pending_user_cannot_login [OF auth_inv_empty ex_register1, of "''pw''" 7] auth_inv_empty ex_register1
  by simp


theorem protect_bearer_roundtrip_witness:
  "''tok'' \<noteq> [] \<and> CHR '' '' \<notin> set ''tok'' \<and> ex_verify ''tok'' = Some \<lparr>pl_user = Some 7, pl_underscore_id = None, pl_id = None\<rparr> \<and>
   payload_user \<lparr>pl_user = Some 7, pl_underscore_id = None, pl_id = None\<rparr> = Some 7 \<and>
   protect ex_verify (Some ''Bearer tok'') None = Inr 7"
proof -
  have h: "''tok'' \<noteq> []" "CHR '' '' \<notin> set ''tok''"
    "ex_verify ''tok'' = Some \<lparr>pl_user = Some 7, pl_underscore_id = None, pl_id = None\<rparr>"
    "payload_user \<lparr>pl_user = Some 7, pl_underscore_id = None, pl_id = None\<rparr> = Some 7"
    by (simp_all add: ex_verify_def payload_user_def)
  show ?thesis using protect_bearer_roundtrip [of "''tok''" ex_verify _ 7 None, OF h] h by simp
qed

theorem toggle_interest_twice_witness:
  "db_wf ex_db0 \<and> posts_ok ex_db0 \<and> find_post ex_db0 3 = Some ex_post \<and>
   (0::oid) \<notin> set (interestedUsers ex_post) \<and> \<not> event_started ex_post 1000 \<and> \<not> event_started ex_post 2000 \<and>
   fst (togglePostInterest (fst (togglePostInterest ex_db0 3 0 1000)) 3 0 2000) = ex_db0"
proof -
  have h: "(0::oid) \<notin> set (interestedUsers ex_post)" "\<not> event_started ex_post 1000"
    "\<not> event_started ex_post 2000" by (simp_all add: ex_post_def event_started_def)
  show ?thesis
    using toggle_interest_twice [OF ex_wf0 ex_posts_ok0 ex_find_post0 h,
        of "fst (togglePostInterest ex_db0 3 0 1000)" "snd (togglePostInterest ex_db0 3 0 1000)"
        "fst (togglePostInterest (fst (togglePostInterest ex_db0 3 0 1000)) 3 0 2000)"
        "snd (togglePostInterest (fst (togglePostInterest ex_db0 3 0 1000)) 3 0 2000)"]
      ex_wf0 ex_posts_ok0 ex_find_post0 h
    by simp
qed

theorem post_requests_keep_counters_witness:
  "db_wf ex_db0 \<and> posts_ok ex_db0 \<and>
   posts_ok (foldl post_step ex_db0 [TogglePostInterest 3 0 1000, MarkAttendance 3 0 6000, DeletePost 3 2])"
  using post_requests_keep_counters [OF ex_wf0 ex_posts_ok0,
      of "[TogglePostInterest 3 0 1000, MarkAttendance 3 0 6000, DeletePost 3 2]"] ex_wf0 ex_posts_ok0
  by simp

theorem mark_attendance_requires_interest_and_start_witness:
  "find_post ex_db_i 3 = Some ex_post_i \<and> markAttendance ex_db_i 3 0 6000 = (ex_db_a, Inr ex_post_a) \<and>
   (0::oid) \<in> set (interestedUsers ex_post_i) \<and> isEvent ex_post_i \<and> ex_post_a = ex_post_i\<lparr>attendedUsers := [0]\<rparr>"
proof -
  have h: "find_post ex_db_i 3 = Some ex_post_i" by (simp add: ex_db_i_def ex_post_i_def ex_post_def)
  have "attendedUsers ex_post_i = []" by (simp add: ex_post_i_def ex_post_def)
  then show ?thesis using mark_attendance_requires_interest_and_start [OF h ex_mark] h ex_mark by simp
qed

theorem mark_attendance_rejects_repeat_witness:
  "markAttendance ex_db_i 3 0 6000 = (ex_db_a, Inr ex_post_a) \<and> (6000::int) \<le> 7000 \<and>
   markAttendance ex_db_a 3 0 7000 = (ex_db_a, Inl (HttpErr 400 ''Already marked as attended''))"
  using mark_attendance_rejects_repeat [OF ex_mark, of 7000] ex_mark by simp

theorem interest_closed_after_start_witness:
  "find_post ex_db0 3 = Some ex_post \<and> eventDateTime ex_post = Some 5000 \<and> (5000::int) \<le> 6000 \<and>
   togglePostInterest ex_db0 3 0 6000 = (ex_db0, Inl (HttpErr 400 ''Cannot mark interest after event starts.''))"
proof -
  have h: "eventDateTime ex_post = Some 5000" "(5000::int) \<le> 6000" by (simp_all add: ex_post_def)
  show ?thesis using interest_closed_after_start [OF ex_find_post0 h, of 0] ex_find_post0 h by simp
qed

theorem only_author_updates_or_deletes_witness:
  "find_post ex_db0 3 = Some ex_post \<and> author ex_post \<noteq> 2 \<and>
   deletePost ex_db0 3 2 = (ex_db0, Inl (HttpErr 403 ''Unauthorized: You are not the author.''))"
proof -
  have h: "author ex_post \<noteq> 2" by (simp add: ex_post_def)
  show ?thesis
    using only_author_updates_or_deletes [OF ex_find_post0 h, of None None JUndef None None None "[]"]
      ex_find_post0 h
    by simp
qed

theorem toggle_attendance_skips_event_rules_witness:
  "find_post ex_db0 3 = Some ex_post \<and> (2::oid) \<notin> set (attendedUsers ex_post) \<and>
   (2::oid) \<notin> set (interestedUsers ex_post) \<and>
   (\<exists>po'. togglePostAttendance ex_db0 3 2 = (save_post po' ex_db0, Inr po') \<and> (2::oid) \<in> set (attendedUsers po'))"
proof -
  have h: "(2::oid) \<notin> set (attendedUsers ex_post)" "(2::oid) \<notin> set (interestedUsers ex_post)"
    by (simp_all add: ex_post_def)
  show ?thesis using toggle_attendance_skips_event_rules [OF ex_find_post0 h(1)] ex_find_post0 h by auto
qed

theorem createPost_false_string_keeps_event_fields_witness:
  "createPost ex_db0 1 (Some ''Party'') (Some ''Fun'') (JStr ''false'') (Some 9000) (Some ''Roof'') [] 200 =
     (fst (createPost ex_db0 1 (Some ''Party'') (Some ''Fun'') (JStr ''false'') (Some 9000) (Some ''Roof'') [] 200),
      Inr (projr (snd (createPost ex_db0 1 (Some ''Party'') (Some ''Fun'') (JStr ''false'') (Some 9000)
        (Some ''Roof'') [] 200)))) \<and>
   eventDateTime (projr (snd (createPost ex_db0 1 (Some ''Party'') (Some ''Fun'') (JStr ''false'') (Some 9000)
     (Some ''Roof'') [] 200))) = Some 9000"
proof -
  have h: "createPost ex_db0 1 (Some ''Party'') (Some ''Fun'') (JStr ''false'') (Some 9000) (Some ''Roof'') [] 200 =
     (fst (createPost ex_db0 1 (Some ''Party'') (Some ''Fun'') (JStr ''false'') (Some 9000) (Some ''Roof'') [] 200),
      Inr (projr (snd (createPost ex_db0 1 (Some ''Party'') (Some ''Fun'') (JStr ''false'') (Some 9000)
        (Some ''Roof'') [] 200))))"
    by (simp add: createPost_def Let_def new_oid_def post_text_ok_def js_trim_def js_ws_def)
  show ?thesis using createPost_false_string_keeps_event_fields [OF h] h by simp
qed



theorem follow_graph_refinement_witness:
  "db_wf ex_db0 \<and> follow_ok ex_db0 \<and>
   follows (fst (followUser ex_db0 (Some 1) 0)) = insert (0, 1) (follows ex_db0)"
proof -
  have h: "snd (followUser ex_db0 (Some 1) 0) = Inr ()" by (subst ex_follow) simp
  show ?thesis using follow_graph_refinement [OF ex_wf0 ex_follow_ok0, of 1 0] h ex_wf0 ex_follow_ok0
    by simp
qed


theorem profile_update_takes_used_username_witness:
  "db_wf ex_db0 \<and> find_user ex_db0 2 = Some (ex_user 2 ''carol'' ''c@x.com'') \<and>
   find_user ex_db0 1 = Some (ex_user 1 ''bob'' ''b@x.com'') \<and>
   (\<exists>x'. updateUserProfile ex_db0 (Some 2) 2 (Some ''bob'') None None = (save_user x' ex_db0, Inr (x'\<lparr>password := None\<rparr>)) \<and>
         \<not> usernames_unique (save_user x' ex_db0))"
proof -
  have h: "find_user ex_db0 2 = Some (ex_user 2 ''carol'' ''c@x.com'')"
    "find_user ex_db0 1 = Some (ex_user 1 ''bob'' ''b@x.com'')" "(1::oid) \<noteq> 2"
    "username (ex_user 1 ''bob'' ''b@x.com'') = Some ''bob''" "''bob'' \<noteq> []" "js_trim ''bob'' = ''bob''"
    "length (bio (ex_user 2 ''carol'' ''c@x.com'')) \<le> 200"
    by (simp_all add: ex_db0_def ex_user_def js_trim_def js_ws_def)
  show ?thesis using profile_update_takes_used_username [OF ex_wf0 h] ex_wf0 h(1,2) by blast
qed

theorem notification_recipient_only_witness:
  "find_notification ex_dbn 4 = Some ex_notif \<and> recipient ex_notif \<noteq> 2 \<and>
   deleteNotification ex_dbn 4 2 = (ex_dbn, Inl (HttpErr 403 ''Unauthorized: Not your notification.''))"
proof -
  have h: "find_notification ex_dbn 4 = Some ex_notif" "recipient ex_notif \<noteq> 2"
    by (simp_all add: ex_dbn_def ex_notif_def)
  show ?thesis using notification_recipient_only [OF h] h by simp
qed

theorem notification_create_list_roundtrip_witness:
  "db_wf ex_db0 \<and> createNotification ex_db0 (Some 0) (Some 1) ''follow'' (Some ''bob follows you'') None =
     (ex_dbn, Some ex_notif) \<and> getNotifications ex_dbn 0 = Inr [ex_notif]"
proof -
  have "getNotifications ex_db0 0 = Inr []" by (simp add: getNotifications_def ex_db0_def)
  then show ?thesis using notification_create_list_roundtrip [OF ex_wf0 ex_notify] ex_wf0 ex_notify by auto
qed

theorem delete_notification_unlists_witness:
  "db_wf ex_dbn \<and> deleteNotification ex_dbn 4 0 = (ex_dbn\<lparr>notifications := []\<rparr>, Inr ()) \<and>
   getNotifications (ex_dbn\<lparr>notifications := []\<rparr>) 0 = Inr []"
proof -
  have h: "deleteNotification ex_dbn 4 0 = (ex_dbn\<lparr>notifications := []\<rparr>, Inr ())"
    by (simp add: deleteNotification_def delete_doc_def ex_dbn_def ex_notif_def)
  show ?thesis using delete_notification_unlists [OF ex_wfn h] ex_wfn h
    by (auto simp: getNotifications_def)
qed

theorem comment_counts_on_post_witness:
  "db_wf ex_db0 \<and> find_post ex_db0 3 = Some ex_post \<and>
   createComment ex_db0 3 2 (Some ''nice'') =
     (fst (createComment ex_db0 3 2 (Some ''nice'')), Inr \<lparr>comment_id = 4, ccontent = ''nice'', cpost = 3, cauthor = 2\<rparr>) \<and>
   find_post (fst (createComment ex_db0 3 2 (Some ''nice''))) 3 = Some (ex_post\<lparr>commentCount := 1\<rparr>)"
proof -
  have h: "createComment ex_db0 3 2 (Some ''nice'') =
     (fst (createComment ex_db0 3 2 (Some ''nice'')), Inr \<lparr>comment_id = 4, ccontent = ''nice'', cpost = 3, cauthor = 2\<rparr>)"
    by (simp add: createComment_def new_oid_def Let_def ex_db0_def)
  have "commentCount ex_post + 1 = 1" by (simp add: ex_post_def)
  then show ?thesis using comment_counts_on_post [OF ex_wf0 ex_find_post0 h] ex_wf0 ex_find_post0 h by simp
qed

theorem comment_on_missing_post_stored_witness:
  "db_wf ex_db0 \<and> find_post ex_db0 9 = None \<and> ''nice'' \<noteq> [] \<and>
   (\<exists>c d'. createComment ex_db0 9 2 (Some ''nice'') = (d', Inr c) \<and> cpost c = 9 \<and>
      c \<in> set (comments d') \<and> posts d' = posts ex_db0)"
proof -
  have h: "find_post ex_db0 9 = None" "''nice'' \<noteq> []" by (simp_all add: ex_db0_def ex_post_def)
  show ?thesis using comment_on_missing_post_stored [OF ex_wf0 h, of 2] ex_wf0 h by blast
qed

text \<open>C38 on alice's connection after the join: it sits in rooms 0 and 4, and chat 4 is
  the one chat listed for her.\<close>

theorem connect_joins_listed_chats_witness:
  "io_connect ex_db1 empty_gateway (Some ex_tok) 0 = (ex_gwc, ConnOpen 0) \<and>
   (\<exists>s \<in> set (sockets ex_gwc). sock_id s = 0 \<and>
      rooms s = insert (sock_user s) (chat_id ` set (getUserChats (\<lambda>_. 0) ex_db1 (sock_user s))))"
proof -
  have c: "io_connect ex_db1 empty_gateway (Some ex_tok) 0 = (ex_gwc, ConnOpen 0)"
    by (simp add: io_connect_def ex_tok_def ex_gwc_def empty_gateway_def user_chat_rooms_def
        ex_db1_def ex_db0_def ex_chat_def new_chat_def insert_commute)
  show ?thesis using c ChatController.connect_joins_listed_chats [OF c, of "\<lambda>_. 0"] by simp
qed


text \<open>C39 on the whole run: the message sent last is a text message with content, in
  chat 2, whose participants include its sender.\<close>

theorem stored_messages_well_formed_witness:
  "foldl sys_step (empty_db, empty_gateway) (ex_run @ [SendMessage 0 ex_send5]) = (ex_r5, ex_g4) \<and>
   ex_m5 \<in> set (messages ex_r5) \<and> content_valid (mtype ex_m5) (content ex_m5) \<and>
   (\<exists>c \<in> set (chats ex_r5). chat_id c = chat ex_m5 \<and> sender ex_m5 \<in> set (participants c))"
proof -
  have m: "ex_m5 \<in> set (messages ex_r5)" by (simp add: ex_r5_def)
  show ?thesis
    using System.stored_messages_well_formed [of "ex_run @ [SendMessage 0 ex_send5]"] m
    by (simp only: ex_run5_eval) simp
qed

text \<open>C40 on the run: the send of the last step, from the reached state, is received by
  the sender's own connection, a participant of chat 2.\<close>

theorem reachable_sends_reach_participants_witness:
  "foldl sys_step (empty_db, empty_gateway) ex_run = (ex_r3, ex_g4) \<and>
   socket_sendMessage ex_r3 ex_g4 ex_sock ex_send5 =
     (ex_r5, [(0, ReceiveMessage ex_m5 (Some (0, Some ''alice'', None)))]) \<and>
   (\<exists>s' \<in> set (sockets ex_g4). sock_id s' = 0 \<and>
      (\<exists>c \<in> set (chats ex_r5). chat_id c = chat ex_m5 \<and> sock_user s' \<in> set (participants c)))"
  using System.reachable_sends_reach_participants [OF ex_run_eval ex_send5_eval, of 0 ex_m5 "Some (0, Some ''alice'', None)"]
    ex_run_eval ex_send5_eval by simp

end
